(* ===== verification/Prelude.thy ===== *)
theory Prelude
  imports Main
begin

text \<open>
  Shared vocabulary of the development: Go errors as values, the outcome of a Go call
  (a value, an error, a panic, or a loop that has not ended within its bound), the
  operations of the package \<open>strings\<close> the connector uses, and generic lemmas on
  lists, prefixes and splitting. Strings are byte strings (\<open>char list\<close>), as Go's are.
\<close>

section \<open>Collections of rewrite rules\<close>

named_theorems go_simps \<open>evaluation rules of the monadic and string operations\<close>
named_theorems outcome_splits \<open>case rules for outcomes\<close>

section \<open>Errors and outcomes\<close>

text \<open>
  The status codes of \<open>google.golang.org/grpc/codes\<close> that the HTTP wrapper produces.
\<close>

datatype grpc_code =
    DeadlineExceeded | Unavailable | NotFoundCode | Unauthenticated
  | PermissionDenied | AlreadyExists | Unimplemented | UnknownCode

text \<open>
  Go errors. The four sentinels are the package variables of \<open>client_graph.go\<close>;
  \<open>ErrText\<close> is an error with a text and nothing wrapped (\<open>errors.New\<close>, or
  \<open>fmt.Errorf\<close> without \<open>%w\<close>); \<open>ErrWrap\<close> is \<open>fmt.Errorf\<close> with \<open>%w\<close>, its
  full text and the errors it wraps; \<open>ErrJoin\<close> is \<open>errors.Join\<close>; \<open>ErrStatus\<close> is a
  grpc status error; \<open>ErrResponse\<close> is \<open>*azcore.ResponseError\<close> with its status code
  and text; \<open>ErrHTTP\<close> is the connector's own \<open>HTTPError\<close> (status, body, retry after,
  rate limited, inner error).
\<close>

datatype error =
    ErrNotFound
  | ErrNoResponse
  | ErrRequestFailed
  | ErrFailedToParseRateLimit
  | ErrText string
  | ErrWrap string "error list"
  | ErrJoin "error list"
  | ErrStatus grpc_code string
  | ErrResponse nat string
  | ErrHTTP nat string int bool "error option"

datatype panic =
    NilDereference
  | IndexOutOfRange
  | PanicMessage string

text \<open>
  \<open>Diverged\<close> is the value of a loop that has not left its last iteration when the
  bound given to it is used up; every theorem that a call returns rules it out.
\<close>

datatype 'a outcome = Ok 'a | Err error | Panic panic | Diverged

declare outcome.splits [outcome_splits]

fun is_Ok :: "'a outcome \<Rightarrow> bool" where
  "is_Ok (Ok _) = True"
| "is_Ok _ = False"

fun bind_outcome :: "'a outcome \<Rightarrow> ('a \<Rightarrow> 'b outcome) \<Rightarrow> 'b outcome" where
  "bind_outcome (Ok x) f = f x"
| "bind_outcome (Err e) f = Err e"
| "bind_outcome (Panic p) f = Panic p"
| "bind_outcome Diverged f = Diverged"

lemma bind_outcome_eq_Ok [simp]:
  "bind_outcome m f = Ok y \<longleftrightarrow> (\<exists>x. m = Ok x \<and> f x = Ok y)"
  by (cases m) auto

lemma bind_outcome_assoc [simp]:
  "bind_outcome (bind_outcome m f) g = bind_outcome m (\<lambda>x. bind_outcome (f x) g)"
  by (cases m) auto

text \<open>Where only an error can come back, the result is a sum.\<close>

fun bind_sum :: "error + 'a \<Rightarrow> ('a \<Rightarrow> error + 'b) \<Rightarrow> error + 'b" where
  "bind_sum (Inl e) f = Inl e"
| "bind_sum (Inr x) f = f x"

section \<open>Package strings\<close>

definition has_prefix :: "string \<Rightarrow> string \<Rightarrow> bool" where
  "has_prefix s p \<longleftrightarrow> take (length p) s = p"

definition has_suffix :: "string \<Rightarrow> string \<Rightarrow> bool" where
  "has_suffix s t \<longleftrightarrow> length t \<le> length s \<and> drop (length s - length t) s = t"

fun str_contains :: "string \<Rightarrow> string \<Rightarrow> bool" where
  "str_contains [] sub \<longleftrightarrow> sub = []"
| "str_contains (c # cs) sub \<longleftrightarrow> has_prefix (c # cs) sub \<or> str_contains cs sub"

definition trim_prefix :: "string \<Rightarrow> string \<Rightarrow> string" where
  "trim_prefix s p = (if has_prefix s p then drop (length p) s else s)"

text \<open>\<open>strings.Split\<close> at a separator of one byte: n separators give n + 1 pieces.\<close>

fun split_at :: "char \<Rightarrow> string \<Rightarrow> string list" where
  "split_at c [] = [[]]"
| "split_at c (x # xs) =
     (if x = c then [] # split_at c xs
      else (case split_at c xs of [] \<Rightarrow> [[x]] | p # ps \<Rightarrow> (x # p) # ps))"

fun join_with :: "string \<Rightarrow> string list \<Rightarrow> string" where
  "join_with sep [] = []"
| "join_with sep [x] = x"
| "join_with sep (x # y # ys) = x @ sep @ join_with sep (y # ys)"

text \<open>
  \<open>strings.ToLower\<close> and \<open>strings.TrimSpace\<close> on the ASCII range; bytes from 128 on
  are left as they are (the code compares the results with ASCII words only).
\<close>

definition byte_of :: "char \<Rightarrow> nat" where
  "byte_of c = of_char c"

definition lower_char :: "char \<Rightarrow> char" where
  "lower_char c = (if 65 \<le> byte_of c \<and> byte_of c \<le> 90 then char_of (byte_of c + 32) else c)"

definition to_lower :: "string \<Rightarrow> string" where
  "to_lower s = map lower_char s"

definition is_space :: "char \<Rightarrow> bool" where
  "is_space c \<longleftrightarrow> byte_of c = 32 \<or> (9 \<le> byte_of c \<and> byte_of c \<le> 13)"

definition trim_space :: "string \<Rightarrow> string" where
  "trim_space s = rev (dropWhile is_space (rev (dropWhile is_space s)))"

text \<open>\<open>strconv.Itoa\<close> on naturals (status codes).\<close>

fun itoa :: "nat \<Rightarrow> string" where
  "itoa n = (if n < 10 then [char_of (48 + n)] else itoa (n div 10) @ [char_of (48 + n mod 10)])"

declare itoa.simps [simp del]

text \<open>\<open>strconv.Atoi\<close>: an optional sign and digits that fit 64 bits.\<close>

definition is_digit :: "char \<Rightarrow> bool" where
  "is_digit c \<longleftrightarrow> 48 \<le> byte_of c \<and> byte_of c \<le> 57"

definition digits_value :: "string \<Rightarrow> nat" where
  "digits_value ds = foldl (\<lambda>n c. 10 * n + (byte_of c - 48)) 0 ds"

definition atoi :: "string \<Rightarrow> int option" where
  "atoi s =
     (let neg = (s \<noteq> [] \<and> hd s = CHR ''-'');
          ds = (if s \<noteq> [] \<and> (hd s = CHR ''-'' \<or> hd s = CHR ''+'') then tl s else s)
      in if ds = [] \<or> \<not> list_all is_digit ds then None
         else let v = int (digits_value ds)
              in if neg then (if v \<le> 2 ^ 63 then Some (- v) else None)
                 else (if v < 2 ^ 63 then Some v else None))"

section \<open>Association lists\<close>

text \<open>Storing under a key of a Go map written as an association list with distinct keys.\<close>

definition assoc_set :: "'k \<Rightarrow> 'v \<Rightarrow> ('k \<times> 'v) list \<Rightarrow> ('k \<times> 'v) list" where
  "assoc_set k v kvs = filter (\<lambda>(k', _). k' \<noteq> k) kvs @ [(k, v)]"

section \<open>Generic lemmas\<close>

lemma map_of_assoc_set [simp]: "map_of (assoc_set k v kvs) = (map_of kvs)(k \<mapsto> v)"
proof
  fix x
  show "map_of (assoc_set k v kvs) x = ((map_of kvs)(k \<mapsto> v)) x"
    by (induction kvs) (auto simp: assoc_set_def)
qed

lemma distinct_assoc_set: "distinct (map fst kvs) \<Longrightarrow> distinct (map fst (assoc_set k v kvs))"
  by (induction kvs) (auto simp: assoc_set_def)

lemma set_assoc_set: "set (map fst (assoc_set k v kvs)) = insert k (set (map fst kvs))"
  by (induction kvs) (auto simp: assoc_set_def)

lemma has_prefix_append [simp]: "has_prefix (p @ s) p"
  by (simp add: has_prefix_def)

lemma has_prefix_iff: "has_prefix s p \<longleftrightarrow> (\<exists>r. s = p @ r)"
  by (metis append_eq_conv_conj append_take_drop_id has_prefix_def)

lemma has_suffix_append [simp]: "has_suffix (s @ t) t"
  by (simp add: has_suffix_def)

lemma has_suffix_iff: "has_suffix s t \<longleftrightarrow> (\<exists>r. s = r @ t)"
proof
  assume "has_suffix s t"
  then have "s = take (length s - length t) s @ t"
    by (metis append_take_drop_id has_suffix_def)
  then show "\<exists>r. s = r @ t" ..
qed (auto simp: has_suffix_def)

lemma str_contains_iff: "str_contains s sub \<longleftrightarrow> (\<exists>a b. s = a @ sub @ b)"
proof (induction s)
  case Nil
  then show ?case by auto
next
  case (Cons c cs)
  show ?case
  proof
    assume "str_contains (c # cs) sub"
    then consider "has_prefix (c # cs) sub" | "str_contains cs sub" by auto
    then show "\<exists>a b. c # cs = a @ sub @ b"
    proof cases
      case 1
      then show ?thesis by (auto simp: has_prefix_iff intro: exI [of _ "[]"])
    next
      case 2
      with Cons.IH obtain a b where "cs = a @ sub @ b" by blast
      then have "c # cs = (c # a) @ sub @ b" by simp
      then show ?thesis by blast
    qed
  next
    assume "\<exists>a b. c # cs = a @ sub @ b"
    then obtain a b where ab: "c # cs = a @ sub @ b" by blast
    show "str_contains (c # cs) sub"
    proof (cases a)
      case Nil
      with ab have "has_prefix (c # cs) sub" by (simp add: has_prefix_iff)
      then show ?thesis by simp
    next
      case (Cons x a')
      with ab have "cs = a' @ sub @ b" by simp
      with Cons.IH show ?thesis by auto
    qed
  qed
qed

lemma str_contains_char: "str_contains s [c] \<longleftrightarrow> c \<in> set s"
  by (auto simp: str_contains_iff in_set_conv_decomp)

lemma split_at_not_Nil [simp]: "split_at c s \<noteq> []"
  by (cases s) (auto split: list.splits)

lemma split_at_no_sep: "c \<notin> set s \<Longrightarrow> split_at c s = [s]"
  by (induction s) auto

lemma split_at_append:
  "c \<notin> set p \<Longrightarrow> split_at c (p @ c # s) = p # split_at c s"
  by (induction p) auto

lemma split_at_join:
  assumes "xs \<noteq> []" and "\<forall>x\<in>set xs. c \<notin> set x"
  shows "split_at c (join_with [c] xs) = xs"
  using assms by (induction "[c]" xs rule: join_with.induct) (auto simp: split_at_no_sep split_at_append)

lemma length_split_at: "length (split_at c s) = Suc (count_list s c)"
  by (induction s) (auto split: list.splits)

lemma split_at_pieces: "p \<in> set (split_at c s) \<Longrightarrow> c \<notin> set p"
proof (induction s arbitrary: p)
  case (Cons x xs)
  then show ?case by (cases "split_at c xs") (auto split: if_splits)
qed simp

lemma join_split_at: "join_with [c] (split_at c s) = s"
proof (induction s)
  case (Cons x xs)
  show ?case
  proof (cases "split_at c xs")
    case (Cons p ps)
    with Cons.IH show ?thesis by (cases ps) auto
  qed simp
qed simp

lemma split_at_last_append:
  "c \<notin> set t \<Longrightarrow> last (split_at c (s @ c # t)) = t"
proof (induction s)
  case (Cons x s)
  show ?case
  proof (cases "split_at c (s @ c # t)")
    case (Cons p ps)
    have "ps \<noteq> []"
    proof
      assume "ps = []"
      with Cons have "length (split_at c (s @ c # t)) = 1" by simp
      then show False by (simp add: length_split_at)
    qed
    with Cons Cons.IH Cons.prems show ?thesis by auto
  qed simp
qed (simp add: split_at_no_sep)

text \<open>Finite checks over all 256 bytes reduce to a check by evaluation.\<close>

lemma byte_of_less [simp]: "byte_of c < 256"
  by (simp add: byte_of_def)

text \<open>Literals evaluate; variables do not match.\<close>

lemma byte_of_literal [simp]:
  "byte_of (Char b0 b1 b2 b3 b4 b5 b6 b7) = of_char (Char b0 b1 b2 b3 b4 b5 b6 b7)"
  by (simp add: byte_of_def)

lemma char_of_byte_of [simp]: "char_of (byte_of c) = c"
  by (simp add: byte_of_def)

lemma byte_of_char_of [simp]: "n < 256 \<Longrightarrow> byte_of (char_of n) = n"
  by (simp add: byte_of_def)

lemma all_bytes: "(\<And>n::nat. n < 256 \<Longrightarrow> P (char_of n)) \<Longrightarrow> P c"
  by (metis byte_of_less char_of_byte_of)

lemma byte_of_inject: "byte_of a = byte_of b \<longleftrightarrow> a = b"
  by (metis char_of_byte_of)

lemma byte_eq_iff: "c = d \<longleftrightarrow> byte_of c = byte_of d"
  by (simp add: byte_of_inject)

lemma length_join_Cons:
  "xs \<noteq> [] \<Longrightarrow> length (join_with [c] (x # xs)) = length x + 1 + length (join_with [c] xs)"
  by (cases xs) auto

lemma join_Cons: "xs \<noteq> [] \<Longrightarrow> join_with sep (x # xs) = x @ sep @ join_with sep xs"
  by (cases xs) auto

end
