(* ===== verification/Go_Json.thy ===== *)
theory Go_Json
  imports Prelude
begin

text \<open>
  What the connector uses of \<open>encoding/json\<close> and \<open>unicode/utf8\<close>: the text of a JSON
  value as Go's encoder writes it (HTML escaping on), the parser of Go's decoder, and the
  decoding of a parsed value into Go structs, slices of pointers, strings, booleans and
  \<open>map[string]interface{}\<close>. A decoder takes the current Go value and returns the new
  one with the error, if any, because a failed \<open>json.Unmarshal\<close> leaves what it has
  already stored. Not modelled: the nesting limit of 10000 and the reuse of the elements
  of a slice when an object repeats a key.
\<close>

section \<open>UTF-8\<close>

abbreviation rune_error :: nat where
  "rune_error \<equiv> 65533"

definition cont_byte :: "char \<Rightarrow> bool" where
  "cont_byte c \<longleftrightarrow> 128 \<le> byte_of c \<and> byte_of c < 192"

text \<open>\<open>utf8.DecodeRune\<close>: the code point and its width; \<open>(rune_error, 1)\<close> if invalid.\<close>

definition decode_rune :: "string \<Rightarrow> nat \<times> nat" where
  "decode_rune s =
     (case s of [] \<Rightarrow> (rune_error, 0)
      | c0 # r0 \<Rightarrow>
        let b0 = byte_of c0 in
        if b0 < 128 then (b0, 1)
        else if b0 < 194 \<or> 244 < b0 then (rune_error, 1)
        else (case r0 of [] \<Rightarrow> (rune_error, 1)
          | c1 # r1 \<Rightarrow>
            let b1 = byte_of c1 in
            if b0 < 224 then
              (if cont_byte c1 then ((b0 - 192) * 64 + (b1 - 128), 2) else (rune_error, 1))
            else if (if b0 = 224 then b1 < 160 else if b0 = 240 then b1 < 144 else b1 < 128)
                 \<or> (if b0 = 237 then 159 < b1 else if b0 = 244 then 143 < b1 else 191 < b1)
              then (rune_error, 1)
            else (case r1 of [] \<Rightarrow> (rune_error, 1)
              | c2 # r2 \<Rightarrow>
                if \<not> cont_byte c2 then (rune_error, 1)
                else if b0 < 240 then
                  ((b0 - 224) * 4096 + (b1 - 128) * 64 + (byte_of c2 - 128), 3)
                else (case r2 of [] \<Rightarrow> (rune_error, 1)
                  | c3 # r3 \<Rightarrow>
                    if \<not> cont_byte c3 then (rune_error, 1)
                    else ((b0 - 240) * 262144 + (b1 - 128) * 4096
                          + (byte_of c2 - 128) * 64 + (byte_of c3 - 128), 4)))))"

definition surrogate :: "nat \<Rightarrow> bool" where
  "surrogate r \<longleftrightarrow> 55296 \<le> r \<and> r < 57344"

text \<open>\<open>utf8.AppendRune\<close>.\<close>

definition encode_rune :: "nat \<Rightarrow> string" where
  "encode_rune r0 =
     (let r = (if surrogate r0 \<or> 1114111 < r0 then rune_error else r0) in
      if r < 128 then [char_of r]
      else if r < 2048 then [char_of (192 + r div 64), char_of (128 + r mod 64)]
      else if r < 65536 then
        [char_of (224 + r div 4096), char_of (128 + r div 64 mod 64), char_of (128 + r mod 64)]
      else [char_of (240 + r div 262144), char_of (128 + r div 4096 mod 64),
            char_of (128 + r div 64 mod 64), char_of (128 + r mod 64)])"

text \<open>\<open>utf8.ValidString\<close>.\<close>

fun valid_utf8 :: "string \<Rightarrow> bool" where
  "valid_utf8 [] \<longleftrightarrow> True"
| "valid_utf8 (c # cs) \<longleftrightarrow>
     (byte_of c < 128 \<and> valid_utf8 cs) \<or>
     (2 \<le> snd (decode_rune (c # cs)) \<and> valid_utf8 (drop (snd (decode_rune (c # cs)) - 1) cs))"

section \<open>Values and their text\<close>

datatype json =
    JNull
  | JBool bool
  | JNum string
  | JStr string
  | JArr "json list"
  | JObj "(string \<times> json) list"

definition hex_digit :: "nat \<Rightarrow> char" where
  "hex_digit n = (if n < 10 then char_of (48 + n) else char_of (87 + n))"

text \<open>The bytes \<open>htmlSafeSet\<close> holds are written as they are.\<close>

definition html_safe :: "nat \<Rightarrow> bool" where
  "html_safe n \<longleftrightarrow> 32 \<le> n \<and> n < 128 \<and> n \<noteq> 34 \<and> n \<noteq> 38 \<and> n \<noteq> 60 \<and> n \<noteq> 62 \<and> n \<noteq> 92"

definition escape_ascii :: "char \<Rightarrow> string" where
  "escape_ascii c =
     (let n = byte_of c in
      if html_safe n then [c]
      else if n = 34 \<or> n = 92 then [CHR 0x5C, c]
      else if n = 8 then [CHR 0x5C, CHR ''b'']
      else if n = 12 then [CHR 0x5C, CHR ''f'']
      else if n = 10 then [CHR 0x5C, CHR ''n'']
      else if n = 13 then [CHR 0x5C, CHR ''r'']
      else if n = 9 then [CHR 0x5C, CHR ''t'']
      else [CHR 0x5C, CHR ''u'', CHR ''0'', CHR ''0'', hex_digit (n div 16), hex_digit (n mod 16)])"

fun escape_string :: "string \<Rightarrow> string" where
  "escape_string [] = []"
| "escape_string (c # cs) =
     (if byte_of c < 128 then escape_ascii c @ escape_string cs
      else let (r, n) = decode_rune (c # cs) in
        if r = rune_error \<and> n = 1 then
          [CHR 0x5C, CHR ''u'', CHR ''f'', CHR ''f'', CHR ''f'', CHR ''d''] @ escape_string cs
        else if r = 8232 \<or> r = 8233 then
          [CHR 0x5C, CHR ''u'', CHR ''2'', CHR ''0'', CHR ''2'', hex_digit (r mod 16)]
            @ escape_string (drop (n - 1) cs)
        else c # take (n - 1) cs @ escape_string (drop (n - 1) cs))"

definition print_string :: "string \<Rightarrow> string" where
  "print_string s = CHR 0x22 # escape_string s @ [CHR 0x22]"

fun json_print :: "json \<Rightarrow> string" where
  "json_print JNull = ''null''"
| "json_print (JBool b) = (if b then ''true'' else ''false'')"
| "json_print (JNum n) = n"
| "json_print (JStr s) = print_string s"
| "json_print (JArr vs) = CHR ''['' # join_with '','' (map json_print vs) @ '']''"
| "json_print (JObj kvs) =
     CHR ''{'' # join_with '','' (map (\<lambda>(k, v). print_string k @ '':'' @ json_print v) kvs) @ ''}''"

section \<open>The parser\<close>

definition json_space :: "char \<Rightarrow> bool" where
  "json_space c \<longleftrightarrow> byte_of c \<in> {32, 9, 10, 13}"

definition skip_ws :: "string \<Rightarrow> string" where
  "skip_ws s = dropWhile json_space s"

definition hex_value :: "char \<Rightarrow> nat option" where
  "hex_value c =
     (let n = byte_of c in
      if 48 \<le> n \<and> n \<le> 57 then Some (n - 48)
      else if 97 \<le> n \<and> n \<le> 102 then Some (n - 87)
      else if 65 \<le> n \<and> n \<le> 70 then Some (n - 55)
      else None)"

text \<open>Four hexadecimal digits at the front of a string.\<close>

definition hex4 :: "string \<Rightarrow> nat option" where
  "hex4 s =
     (case s of a # b # c # d # r \<Rightarrow>
        (case (hex_value a, hex_value b, hex_value c, hex_value d) of
           (Some w, Some x, Some y, Some z) \<Rightarrow> Some (w * 4096 + x * 256 + y * 16 + z)
         | _ \<Rightarrow> None)
      | _ \<Rightarrow> None)"

text \<open>The rune of an escape that starts a surrogate pair, if the pair is complete and valid.\<close>

definition surrogate_pair :: "nat \<Rightarrow> string \<Rightarrow> nat option" where
  "surrogate_pair r1 s =
     (case s of b # u # r \<Rightarrow>
        if b = CHR 0x5C \<and> u = CHR ''u'' then
          (case hex4 r of
             Some r2 \<Rightarrow>
               if r1 < 56320 \<and> 56320 \<le> r2 \<and> r2 < 57344
               then Some ((r1 - 55296) * 1024 + (r2 - 56320) + 65536) else None
           | None \<Rightarrow> None)
        else None
      | _ \<Rightarrow> None)"

definition simple_escape :: "char \<Rightarrow> char option" where
  "simple_escape e =
     (if e = CHR 0x22 \<or> e = CHR 0x5C \<or> e = CHR ''/'' then Some e
      else if e = CHR ''b'' then Some (CHR 0x08)
      else if e = CHR ''f'' then Some (CHR 0x0C)
      else if e = CHR ''n'' then Some (CHR 0x0A)
      else if e = CHR ''r'' then Some (CHR 0x0D)
      else if e = CHR ''t'' then Some (CHR 0x09)
      else None)"

definition prepend :: "string \<Rightarrow> (string \<times> string) option \<Rightarrow> (string \<times> string) option" where
  "prepend p m = (case m of None \<Rightarrow> None | Some (s, r) \<Rightarrow> Some (p @ s, r))"

text \<open>The rest of a string literal after its opening quote: its value and what follows it.\<close>

fun parse_str :: "string \<Rightarrow> (string \<times> string) option" where
  "parse_str [] = None"
| "parse_str (c # cs) =
     (if c = CHR 0x22 then Some ([], cs)
      else if c = CHR 0x5C then
        (case cs of [] \<Rightarrow> None
         | e # r \<Rightarrow>
           if e = CHR ''u'' then
             (case hex4 r of None \<Rightarrow> None
              | Some rr \<Rightarrow>
                if surrogate rr then
                  (case surrogate_pair rr (drop 4 r) of
                     Some q \<Rightarrow> prepend (encode_rune q) (parse_str (drop 10 r))
                   | None \<Rightarrow> prepend (encode_rune rune_error) (parse_str (drop 4 r)))
                else prepend (encode_rune rr) (parse_str (drop 4 r)))
           else (case simple_escape e of None \<Rightarrow> None | Some x \<Rightarrow> prepend [x] (parse_str r)))
      else if byte_of c < 32 then None
      else if byte_of c < 128 then prepend [c] (parse_str cs)
      else prepend (encode_rune (fst (decode_rune (c # cs))))
             (parse_str (drop (snd (decode_rune (c # cs)) - 1) cs)))"

definition digits_prefix :: "string \<Rightarrow> string \<times> string" where
  "digits_prefix s = (takeWhile is_digit s, dropWhile is_digit s)"

text \<open>A number literal: sign, integer part, fraction, exponent; its text is its value.\<close>

definition parse_int_part :: "string \<Rightarrow> (string \<times> string) option" where
  "parse_int_part s =
     (case digits_prefix s of (ds, r) \<Rightarrow>
        if ds = [] then None
        else if hd ds = CHR ''0'' then Some ([hd ds], tl ds @ r)
        else Some (ds, r))"

definition parse_frac :: "string \<Rightarrow> (string \<times> string) option" where
  "parse_frac s =
     (case s of c # r \<Rightarrow>
        if c = CHR ''.'' then
          (case digits_prefix r of (ds, r') \<Rightarrow> if ds = [] then None else Some (c # ds, r'))
        else Some ([], s)
      | [] \<Rightarrow> Some ([], s))"

definition parse_exp :: "string \<Rightarrow> (string \<times> string) option" where
  "parse_exp s =
     (case s of c # r \<Rightarrow>
        if c = CHR ''e'' \<or> c = CHR ''E'' then
          (let sg = (case r of d # _ \<Rightarrow> if d = CHR ''+'' \<or> d = CHR ''-'' then [d] else [] | [] \<Rightarrow> []) in
           case digits_prefix (drop (length sg) r) of (ds, r') \<Rightarrow>
             if ds = [] then None else Some (c # sg @ ds, r'))
        else Some ([], s)
      | [] \<Rightarrow> Some ([], s))"

definition parse_number :: "string \<Rightarrow> (string \<times> string) option" where
  "parse_number s =
     (let sg = (case s of c # _ \<Rightarrow> if c = CHR ''-'' then [c] else [] | [] \<Rightarrow> []) in
      case parse_int_part (drop (length sg) s) of None \<Rightarrow> None
      | Some (i, r) \<Rightarrow>
        (case parse_frac r of None \<Rightarrow> None
         | Some (f, r') \<Rightarrow>
           (case parse_exp r' of None \<Rightarrow> None
            | Some (e, r'') \<Rightarrow> Some (sg @ i @ f @ e, r''))))"

definition parse_word :: "string \<Rightarrow> json \<Rightarrow> string \<Rightarrow> (json \<times> string) option" where
  "parse_word w v s = (if has_prefix s w then Some (v, drop (length w) s) else None)"

text \<open>
  The value parser. Its first argument bounds the depth of its calls; \<open>json_parse\<close>
  gives more than a text of that length can use.
\<close>

fun parse_value :: "nat \<Rightarrow> string \<Rightarrow> (json \<times> string) option"
  and parse_elems :: "nat \<Rightarrow> string \<Rightarrow> (json list \<times> string) option"
  and parse_members :: "nat \<Rightarrow> string \<Rightarrow> ((string \<times> json) list \<times> string) option" where
  "parse_value 0 s = None"
| "parse_value (Suc f) s =
     (case skip_ws s of [] \<Rightarrow> None
      | c # cs \<Rightarrow>
        if c = CHR ''{'' then
          (if skip_ws cs \<noteq> [] \<and> hd (skip_ws cs) = CHR ''}'' then Some (JObj [], tl (skip_ws cs))
           else (case parse_members f cs of None \<Rightarrow> None | Some (kvs, r) \<Rightarrow> Some (JObj kvs, r)))
        else if c = CHR ''['' then
          (if skip_ws cs \<noteq> [] \<and> hd (skip_ws cs) = CHR '']'' then Some (JArr [], tl (skip_ws cs))
           else (case parse_elems f cs of None \<Rightarrow> None | Some (vs, r) \<Rightarrow> Some (JArr vs, r)))
        else if c = CHR 0x22 then
          (case parse_str cs of None \<Rightarrow> None | Some (t, r) \<Rightarrow> Some (JStr t, r))
        else if c = CHR ''n'' then parse_word ''null'' JNull (c # cs)
        else if c = CHR ''t'' then parse_word ''true'' (JBool True) (c # cs)
        else if c = CHR ''f'' then parse_word ''false'' (JBool False) (c # cs)
        else (case parse_number (c # cs) of None \<Rightarrow> None | Some (n, r) \<Rightarrow> Some (JNum n, r)))"
| "parse_elems 0 s = None"
| "parse_elems (Suc f) s =
     (case parse_value f s of None \<Rightarrow> None
      | Some (v, r) \<Rightarrow>
        (case skip_ws r of [] \<Rightarrow> None
         | d # r' \<Rightarrow>
           if d = CHR '','' then
             (case parse_elems f r' of None \<Rightarrow> None | Some (vs, q) \<Rightarrow> Some (v # vs, q))
           else if d = CHR '']'' then Some ([v], r')
           else None))"
| "parse_members 0 s = None"
| "parse_members (Suc f) s =
     (case skip_ws s of [] \<Rightarrow> None
      | c # cs \<Rightarrow>
        if c \<noteq> CHR 0x22 then None
        else (case parse_str cs of None \<Rightarrow> None
          | Some (k, r) \<Rightarrow>
            (case skip_ws r of [] \<Rightarrow> None
             | col # r1 \<Rightarrow>
               if col \<noteq> CHR '':'' then None
               else (case parse_value f r1 of None \<Rightarrow> None
                 | Some (v, r2) \<Rightarrow>
                   (case skip_ws r2 of [] \<Rightarrow> None
                    | d # r3 \<Rightarrow>
                      if d = CHR '','' then
                        (case parse_members f r3 of None \<Rightarrow> None
                         | Some (kvs, q) \<Rightarrow> Some ((k, v) # kvs, q))
                      else if d = CHR ''}'' then Some ([(k, v)], r3)
                      else None)))))"

declare parse_value.simps [simp del] parse_elems.simps [simp del] parse_members.simps [simp del]

definition json_parse :: "string \<Rightarrow> json option" where
  "json_parse s =
     (case parse_value (2 * length s + 2) s of
        Some (v, r) \<Rightarrow> if skip_ws r = [] then Some v else None
      | None \<Rightarrow> None)"

section \<open>Decoding into Go values\<close>

text \<open>
  A decoder gets the current Go value and a JSON value and returns the new value and the
  first error, if any. A JSON null leaves strings, booleans and structs as they are.
\<close>

type_synonym 'a decoder = "'a \<Rightarrow> json \<Rightarrow> 'a \<times> error option"

definition type_error :: error where
  "type_error = ErrText ''json: cannot unmarshal value into Go value''"

fun dec_string :: "string decoder" where
  "dec_string cur (JStr s) = (s, None)"
| "dec_string cur JNull = (cur, None)"
| "dec_string cur _ = (cur, Some type_error)"

fun dec_bool :: "bool decoder" where
  "dec_bool cur (JBool b) = (b, None)"
| "dec_bool cur JNull = (cur, None)"
| "dec_bool cur _ = (cur, Some type_error)"

text \<open>A pointer: null makes it nil, anything else is decoded into the value pointed at.\<close>

definition dec_ptr :: "'a \<Rightarrow> 'a decoder \<Rightarrow> 'a option decoder" where
  "dec_ptr zero dec cur v =
     (case v of JNull \<Rightarrow> (None, None)
      | _ \<Rightarrow> (case dec (case cur of Some x \<Rightarrow> x | None \<Rightarrow> zero) v of (x, e) \<Rightarrow> (Some x, e)))"

fun first_error :: "error option list \<Rightarrow> error option" where
  "first_error [] = None"
| "first_error (None # es) = first_error es"
| "first_error (Some e # es) = Some e"

text \<open>A slice: every element is decoded from the zero value of the element type.\<close>

definition dec_slice :: "'a \<Rightarrow> 'a decoder \<Rightarrow> 'a list decoder" where
  "dec_slice zero dec cur v =
     (case v of
        JArr vs \<Rightarrow> (map (\<lambda>x. fst (dec zero x)) vs, first_error (map (\<lambda>x. snd (dec zero x)) vs))
      | JNull \<Rightarrow> ([], None)
      | _ \<Rightarrow> (cur, Some type_error))"

text \<open>
  A struct: the fields with their JSON names. A key of the object belongs to the field of
  that name, or of that name up to case; other keys are skipped; a later key overwrites.
\<close>

type_synonym 'a fields = "(string \<times> 'a decoder) list"

definition dec_field :: "('r \<Rightarrow> 'a) \<Rightarrow> ('a \<Rightarrow> 'r \<Rightarrow> 'r) \<Rightarrow> 'a decoder \<Rightarrow> 'r decoder" where
  "dec_field get put dec r v = (case dec (get r) v of (x, e) \<Rightarrow> (put x r, e))"

fun find_field :: "'a fields \<Rightarrow> string \<Rightarrow> 'a decoder option" where
  "find_field [] k = None"
| "find_field ((n, d) # fs) k = (if to_lower n = to_lower k then Some d else find_field fs k)"

fun dec_members :: "'a fields \<Rightarrow> 'a \<Rightarrow> (string \<times> json) list \<Rightarrow> 'a \<times> error option" where
  "dec_members fs r [] = (r, None)"
| "dec_members fs r ((k, v) # kvs) =
     (case find_field fs k of
        None \<Rightarrow> dec_members fs r kvs
      | Some d \<Rightarrow>
          (case d r v of (r', e) \<Rightarrow>
            (case dec_members fs r' kvs of (r'', e') \<Rightarrow>
               (r'', case e of Some x \<Rightarrow> Some x | None \<Rightarrow> e'))))"

fun dec_struct :: "'a fields \<Rightarrow> 'a decoder" where
  "dec_struct fs r (JObj kvs) = dec_members fs r kvs"
| "dec_struct fs r JNull = (r, None)"
| "dec_struct fs r _ = (r, Some type_error)"

text \<open>\<open>map[string]interface{}\<close>: the object's members are stored into the map that is there.\<close>

type_synonym json_map = "(string \<times> json) list"

fun dec_map :: "json_map decoder" where
  "dec_map m (JObj kvs) = (rev kvs @ m, None)"
| "dec_map m JNull = ([], None)"
| "dec_map m _ = (m, Some type_error)"

text \<open>\<open>json.Unmarshal\<close>: the text is checked as a whole before anything is stored.\<close>

definition syntax_error :: error where
  "syntax_error = ErrText ''invalid character in JSON text''"

definition json_unmarshal :: "'a decoder \<Rightarrow> 'a \<Rightarrow> string \<Rightarrow> 'a \<times> error option" where
  "json_unmarshal dec cur text =
     (case json_parse text of None \<Rightarrow> (cur, Some syntax_error) | Some v \<Rightarrow> dec cur v)"

section \<open>Runes: encoding and decoding agree\<close>

lemma decode_rune_pos: "s \<noteq> [] \<Longrightarrow> 1 \<le> snd (decode_rune s)"
  by (auto simp: decode_rune_def Let_def split: list.splits)

lemma div_mod_digit:
  "z < k \<Longrightarrow> (a * k + z) div k = (a::nat)" "z < k \<Longrightarrow> (a * k + z) mod k = z"
  by simp_all

lemma encode_rune_2:
  assumes "2 \<le> x" "x < 32" "y < 64"
  shows "encode_rune (x * 64 + y) = [char_of (192 + x), char_of (128 + y)]"
proof -
  have "128 \<le> x * 64 + y" "x * 64 + y < 2048" using assms by linarith+
  moreover have "(x * 64 + y) div 64 = x" "(x * 64 + y) mod 64 = y" using assms by simp_all
  ultimately show ?thesis by (simp add: encode_rune_def surrogate_def)
qed

lemma encode_rune_3:
  assumes "x < 16" "y < 64" "z < 64" "x = 0 \<longrightarrow> 32 \<le> y" "x = 13 \<longrightarrow> y < 32"
  shows "encode_rune (x * 4096 + y * 64 + z) = [char_of (224 + x), char_of (128 + y), char_of (128 + z)]"
proof -
  let ?r = "x * 4096 + y * 64 + z"
  have r: "?r = (x * 64 + y) * 64 + z" by simp
  have lo: "2048 \<le> ?r" and hi: "?r < 65536" using assms by (cases "x = 0"; simp)+
  have "x < 13 \<or> x = 13 \<or> 14 \<le> x" by arith
  then have ns: "\<not> surrogate ?r" using assms by (auto simp: surrogate_def)
  have d: "?r div 64 = x * 64 + y" "?r mod 64 = z" unfolding r using assms by (simp_all only: div_mod_digit)
  then have "?r div 4096 = x" "?r div 64 mod 64 = y"
    using assms by (simp_all add: div_mult2_eq [of ?r 64 64, simplified])
  with lo hi ns d show ?thesis by (simp add: encode_rune_def)
qed

lemma encode_rune_4:
  assumes "x < 5" "y < 64" "z < 64" "w < 64" "x = 0 \<longrightarrow> 16 \<le> y" "x = 4 \<longrightarrow> y < 16"
  shows "encode_rune (x * 262144 + y * 4096 + z * 64 + w) =
    [char_of (240 + x), char_of (128 + y), char_of (128 + z), char_of (128 + w)]"
proof -
  let ?r = "x * 262144 + y * 4096 + z * 64 + w"
  have r: "?r = ((x * 64 + y) * 64 + z) * 64 + w" by simp
  have lo: "65536 \<le> ?r" using assms by (cases "x = 0"; simp)
  have hi: "?r \<le> 1114111" using assms by (cases "x = 4"; simp)
  have ns: "\<not> surrogate ?r" using lo by (simp add: surrogate_def)
  have d: "?r div 64 = (x * 64 + y) * 64 + z" "?r mod 64 = w" unfolding r using assms by (simp_all only: div_mod_digit)
  then have d2: "?r div 4096 = x * 64 + y" "?r div 64 mod 64 = z"
    unfolding div_mult2_eq [of ?r 64 64, simplified] d using assms by (simp_all only: div_mod_digit)
  then have "?r div 262144 = x" "?r div 4096 mod 64 = y"
    using assms by (simp_all add: div_mult2_eq [of ?r 4096 64, simplified])
  with lo hi ns d d2 show ?thesis by (simp add: encode_rune_def)
qed

lemma byte_of_offset: "k \<le> byte_of c \<Longrightarrow> \<exists>x. byte_of c = k + x \<and> c = char_of (k + x)"
  by (metis char_of_byte_of le_Suc_ex)

lemma encode_decode_rune:
  assumes "decode_rune s = (r, n)" and "2 \<le> n"
  shows "encode_rune r = take n s"
proof -
  obtain c0 r0 where s: "s = c0 # r0" using assms by (cases s) (auto simp: decode_rune_def)
  obtain c1 r1 where r0: "r0 = c1 # r1"
    using assms s by (cases r0) (auto simp: decode_rune_def Let_def split: if_splits)
  have b0: "194 \<le> byte_of c0" "byte_of c0 \<le> 244"
    using assms s by (auto simp: decode_rune_def Let_def split: if_splits)
  have b1: "128 \<le> byte_of c1"
    using assms s r0 by (auto simp: decode_rune_def Let_def cont_byte_def split: if_splits)
  then obtain y where y: "byte_of c1 = 128 + y" "c1 = char_of (128 + y)" using byte_of_offset by blast
  show ?thesis
  proof (cases "byte_of c0 < 224")
    case True
    obtain x where x: "byte_of c0 = 192 + x" "c0 = char_of (192 + x)"
      using b0 byte_of_offset [of 192 c0] by auto
    have "r = x * 64 + y \<and> n = 2 \<and> y < 64"
      using assms s r0 b0 x(1) y(1) True
      by (auto simp: decode_rune_def Let_def cont_byte_def split: if_splits)
    then show ?thesis
      using True b0 s r0 x y encode_rune_2 [of x y] by simp
  next
    case ge: False
    then obtain x where x: "byte_of c0 = 224 + x" "c0 = char_of (224 + x)"
      using byte_of_offset [of 224 c0] by auto
    obtain c2 r2 where r1: "r1 = c2 # r2"
      using assms s r0 b0 ge by (cases r1) (auto simp: decode_rune_def Let_def split: if_splits)
    have "128 \<le> byte_of c2"
      using assms s r0 r1 b0 ge by (auto simp: decode_rune_def Let_def cont_byte_def split: if_splits)
    then obtain z where z: "byte_of c2 = 128 + z" "c2 = char_of (128 + z)" using byte_of_offset by blast
    show ?thesis
    proof (cases "byte_of c0 < 240")
      case True
      have "r = x * 4096 + y * 64 + z \<and> n = 3 \<and> y < 64 \<and> z < 64 \<and>
          (x = 0 \<longrightarrow> 32 \<le> y) \<and> (x = 13 \<longrightarrow> y < 32)"
        using assms s r0 r1 x(1) y(1) z(1) True
        by (auto simp: decode_rune_def Let_def cont_byte_def split: if_splits)
      then show ?thesis
        using True s r0 r1 x y z encode_rune_3 [of x y z] by simp
    next
      case False
      then obtain v where v: "byte_of c0 = 240 + v" "c0 = char_of (240 + v)"
        using byte_of_offset [of 240 c0] by auto
      obtain c3 r3 where r2: "r2 = c3 # r3"
        using assms s r0 r1 b0 ge False
        by (cases r2) (auto simp: decode_rune_def Let_def split: if_splits)
      have "128 \<le> byte_of c3"
        using assms s r0 r1 r2 b0 ge False
        by (auto simp: decode_rune_def Let_def cont_byte_def split: if_splits)
      then obtain w where w: "byte_of c3 = 128 + w" "c3 = char_of (128 + w)"
        using byte_of_offset by blast
      have "r = v * 262144 + y * 4096 + z * 64 + w \<and> n = 4 \<and> y < 64 \<and> z < 64 \<and> w < 64 \<and>
          v < 5 \<and> (v = 0 \<longrightarrow> 16 \<le> y) \<and> (v = 4 \<longrightarrow> y < 16)"
        using assms s r0 r1 r2 b0 v(1) y(1) z(1) w(1)
        by (auto simp: decode_rune_def Let_def cont_byte_def split: if_splits)
      then show ?thesis
        using s r0 r1 r2 v y z w encode_rune_4 [of v y z w] by simp
    qed
  qed
qed

lemma decode_rune_take:
  assumes "decode_rune s = (r, n)" and "2 \<le> n"
  shows "n \<le> length s \<and> decode_rune (take n s @ t) = (r, n)"
  using assms
  by (auto simp: decode_rune_def Let_def split: list.split_asm if_split_asm)

section \<open>Printing and parsing agree\<close>

lemma hex_value_digit: "k < 16 \<Longrightarrow> hex_value (hex_digit k) = Some k"
  by (auto simp: hex_value_def hex_digit_def)

lemma hex_value_consts:
  "hex_value (CHR ''0'') = Some 0" "hex_value (CHR ''2'') = Some 2"
  by (simp_all add: hex_value_def byte_of_def)

lemma parse_str_plain:
  "32 \<le> byte_of c \<Longrightarrow> byte_of c < 128 \<Longrightarrow> byte_of c \<noteq> 34 \<Longrightarrow> byte_of c \<noteq> 92 \<Longrightarrow>
    parse_str (c # t) = prepend [c] (parse_str t)"
  by (simp add: byte_eq_iff)

lemma parse_str_simple:
  "simple_escape e = Some x \<Longrightarrow> parse_str (CHR 0x5C # e # t) = prepend [x] (parse_str t)"
  by (auto simp: simple_escape_def)

lemma parse_str_unicode:
  "hex4 t = Some r \<Longrightarrow> \<not> surrogate r \<Longrightarrow>
    parse_str (CHR 0x5C # CHR ''u'' # t) = prepend (encode_rune r) (parse_str (drop 4 t))"
  by simp

lemma parse_str_ascii:
  assumes "byte_of c < 128"
  shows "parse_str (escape_ascii c @ t) = prepend [c] (parse_str t)"
proof -
  let ?n = "byte_of c"
  consider "html_safe ?n" | "?n \<in> {34, 92, 8, 9, 10, 12, 13}"
    | "\<not> html_safe ?n" "?n \<notin> {34, 92, 8, 9, 10, 12, 13}" by blast
  then show ?thesis
  proof cases
    case 1
    then show ?thesis
      using assms parse_str_plain [of c t] by (simp add: escape_ascii_def Let_def html_safe_def)
  next
    case 2
    then have "c \<in> {CHR 0x22, CHR 0x5C, CHR 0x08, CHR 0x09, CHR 0x0A, CHR 0x0C, CHR 0x0D}"
      by (simp add: byte_eq_iff)
    then obtain e where "escape_ascii c = [CHR 0x5C, e]" "simple_escape e = Some c"
      by (auto simp: escape_ascii_def Let_def html_safe_def simple_escape_def)
    then show ?thesis by (simp add: parse_str_simple del: parse_str.simps)
  next
    case 3
    let ?s = "CHR ''0'' # CHR ''0'' # hex_digit (?n div 16) # hex_digit (?n mod 16) # t"
    have "hex4 ?s = Some ?n"
      using assms by (simp add: hex4_def hex_value_digit hex_value_consts)
    moreover have "encode_rune ?n = [c]" "\<not> surrogate ?n"
      using assms by (simp_all add: encode_rune_def surrogate_def)
    ultimately have "parse_str (CHR 0x5C # CHR ''u'' # ?s) = prepend [c] (parse_str t)"
      by (simp add: parse_str_unicode del: parse_str.simps)
    with 3 show ?thesis by (simp add: escape_ascii_def Let_def del: parse_str.simps)
  qed
qed

lemma parse_escape_string:
  "valid_utf8 s \<Longrightarrow> parse_str (escape_string s @ CHR 0x22 # rest) = Some (s, rest)"
proof (induction s rule: escape_string.induct)
  case 1
  then show ?case by simp
next
  case (2 c cs)
  show ?case
  proof (cases "byte_of c < 128")
    case True
    then have "valid_utf8 cs" using "2.prems" by (auto simp: decode_rune_def Let_def)
    with True 2 show ?thesis by (simp add: parse_str_ascii prepend_def)
  next
    case False
    obtain r n where rn: "decode_rune (c # cs) = (r, n)" by (cases "decode_rune (c # cs)")
    with False "2.prems" have n: "2 \<le> n" and v: "valid_utf8 (drop (n - 1) cs)" by auto
    have enc: "encode_rune r = c # take (n - 1) cs" and len: "n \<le> Suc (length cs)"
      using encode_decode_rune [OF rn n] decode_rune_take [OF rn n] n by (cases n; simp)+
    let ?t = "escape_string (drop (n - 1) cs) @ CHR 0x22 # rest"
    have ne: "\<not> (r = rune_error \<and> n = 1)" using n by simp
    show ?thesis
    proof (cases "r = 8232 \<or> r = 8233")
      case sep: True
      have IH: "parse_str ?t = Some (drop (n - 1) cs, rest)"
        using "2.IH"(3) [OF False rn [symmetric] refl ne sep v] .
      have "hex4 (CHR ''2'' # CHR ''0'' # CHR ''2'' # hex_digit (r mod 16) # ?t) = Some r"
        using sep by (auto simp: hex4_def hex_value_digit hex_value_consts)
      moreover have "\<not> surrogate r" using sep by (auto simp: surrogate_def)
      moreover have "escape_string (c # cs) =
          [CHR 0x5C, CHR ''u'', CHR ''2'', CHR ''0'', CHR ''2'', hex_digit (r mod 16)]
            @ escape_string (drop (n - 1) cs)"
        using False rn sep n by simp
      ultimately show ?thesis using IH enc by (simp add: prepend_def)
    next
      case nsep: False
      have IH: "parse_str ?t = Some (drop (n - 1) cs, rest)"
        using "2.IH"(4) [OF False rn [symmetric] refl ne nsep v] .
      have "decode_rune (c # take (n - 1) cs @ ?t) = (r, n)"
        using decode_rune_take [OF rn n, of ?t] n by (cases n) simp_all
      moreover have "escape_string (c # cs) = c # take (n - 1) cs @ escape_string (drop (n - 1) cs)"
        using False rn nsep n by simp
      moreover have "c \<noteq> CHR 0x22" "c \<noteq> CHR 0x5C" using False by auto
      ultimately show ?thesis using False IH enc len n by (simp add: prepend_def)
    qed
  qed
qed


lemma parse_print_string: "valid_utf8 s \<Longrightarrow> parse_str (tl (print_string s @ rest)) = Some (s, rest)"
  by (simp add: print_string_def parse_escape_string del: parse_str.simps)

fun json_ok :: "json \<Rightarrow> bool" where
  "json_ok JNull \<longleftrightarrow> True"
| "json_ok (JBool b) \<longleftrightarrow> True"
| "json_ok (JNum n) \<longleftrightarrow> False"
| "json_ok (JStr s) \<longleftrightarrow> valid_utf8 s"
| "json_ok (JArr vs) \<longleftrightarrow> list_all json_ok vs"
| "json_ok (JObj kvs) \<longleftrightarrow> list_all (\<lambda>(k, v). valid_utf8 k \<and> json_ok v) kvs"

definition parses_back :: "json \<Rightarrow> bool" where
  "parses_back v \<longleftrightarrow>
     (\<forall>f rest. 2 * length (json_print v) \<le> f \<longrightarrow> parse_value f (json_print v @ rest) = Some (v, rest))"

lemma skip_ws_other [simp]:
  "byte_of c \<notin> {32, 9, 10, 13} \<Longrightarrow> skip_ws (c # s) = c # s"
  by (simp add: skip_ws_def json_space_def)

lemma json_print_first:
  "json_ok v \<Longrightarrow> \<exists>c cs. json_print v = c # cs \<and> byte_of c \<notin> {32, 9, 10, 13} \<and> c \<noteq> CHR '']''"
  by (cases v) (auto simp: print_string_def)

definition print_member :: "string \<times> json \<Rightarrow> string" where
  "print_member kv = (case kv of (k, v) \<Rightarrow> print_string k @ '':'' @ json_print v)"

lemma print_member_pair:
  "print_member (k, v) = CHR 0x22 # escape_string k @ CHR 0x22 # CHR '':'' # json_print v"
  by (simp add: print_member_def print_string_def)

lemma parse_elems_print:
  assumes "vs \<noteq> []" and "\<forall>v\<in>set vs. parses_back v"
    and "2 * length (join_with '','' (map json_print vs)) < f"
  shows "parse_elems f (join_with '','' (map json_print vs) @ CHR '']'' # rest) = Some (vs, rest)"
  using assms
proof (induction vs arbitrary: f)
  case (Cons v vs)
  from Cons.prems(3) obtain g where f: "f = Suc g" by (cases f) auto
  have v: "parse_value g (json_print v @ t) = Some (v, t)"
    if "2 * length (json_print v) \<le> g" for t
    using Cons.prems(2) that by (simp add: parses_back_def)
  show ?case
  proof (cases "vs = []")
    case True
    with Cons.prems f v show ?thesis by (simp add: parse_elems.simps)
  next
    case False
    then have "map json_print vs \<noteq> []" by simp
    note len = length_join_Cons [OF this, of "CHR '',''" "json_print v"] and j = join_Cons [OF this, of "'',''"]
    have "parse_elems g (join_with '','' (map json_print vs) @ CHR '']'' # rest) = Some (vs, rest)"
      using Cons.IH [of g] Cons.prems False len f by simp
    with v False len f Cons.prems j show ?thesis by (simp add: parse_elems.simps)
  qed
qed simp

lemma parse_members_print:
  assumes "kvs \<noteq> []" and "\<forall>(k, v)\<in>set kvs. valid_utf8 k \<and> parses_back v"
    and "2 * length (join_with '','' (map print_member kvs)) < f"
  shows "parse_members f (join_with '','' (map print_member kvs) @ CHR ''}'' # rest) = Some (kvs, rest)"
  using assms
proof (induction kvs arbitrary: f)
  case (Cons kv kvs)
  obtain k v where kv: "kv = (k, v)" by (cases kv)
  from Cons.prems(3) obtain g where f: "f = Suc g" by (cases f) auto
  have v: "parse_value g (json_print v @ t) = Some (v, t)"
    if "2 * length (json_print v) \<le> g" for t
    using Cons.prems(2) that kv by (simp add: parses_back_def)
  have k: "parse_str (escape_string k @ CHR 0x22 # t) = Some (k, t)" for t
    using Cons.prems(2) kv parse_escape_string by simp
  show ?case
  proof (cases "kvs = []")
    case True
    with Cons.prems f v k kv show ?thesis
      by (simp add: parse_members.simps print_member_pair)
  next
    case False
    then have "map print_member kvs \<noteq> []" by simp
    note len = length_join_Cons [OF this, of "CHR '',''" "print_member kv"] and j = join_Cons [OF this, of "'',''"]
    have "parse_members g (join_with '','' (map print_member kvs) @ CHR ''}'' # rest) = Some (kvs, rest)"
      using Cons.IH [of g] Cons.prems False len f by simp
    with v k False len f kv Cons.prems j show ?thesis
      by (simp add: parse_members.simps print_member_pair)
  qed
qed simp

lemma json_print_obj:
  "json_print (JObj kvs) = CHR ''{'' # join_with '','' (map print_member kvs) @ ''}''"
  by (simp add: print_member_def [abs_def])

lemma parse_value_words:
  assumes "0 < f"
  shows "parse_value f (''null'' @ rest) = Some (JNull, rest)"
    and "parse_value f (''true'' @ rest) = Some (JBool True, rest)"
    and "parse_value f (''false'' @ rest) = Some (JBool False, rest)"
  using assms by (cases f; simp add: parse_value.simps parse_word_def has_prefix_def)+

lemma json_parses_back: "json_ok v \<Longrightarrow> parses_back v"
proof (induction v)
  case (JArr vs)
  have elems: "\<forall>v\<in>set vs. parses_back v" using JArr by (simp add: list_all_iff)
  show ?case unfolding parses_back_def
  proof (intro allI impI)
    fix f rest assume f: "2 * length (json_print (JArr vs)) \<le> f"
    then obtain g where g: "f = Suc g" by (cases f) auto
    show "parse_value f (json_print (JArr vs) @ rest) = Some (JArr vs, rest)"
    proof (cases vs)
      case Nil
      with g show ?thesis by (simp add: parse_value.simps)
    next
      case (Cons v ws)
      obtain c cs where c: "json_print v = c # cs" "byte_of c \<notin> {32, 9, 10, 13}" "c \<noteq> CHR '']''"
        using json_print_first JArr.prems Cons by (metis json_ok.simps(5) list.pred_inject(2))
      then have hd: "\<exists>r. join_with '','' (map json_print vs) = c # r"
        using Cons by (cases ws) auto
      have "parse_elems g (join_with '','' (map json_print vs) @ CHR '']'' # rest) = Some (vs, rest)"
        using parse_elems_print [of vs g rest] elems Cons f g by simp
      with g hd c show ?thesis by (auto simp: parse_value.simps simp del: json_print.simps(1-4))
    qed
  qed
next
  case (JObj kvs)
  have mem: "\<forall>(k, v)\<in>set kvs. valid_utf8 k \<and> parses_back v"
    using JObj by (fastforce simp: list_all_iff)
  show ?case unfolding parses_back_def json_print_obj
  proof (intro allI impI)
    fix f rest
    assume f: "2 * length (CHR ''{'' # join_with '','' (map print_member kvs) @ ''}'') \<le> f"
    then obtain g where g: "f = Suc g" by (cases f) auto
    show "parse_value f ((CHR ''{'' # join_with '','' (map print_member kvs) @ ''}'') @ rest) = Some (JObj kvs, rest)"
    proof (cases kvs)
      case Nil
      with g show ?thesis by (simp add: parse_value.simps)
    next
      case (Cons kv ws)
      have hd: "\<exists>r. join_with '','' (map print_member kvs) = CHR 0x22 # r"
        using Cons by (cases ws) (auto simp: print_member_def print_string_def split: prod.splits)
      have "parse_members g (join_with '','' (map print_member kvs) @ CHR ''}'' # rest) = Some (kvs, rest)"
        using parse_members_print [of kvs g rest] mem Cons f g by simp
      with g hd show ?thesis by (auto simp: parse_value.simps)
    qed
  qed
next
  case (JStr s)
  then show ?case
    using parse_escape_string [of s] by (auto simp: parses_back_def print_string_def parse_value.simps dest!: Suc_le_D)
qed (use parse_value_words in \<open>auto simp: parses_back_def\<close>)

lemma json_parse_print: "json_ok v \<Longrightarrow> json_parse (json_print v) = Some v"
  using json_parses_back [of v]
  by (auto simp: parses_back_def json_parse_def skip_ws_def dest!: spec [of _ "2 * length (json_print v) + 2"] spec [of _ "[]"])

section \<open>Parsed strings are valid UTF-8\<close>

lemma valid_utf8_ascii: "list_all (\<lambda>c. byte_of c < 128) s \<Longrightarrow> valid_utf8 s"
  by (induction s) auto

lemma ascii_below: "byte_of c < 128 \<Longrightarrow> valid_utf8 (c # s) = valid_utf8 s"
  by (simp add: decode_rune_def Let_def)

lemma valid_step: "128 \<le> byte_of c \<Longrightarrow> 2 \<le> snd (decode_rune (c # cs)) \<Longrightarrow>
    valid_utf8 (c # cs) = valid_utf8 (drop (snd (decode_rune (c # cs)) - 1) cs)"
  by simp

lemma valid_2:
  fixes x y :: nat
  assumes "2 \<le> x" "x < 32" "y < 64"
  shows "valid_utf8 (char_of (192 + x) # char_of (128 + y) # t) = valid_utf8 t"
proof -
  have "snd (decode_rune (char_of (192 + x) # char_of (128 + y) # t)) = 2"
    using assms by (simp add: decode_rune_def Let_def cont_byte_def)
  then show ?thesis
    using assms valid_step [of "char_of (192 + x)" "char_of (128 + y) # t"]
    by (simp del: valid_utf8.simps)
qed

lemma valid_3:
  fixes x y z :: nat
  assumes "x < 16" "y < 64" "z < 64" "x = 0 \<longrightarrow> 32 \<le> y" "x = 13 \<longrightarrow> y < 32"
  shows "valid_utf8 (char_of (224 + x) # char_of (128 + y) # char_of (128 + z) # t) = valid_utf8 t"
proof -
  have "snd (decode_rune (char_of (224 + x) # char_of (128 + y) # char_of (128 + z) # t)) = 3"
    using assms by (cases "x = 0"; cases "x = 13") (simp_all add: decode_rune_def Let_def cont_byte_def)
  then show ?thesis
    using assms valid_step [of "char_of (224 + x)" "char_of (128 + y) # char_of (128 + z) # t"]
    by (simp del: valid_utf8.simps)
qed

lemma valid_4:
  fixes x y z w :: nat
  assumes "x < 5" "y < 64" "z < 64" "w < 64" "x = 0 \<longrightarrow> 16 \<le> y" "x = 4 \<longrightarrow> y < 16"
  shows "valid_utf8 (char_of (240 + x) # char_of (128 + y) # char_of (128 + z) # char_of (128 + w) # t) = valid_utf8 t"
proof -
  have "snd (decode_rune (char_of (240 + x) # char_of (128 + y) # char_of (128 + z) # char_of (128 + w) # t)) = 4"
    using assms by (cases "x = 0"; cases "x = 4") (simp_all add: decode_rune_def Let_def cont_byte_def)
  then show ?thesis
    using assms valid_step [of "char_of (240 + x)" "char_of (128 + y) # char_of (128 + z) # char_of (128 + w) # t"]
    by (simp del: valid_utf8.simps)
qed

lemma valid_encode_rune: "valid_utf8 (encode_rune r0 @ t) = valid_utf8 t"
proof -
  define r where "r = (if surrogate r0 \<or> 1114111 < r0 then rune_error else r0)"
  have r: "\<not> surrogate r" "r \<le> 1114111" by (auto simp: r_def surrogate_def)
  have e: "encode_rune r0 = (if r < 128 then [char_of r]
      else if r < 2048 then [char_of (192 + r div 64), char_of (128 + r mod 64)]
      else if r < 65536 then
        [char_of (224 + r div 4096), char_of (128 + r div 64 mod 64), char_of (128 + r mod 64)]
      else [char_of (240 + r div 262144), char_of (128 + r div 4096 mod 64),
            char_of (128 + r div 64 mod 64), char_of (128 + r mod 64)])"
    by (simp add: encode_rune_def r_def Let_def)
  consider "r < 128" | "128 \<le> r" "r < 2048" | "2048 \<le> r" "r < 65536" | "65536 \<le> r" by linarith
  then show ?thesis
  proof cases
    case 1
    then show ?thesis by (simp add: e ascii_below del: valid_utf8.simps)
  next
    case 2
    then have "2 \<le> r div 64" "r div 64 < 32" "r mod 64 < 64" by linarith+
    from valid_2 [OF this] 2 show ?thesis by (simp add: e del: valid_utf8.simps)
  next
    case 3
    then have "r div 4096 < 16" "r div 64 mod 64 < 64" "r mod 64 < 64" by simp_all
    moreover have "r div 4096 = 0 \<longrightarrow> 32 \<le> r div 64 mod 64"
      and "r div 4096 = 13 \<longrightarrow> r div 64 mod 64 < 32"
    proof -
      define a where "a = r div 64"
      have d: "r div 4096 = a div 64" by (simp add: a_def div_mult2_eq [symmetric])
      have b: "r = 64 * a + r mod 64" "r mod 64 < 64" by (simp_all add: a_def)
      have "32 \<le> a" using 3 b by linarith
      moreover have "a < 864 \<or> 896 \<le> a" using r(1) b unfolding surrogate_def by linarith
      moreover have "a = 64 * (a div 64) + a mod 64" "a mod 64 < 64" by simp_all
      ultimately have a: "a div 64 = 0 \<longrightarrow> 32 \<le> a mod 64" "a div 64 = 13 \<longrightarrow> a mod 64 < 32" by linarith+
      show "r div 4096 = 0 \<longrightarrow> 32 \<le> r div 64 mod 64"
        "r div 4096 = 13 \<longrightarrow> r div 64 mod 64 < 32"
        unfolding d a_def [symmetric] using a by blast+
    qed
    ultimately show ?thesis using valid_3 3 by (simp add: e del: valid_utf8.simps)
  next
    case 4
    then have "r div 262144 < 5" "r div 4096 mod 64 < 64" "r div 64 mod 64 < 64" "r mod 64 < 64"
      using r(2) by simp_all
    moreover have "r div 262144 = 0 \<longrightarrow> 16 \<le> r div 4096 mod 64"
      and "r div 262144 = 4 \<longrightarrow> r div 4096 mod 64 < 16"
    proof -
      define a where "a = r div 4096"
      have d: "r div 262144 = a div 64" by (simp add: a_def div_mult2_eq [symmetric])
      have "r = 4096 * a + r mod 4096" "r mod 4096 < 4096" by (simp_all add: a_def)
      then have "16 \<le> a" "a \<le> 271" using 4 r(2) by linarith+
      moreover have "a = 64 * (a div 64) + a mod 64" "a mod 64 < 64" by simp_all
      ultimately have a: "a div 64 = 0 \<longrightarrow> 16 \<le> a mod 64" "a div 64 = 4 \<longrightarrow> a mod 64 < 16" by linarith+
      show "r div 262144 = 0 \<longrightarrow> 16 \<le> r div 4096 mod 64"
        "r div 262144 = 4 \<longrightarrow> r div 4096 mod 64 < 16"
        unfolding d a_def [symmetric] using a by blast+
    qed
    ultimately show ?thesis using valid_4 4 by (simp add: e del: valid_utf8.simps)
  qed
qed

lemma prepend_Some: "prepend p m = Some (s, r) \<longleftrightarrow> (\<exists>s'. m = Some (s', r) \<and> s = p @ s')"
  by (auto simp: prepend_def split: option.splits)

lemma simple_escape_ascii: "simple_escape e = Some x \<Longrightarrow> byte_of x < 128"
  by (auto simp: simple_escape_def split: if_splits)

lemma parse_str_escape:
  assumes "parse_str (CHR 0x5C # e # q) = Some (s, r)"
  shows "\<exists>n s' p. parse_str (drop n q) = Some (s', r) \<and> s = p @ s' \<and>
    ((\<exists>k. p = encode_rune k) \<or> (\<exists>x. byte_of x < 128 \<and> p = [x]))"
proof (cases "e = CHR ''u''")
  case True
  show ?thesis
  proof (cases "hex4 q")
    case (Some k)
    show ?thesis
    proof (cases "surrogate k")
      case sg: True
      show ?thesis
      proof (cases "surrogate_pair k (drop 4 q)")
        case None
        with assms True Some sg show ?thesis by (auto simp: prepend_Some)
      next
        case (Some z)
        with assms True \<open>hex4 q = Some k\<close> sg show ?thesis by (auto simp: prepend_Some)
      qed
    next
      case False
      with assms True Some show ?thesis by (auto simp: prepend_Some)
    qed
  qed (use assms True in simp)
next
  case False
  show ?thesis
  proof (cases "simple_escape e")
    case (Some x)
    with assms False obtain s' where "parse_str (drop 0 q) = Some (s', r)" "s = [x] @ s'"
      by (auto simp: prepend_Some)
    with simple_escape_ascii [OF Some] show ?thesis by blast
  qed (use assms False in simp)
qed

lemma parse_str_step:
  assumes "parse_str (c # cs) = Some (s, r)"
  shows "s = [] \<or> (\<exists>n s' p. parse_str (drop n cs) = Some (s', r) \<and> s = p @ s' \<and>
    ((\<exists>k. p = encode_rune k) \<or> (\<exists>x. byte_of x < 128 \<and> p = [x])))"
proof -
  consider "c = CHR 0x22" | "c = CHR 0x5C" | "c \<noteq> CHR 0x22 \<and> c \<noteq> CHR 0x5C" by blast
  then show ?thesis
  proof cases
    case 1
    with assms show ?thesis by simp
  next
    case 2
    then obtain e q where cs: "cs = e # q" using assms by (cases cs) auto
    obtain n s' p where "parse_str (drop n q) = Some (s', r)" "s = p @ s'"
      "(\<exists>k. p = encode_rune k) \<or> (\<exists>x. byte_of x < 128 \<and> p = [x])"
      using parse_str_escape assms 2 cs by metis
    moreover then have "parse_str (drop (Suc n) cs) = Some (s', r)" using cs by simp
    ultimately show ?thesis by blast
  next
    case 3
    show ?thesis
    proof (cases "byte_of c < 128")
      case True
      with assms 3 obtain s' where "parse_str (drop 0 cs) = Some (s', r)" "s = [c] @ s'"
        by (auto simp: prepend_Some split: if_splits)
      with True show ?thesis by blast
    next
      case False
      with assms 3 obtain s' where "parse_str (drop (snd (decode_rune (c # cs)) - 1) cs) = Some (s', r)"
        "s = encode_rune (fst (decode_rune (c # cs))) @ s'"
        by (auto simp: prepend_Some split: if_splits)
      then show ?thesis by blast
    qed
  qed
qed

lemma parse_str_valid: "parse_str t = Some (s, r) \<Longrightarrow> valid_utf8 s"
proof (induction "length t" arbitrary: t s rule: less_induct)
  case less
  obtain c cs where t: "t = c # cs" using less.prems by (cases t) auto
  show ?case
  proof (cases "s = []")
    case False
    with parse_str_step less.prems t obtain n s' p where
      p: "parse_str (drop n cs) = Some (s', r)" "s = p @ s'"
      "(\<exists>k. p = encode_rune k) \<or> (\<exists>x. byte_of x < 128 \<and> p = [x])" by metis
    have "valid_utf8 s'" using less.hyps [OF _ p(1)] t by simp
    with p(2,3) show ?thesis by (auto simp: valid_encode_rune ascii_below simp del: valid_utf8.simps)
  qed simp
qed

fun json_valid :: "json \<Rightarrow> bool" where
  "json_valid (JStr s) \<longleftrightarrow> valid_utf8 s"
| "json_valid (JArr vs) \<longleftrightarrow> (\<forall>v\<in>set vs. json_valid v)"
| "json_valid (JObj kvs) \<longleftrightarrow> (\<forall>kv\<in>set kvs. valid_utf8 (fst kv) \<and> json_valid (snd kv))"
| "json_valid _ \<longleftrightarrow> True"

lemma parse_word_Some: "parse_word w v s = Some (u, r) \<Longrightarrow> u = v"
  by (auto simp: parse_word_def split: if_splits)

lemma parse_value_valid:
  "(\<forall>s v r. parse_value f s = Some (v, r) \<longrightarrow> json_valid v) \<and>
   (\<forall>s vs r. parse_elems f s = Some (vs, r) \<longrightarrow> (\<forall>v\<in>set vs. json_valid v)) \<and>
   (\<forall>s kvs r. parse_members f s = Some (kvs, r) \<longrightarrow>
      (\<forall>kv\<in>set kvs. valid_utf8 (fst kv) \<and> json_valid (snd kv)))"
proof (induction f)
  case 0
  show ?case by (simp add: parse_value.simps(1) parse_elems.simps(1) parse_members.simps(1))
next
  case (Suc f)
  then have v: "\<And>s v r. parse_value f s = Some (v, r) \<Longrightarrow> json_valid v"
    and vs: "\<And>s vs r. parse_elems f s = Some (vs, r) \<Longrightarrow> \<forall>v\<in>set vs. json_valid v"
    and kvs: "\<And>s kvs r. parse_members f s = Some (kvs, r) \<Longrightarrow>
      \<forall>kv\<in>set kvs. valid_utf8 (fst kv) \<and> json_valid (snd kv)" by blast+
  have "json_valid v" if "parse_value (Suc f) s = Some (v, r)" for s v r
    using that
    by (auto simp: parse_value.simps(2) split: list.split_asm if_split_asm option.split_asm
        dest: parse_str_valid parse_word_Some vs kvs)
  moreover have "\<forall>v\<in>set us. json_valid v" if e: "parse_elems (Suc f) s = Some (us, r)" for s us r
  proof -
    obtain a b where ab: "parse_value f s = Some (a, b)"
      using e by (auto simp: parse_elems.simps(2) split: option.split_asm)
    with v have "json_valid a" by blast
    with e ab vs show ?thesis
      by (auto simp: parse_elems.simps(2) split: list.split_asm if_split_asm option.split_asm)
  qed
  moreover have "\<forall>kv\<in>set kvs. valid_utf8 (fst kv) \<and> json_valid (snd kv)"
    if "parse_members (Suc f) s = Some (kvs, r)" for s kvs r
    using that
    by (auto simp: parse_members.simps(2) split: list.split_asm if_split_asm option.split_asm)
      (use kvs in \<open>force dest: v parse_str_valid\<close>)+
  ultimately show ?case by blast
qed

lemma json_parse_valid: "json_parse s = Some v \<Longrightarrow> json_valid v"
  by (auto simp: json_parse_def split: option.splits if_splits dest: parse_value_valid [THEN conjunct1, rule_format])

text \<open>A property of a struct that each field keeps on valid input holds after decoding.\<close>

lemma dec_members_keeps:
  assumes fs: "\<And>d r v r' e. d \<in> snd ` set fs \<Longrightarrow> P r \<Longrightarrow> json_valid v \<Longrightarrow> d r v = (r', e) \<Longrightarrow> P r'"
    and kvs: "\<forall>kv\<in>set kvs. json_valid (snd kv)" and "P r" and "dec_members fs r kvs = (r', e)"
  shows "P r'"
  using kvs assms(3,4)
proof (induction kvs arbitrary: r r' e)
  case (Cons kv kvs)
  obtain k v where kv: "kv = (k, v)" by (cases kv)
  show ?case
  proof (cases "find_field fs k")
    case None
    with Cons kv show ?thesis by simp
  next
    case (Some d)
    then have d: "d \<in> snd ` set fs"
      by (induction fs k rule: find_field.induct) (auto split: if_splits)
    obtain r1 e1 where dv: "d r v = (r1, e1)" by fastforce
    have "P r1" by (rule fs [OF d Cons.prems(2) _ dv]) (use Cons.prems(1) kv in simp)
    moreover obtain e2 where "dec_members fs r1 kvs = (r', e2)"
      using Cons.prems(3) kv Some dv by (auto split: prod.splits)
    ultimately show ?thesis using Cons.IH Cons.prems(1) by simp
  qed
qed simp

lemma dec_struct_keeps:
  assumes "\<And>d r v r' e. d \<in> snd ` set fs \<Longrightarrow> P r \<Longrightarrow> json_valid v \<Longrightarrow> d r v = (r', e) \<Longrightarrow> P r'"
    and "json_valid v" and "P r" and "dec_struct fs r v = (r', e)"
  shows "P r'"
proof (cases v)
  case (JObj kvs)
  with assms(2,4) show ?thesis
    using dec_members_keeps [of fs P kvs r r' e] assms(1,3) by auto
qed (use assms in auto)

lemma dec_string_keeps: "valid_utf8 s \<Longrightarrow> json_valid v \<Longrightarrow> dec_string s v = (s', e) \<Longrightarrow> valid_utf8 s'"
  by (cases v) auto

lemma json_unmarshal_keeps:
  assumes "\<And>v r' e. json_valid v \<Longrightarrow> dec r v = (r', e) \<Longrightarrow> P r'" and "P r"
    and "json_unmarshal dec r t = (r', e)"
  shows "P r'"
  using assms by (auto simp: json_unmarshal_def split: option.splits dest: json_parse_valid)

end
