(* ===== verification/Sdk_Types.thy ===== *)
theory Sdk_Types
  imports Go_Json
begin

text \<open>
  The part of the Baton SDK the connector builds its results with (the vendored packages
  \<open>annotations\<close>, \<open>types/resource\<close>, \<open>types/entitlement\<close> and \<open>types/grant\<close>): resources
  with their traits, entitlements, grants and annotations, and the option functions and
  constructors over them. An annotation stands for the protobuf message packed into an
  \<open>Any\<close>; two annotations hold the same message type when they have the same kind.
\<close>

section \<open>Messages\<close>

record resource_id =
  rid_type :: string
  rid_resource :: string

text \<open>Values of a \<open>map[string]interface{}\<close> profile: the code stores strings and booleans.\<close>

datatype profile_value = PStr string | PBool bool

type_synonym profile = "(string \<times> profile_value) list"

datatype user_status = StatusUnspecified | StatusEnabled | StatusDisabled

datatype account_type = AccountUnspecified | AccountHuman | AccountService

record user_trait =
  ut_emails :: "(string \<times> bool) list"
  ut_status :: "user_status option"
  ut_profile :: "profile option"
  ut_icon :: "string option"
  ut_account_type :: account_type
  ut_login :: string

record group_trait =
  gt_profile :: "profile option"

record role_trait =
  rt_profile :: "profile option"

record app_trait =
  at_profile :: "profile option"
  at_logo :: "string option"
  at_help_url :: string

datatype annotation =
    ExternalLink string
  | V1Identifier string
  | ChildResourceType string
  | SkipEntitlementsAndGrants
  | GrantExpandable "string list" bool "string list"
  | UserTrait user_trait
  | GroupTrait group_trait
  | RoleTrait role_trait
  | AppTrait app_trait

datatype msg_kind =
    KExternalLink | KV1Identifier | KChildResourceType | KSkip | KExpandable
  | KUser | KGroup | KRole | KApp

fun message_kind :: "annotation \<Rightarrow> msg_kind" where
  "message_kind (ExternalLink _) = KExternalLink"
| "message_kind (V1Identifier _) = KV1Identifier"
| "message_kind (ChildResourceType _) = KChildResourceType"
| "message_kind SkipEntitlementsAndGrants = KSkip"
| "message_kind (GrantExpandable _ _ _) = KExpandable"
| "message_kind (UserTrait _) = KUser"
| "message_kind (GroupTrait _) = KGroup"
| "message_kind (RoleTrait _) = KRole"
| "message_kind (AppTrait _) = KApp"

datatype resource_trait = TraitUser | TraitGroup | TraitApp | TraitRole

record resource_type =
  rty_id :: string
  rty_display_name :: string
  rty_description :: string
  rty_traits :: "resource_trait list"
  rty_annotations :: "annotation list"

record resource =
  res_id :: resource_id
  res_display_name :: string
  res_parent :: "resource_id option"
  res_annotations :: "annotation list"

datatype purpose = PurposePermission | PurposeAssignment

record entitlement =
  ent_id :: string
  ent_resource :: resource
  ent_display_name :: string
  ent_description :: string
  ent_grantable_to :: "string list"
  ent_purpose :: "purpose option"
  ent_slug :: string

record grant =
  grant_id :: string
  grant_entitlement :: entitlement
  grant_principal :: resource
  grant_annotations :: "annotation list"

text \<open>\<open>\&v2.Resource{Id: id}\<close> and \<open>\&v2.Entitlement{Id: id, Resource: r}\<close>.\<close>

definition bare_resource :: "resource_id \<Rightarrow> resource" where
  "bare_resource i = \<lparr>res_id = i, res_display_name = [], res_parent = None, res_annotations = []\<rparr>"

definition bare_entitlement :: "string \<Rightarrow> resource \<Rightarrow> entitlement" where
  "bare_entitlement i r = \<lparr>ent_id = i, ent_resource = r, ent_display_name = [],
     ent_description = [], ent_grantable_to = [], ent_purpose = None, ent_slug = []\<rparr>"

section \<open>Annotations\<close>

definition annos_append :: "annotation list \<Rightarrow> annotation list \<Rightarrow> annotation list" where
  "annos_append msgs annos = annos @ msgs"

definition annos_update :: "annotation \<Rightarrow> annotation list \<Rightarrow> annotation list" where
  "annos_update msg annos =
     (let found = list_ex (\<lambda>v. message_kind v = message_kind msg) annos;
          replaced = map (\<lambda>v. if message_kind v = message_kind msg then msg else v) annos
      in if found then replaced else replaced @ [msg])"

definition annos_contains :: "msg_kind \<Rightarrow> annotation list \<Rightarrow> bool" where
  "annos_contains k annos = list_ex (\<lambda>v. message_kind v = k) annos"

definition annos_pick :: "msg_kind \<Rightarrow> annotation list \<Rightarrow> annotation option" where
  "annos_pick k annos = find (\<lambda>v. message_kind v = k) annos"

section \<open>Profiles\<close>

definition profile_set :: "string \<Rightarrow> profile_value \<Rightarrow> profile \<Rightarrow> profile" where
  "profile_set k v p = assoc_set k v p"

fun profile_value_ok :: "profile_value \<Rightarrow> bool" where
  "profile_value_ok (PStr s) = valid_utf8 s"
| "profile_value_ok (PBool b) = True"

text \<open>\<open>structpb.NewStruct\<close> fails on a key or a string that is not valid UTF-8.\<close>

definition new_struct :: "profile \<Rightarrow> profile outcome" where
  "new_struct p =
     (if list_all (\<lambda>(k, v). valid_utf8 k \<and> profile_value_ok v) p then Ok p
      else Err (ErrText ''proto: invalid UTF-8 in string''))"

section \<open>Trait options\<close>

text \<open>Options run in order and stop at the first error.\<close>

fun apply_options :: "('a \<Rightarrow> 'a outcome) list \<Rightarrow> 'a \<Rightarrow> 'a outcome" where
  "apply_options [] x = Ok x"
| "apply_options (o1 # os) x = bind_outcome (o1 x) (apply_options os)"

type_synonym user_trait_option = "user_trait \<Rightarrow> user_trait outcome"

definition with_status :: "user_status \<Rightarrow> user_trait_option" where
  "with_status st ut = Ok (ut\<lparr>ut_status := Some st\<rparr>)"

definition with_email :: "string \<Rightarrow> bool \<Rightarrow> user_trait_option" where
  "with_email email primary ut =
     (if email = [] then Ok ut else Ok (ut\<lparr>ut_emails := ut_emails ut @ [(email, primary)]\<rparr>))"

definition with_user_login :: "string \<Rightarrow> user_trait_option" where
  "with_user_login login ut = (if login = [] then Ok ut else Ok (ut\<lparr>ut_login := login\<rparr>))"

definition with_user_icon :: "string \<Rightarrow> user_trait_option" where
  "with_user_icon ref ut = Ok (ut\<lparr>ut_icon := Some ref\<rparr>)"

definition with_user_profile :: "profile \<Rightarrow> user_trait_option" where
  "with_user_profile p ut = bind_outcome (new_struct p) (\<lambda>q. Ok (ut\<lparr>ut_profile := Some q\<rparr>))"

definition with_account_type :: "account_type \<Rightarrow> user_trait_option" where
  "with_account_type a ut = Ok (ut\<lparr>ut_account_type := a\<rparr>)"

definition empty_user_trait :: user_trait where
  "empty_user_trait = \<lparr>ut_emails = [], ut_status = None, ut_profile = None, ut_icon = None,
     ut_account_type = AccountUnspecified, ut_login = []\<rparr>"

definition new_user_trait :: "user_trait_option list \<Rightarrow> user_trait outcome" where
  "new_user_trait opts =
     bind_outcome (apply_options opts empty_user_trait) (\<lambda>ut.
       let ut1 = (if ut_status ut = None then ut\<lparr>ut_status := Some StatusEnabled\<rparr> else ut);
           ut2 = (if ut_account_type ut1 = AccountUnspecified
                  then ut1\<lparr>ut_account_type := AccountHuman\<rparr> else ut1)
       in Ok ut2)"

definition with_group_profile :: "profile \<Rightarrow> group_trait \<Rightarrow> group_trait outcome" where
  "with_group_profile p gt = bind_outcome (new_struct p) (\<lambda>q. Ok (gt\<lparr>gt_profile := Some q\<rparr>))"

definition with_role_profile :: "profile \<Rightarrow> role_trait \<Rightarrow> role_trait outcome" where
  "with_role_profile p rt = bind_outcome (new_struct p) (\<lambda>q. Ok (rt\<lparr>rt_profile := Some q\<rparr>))"

definition with_app_profile :: "profile \<Rightarrow> app_trait \<Rightarrow> app_trait outcome" where
  "with_app_profile p a = bind_outcome (new_struct p) (\<lambda>q. Ok (a\<lparr>at_profile := Some q\<rparr>))"

definition with_app_logo :: "string \<Rightarrow> app_trait \<Rightarrow> app_trait outcome" where
  "with_app_logo ref a = Ok (a\<lparr>at_logo := Some ref\<rparr>)"

definition with_app_help_url :: "string \<Rightarrow> app_trait \<Rightarrow> app_trait outcome" where
  "with_app_help_url u a = Ok (a\<lparr>at_help_url := u\<rparr>)"

section \<open>Resource options and constructors\<close>

type_synonym resource_option = "resource \<Rightarrow> resource outcome"

definition with_annotation :: "annotation list \<Rightarrow> resource_option" where
  "with_annotation msgs r = Ok (r\<lparr>res_annotations := annos_append msgs (res_annotations r)\<rparr>)"

definition with_parent_resource_id :: "resource_id option \<Rightarrow> resource_option" where
  "with_parent_resource_id p r = Ok (r\<lparr>res_parent := p\<rparr>)"

text \<open>
  A trait option picks the trait the annotations already hold, or starts from an empty one
  (for a user trait through \<open>NewUserTrait\<close> and its defaults), and stores the result.
\<close>

definition put_annotation :: "annotation \<Rightarrow> resource \<Rightarrow> resource" where
  "put_annotation a r = r\<lparr>res_annotations := annos_update a (res_annotations r)\<rparr>"

definition with_user_trait :: "user_trait_option list \<Rightarrow> resource_option" where
  "with_user_trait opts r =
     bind_outcome
       (case annos_pick KUser (res_annotations r) of
          Some (UserTrait ut) \<Rightarrow> apply_options opts ut
        | _ \<Rightarrow> new_user_trait opts)
       (\<lambda>ut. Ok (put_annotation (UserTrait ut) r))"

definition with_group_trait :: "(group_trait \<Rightarrow> group_trait outcome) list \<Rightarrow> resource_option" where
  "with_group_trait opts r =
     bind_outcome
       (apply_options opts
         (case annos_pick KGroup (res_annotations r) of
            Some (GroupTrait gt) \<Rightarrow> gt | _ \<Rightarrow> \<lparr>gt_profile = None\<rparr>))
       (\<lambda>gt. Ok (put_annotation (GroupTrait gt) r))"

definition with_role_trait :: "(role_trait \<Rightarrow> role_trait outcome) list \<Rightarrow> resource_option" where
  "with_role_trait opts r =
     bind_outcome
       (apply_options opts
         (case annos_pick KRole (res_annotations r) of
            Some (RoleTrait rt) \<Rightarrow> rt | _ \<Rightarrow> \<lparr>rt_profile = None\<rparr>))
       (\<lambda>rt. Ok (put_annotation (RoleTrait rt) r))"

definition with_app_trait :: "(app_trait \<Rightarrow> app_trait outcome) list \<Rightarrow> resource_option" where
  "with_app_trait opts r =
     bind_outcome
       (apply_options opts
         (case annos_pick KApp (res_annotations r) of
            Some (AppTrait a) \<Rightarrow> a | _ \<Rightarrow> \<lparr>at_profile = None, at_logo = None, at_help_url = []\<rparr>))
       (\<lambda>a. Ok (put_annotation (AppTrait a) r))"

definition new_resource_id :: "resource_type \<Rightarrow> string \<Rightarrow> resource_id" where
  "new_resource_id t obj = \<lparr>rid_type = rty_id t, rid_resource = obj\<rparr>"

definition new_resource ::
  "string \<Rightarrow> resource_type \<Rightarrow> string \<Rightarrow> resource_option list \<Rightarrow> resource outcome" where
  "new_resource name t obj opts =
     apply_options opts
       \<lparr>res_id = new_resource_id t obj, res_display_name = name, res_parent = None,
        res_annotations = []\<rparr>"

definition new_user_resource ::
  "string \<Rightarrow> resource_type \<Rightarrow> string \<Rightarrow> user_trait_option list \<Rightarrow> resource_option list \<Rightarrow> resource outcome"
where
  "new_user_resource name t obj topts opts = new_resource name t obj (opts @ [with_user_trait topts])"

definition new_group_resource ::
  "string \<Rightarrow> resource_type \<Rightarrow> string \<Rightarrow> (group_trait \<Rightarrow> group_trait outcome) list
    \<Rightarrow> resource_option list \<Rightarrow> resource outcome"
where
  "new_group_resource name t obj topts opts = new_resource name t obj (opts @ [with_group_trait topts])"

definition new_role_resource ::
  "string \<Rightarrow> resource_type \<Rightarrow> string \<Rightarrow> (role_trait \<Rightarrow> role_trait outcome) list
    \<Rightarrow> resource_option list \<Rightarrow> resource outcome"
where
  "new_role_resource name t obj topts opts = new_resource name t obj (opts @ [with_role_trait topts])"

definition new_app_resource ::
  "string \<Rightarrow> resource_type \<Rightarrow> string \<Rightarrow> (app_trait \<Rightarrow> app_trait outcome) list
    \<Rightarrow> resource_option list \<Rightarrow> resource outcome"
where
  "new_app_resource name t obj topts opts = new_resource name t obj (opts @ [with_app_trait topts])"

section \<open>Entitlements and grants\<close>

definition new_entitlement_id :: "resource \<Rightarrow> string \<Rightarrow> string" where
  "new_entitlement_id r permission =
     rid_type (res_id r) @ '':'' @ rid_resource (res_id r) @ '':'' @ permission"

text \<open>
  \<open>NewPermissionEntitlement\<close> and \<open>NewAssignmentEntitlement\<close> with the three options the
  connector always gives: display name, description, grantable types.
\<close>

definition new_permission_entitlement ::
  "resource \<Rightarrow> string \<Rightarrow> string \<Rightarrow> string \<Rightarrow> resource_type list \<Rightarrow> entitlement" where
  "new_permission_entitlement r name display description grantable =
     \<lparr>ent_id = new_entitlement_id r name, ent_resource = r, ent_display_name = display,
      ent_description = description, ent_grantable_to = map rty_id grantable,
      ent_purpose = Some PurposePermission, ent_slug = name\<rparr>"

definition new_assignment_entitlement ::
  "resource \<Rightarrow> string \<Rightarrow> string \<Rightarrow> string \<Rightarrow> resource_type list \<Rightarrow> entitlement" where
  "new_assignment_entitlement r name display description grantable =
     \<lparr>ent_id = new_entitlement_id r name, ent_resource = r, ent_display_name = display,
      ent_description = description, ent_grantable_to = map rty_id grantable,
      ent_purpose = Some PurposeAssignment, ent_slug = name\<rparr>"

text \<open>\<open>NewGrant\<close> for a principal given by its resource id; a nil id panics.\<close>

definition new_grant :: "resource \<Rightarrow> string \<Rightarrow> resource_id option \<Rightarrow> grant outcome" where
  "new_grant r name pid =
     (case pid of
        None \<Rightarrow> Panic (PanicMessage ''principal resource must have a valid resource ID'')
      | Some p \<Rightarrow>
          (let e = bare_entitlement (new_entitlement_id r name) r in
           Ok \<lparr>grant_id = ent_id e @ '':'' @ rid_type p @ '':'' @ rid_resource p,
               grant_entitlement = e, grant_principal = bare_resource p,
               grant_annotations = []\<rparr>))"

section \<open>Lemmas\<close>

lemma map_kind_update:
  "map message_kind (map (\<lambda>v. if message_kind v = message_kind m then m else v) annos) = map message_kind annos"
  by (induction annos) auto

lemma annos_contains_set: "annos_contains k annos \<longleftrightarrow> k \<in> set (map message_kind annos)"
  by (auto simp: annos_contains_def list_ex_iff)

lemma set_kinds_update:
  "set (map message_kind (annos_update m annos)) = insert (message_kind m) (set (map message_kind annos))"
proof (cases "\<exists>v\<in>set annos. message_kind v = message_kind m")
  case True
  then have "message_kind m \<in> message_kind ` set annos" by (metis imageI)
  with True show ?thesis
    unfolding annos_update_def Let_def list_ex_iff if_P [OF True] map_kind_update
    by (simp add: insert_absorb)
next
  case False
  then show ?thesis
    unfolding annos_update_def Let_def list_ex_iff if_not_P [OF False] map_append map_kind_update
    by simp
qed

lemma annos_contains_update [simp]:
  "annos_contains k (annos_update m annos) \<longleftrightarrow> k = message_kind m \<or> annos_contains k annos"
  unfolding annos_contains_set set_kinds_update by simp

lemma annos_pick_update:
  "annos_pick (message_kind m) (annos_update m annos) = Some m"
proof (induction annos)
  case Nil
  then show ?case by (simp add: annos_pick_def annos_update_def)
next
  case (Cons a as)
  then show ?case
    by (cases "list_ex (\<lambda>v. message_kind v = message_kind m) as")
       (auto simp: annos_pick_def annos_update_def Let_def)
qed

text \<open>At most one annotation of each kind: the traits of a resource are a function of their kind.\<close>

definition kinds_distinct :: "annotation list \<Rightarrow> bool" where
  "kinds_distinct annos \<longleftrightarrow> distinct (map message_kind annos)"

lemma kinds_distinct_update: "kinds_distinct annos \<Longrightarrow> kinds_distinct (annos_update m annos)"
  unfolding kinds_distinct_def annos_update_def Let_def
  by (auto simp del: map_map simp: map_kind_update list_ex_iff)

lemma apply_options_append:
  "apply_options (as @ bs) x = bind_outcome (apply_options as x) (apply_options bs)"
proof (induction as arbitrary: x)
  case (Cons a as)
  then show ?case by (cases "a x") simp_all
qed simp

lemma put_annotation_fields [simp]:
  "res_id (put_annotation a r) = res_id r"
  "res_display_name (put_annotation a r) = res_display_name r"
  "res_parent (put_annotation a r) = res_parent r"
  "res_annotations (put_annotation a r) = annos_update a (res_annotations r)"
  by (simp_all add: put_annotation_def)

end
