(* ===== verification/Go_Url.thy ===== *)
theory Go_Url
  imports Prelude "HOL-Library.Char_ord" "HOL-Library.List_Lexorder"
begin

text \<open>
  What the connector and the HTTP wrapper use of the packages \<open>path\<close> and \<open>net/url\<close>:
  \<open>path.Join\<close>, \<open>url.Values\<close>, percent encoding in its modes, \<open>URL.String\<close> and
  \<open>url.Parse\<close> with authority, user information, ports and zones.
\<close>

section \<open>Package path\<close>

text \<open>
  \<open>path.Clean\<close> works through the elements between slashes with the output written so far
  as a stack (its top first).
\<close>

fun clean_step :: "bool \<Rightarrow> string list \<Rightarrow> string \<Rightarrow> string list" where
  "clean_step rooted out e =
     (if e = [] \<or> e = ''.'' then out
      else if e = ''..'' then
        (case out of
           [] \<Rightarrow> (if rooted then [] else [''..''])
         | o1 # os \<Rightarrow> (if o1 = ''..'' then ''..'' # out else os))
      else e # out)"

definition path_clean :: "string \<Rightarrow> string" where
  "path_clean p =
     (let rooted = (p \<noteq> [] \<and> hd p = CHR ''/'');
          out = foldl (clean_step rooted) [] (split_at (CHR ''/'') p);
          s = (if rooted then ''/'' else []) @ join_with ''/'' (rev out)
      in if s = [] then ''.'' else s)"

fun join_elems :: "string \<Rightarrow> string list \<Rightarrow> string" where
  "join_elems buf [] = buf"
| "join_elems buf (e # es) =
     join_elems (if buf \<noteq> [] then buf @ ''/'' @ e else e) es"

definition path_join :: "string list \<Rightarrow> string" where
  "path_join es = (if concat es = [] then [] else path_clean (join_elems [] es))"

section \<open>Percent encoding\<close>

datatype encoding =
    EncodePath | EncodePathSegment | EncodeHost | EncodeZone
  | EncodeUserPassword | EncodeQueryComponent | EncodeFragment

definition alnum :: "nat \<Rightarrow> bool" where
  "alnum n \<longleftrightarrow> (97 \<le> n \<and> n \<le> 122) \<or> (65 \<le> n \<and> n \<le> 90) \<or> (48 \<le> n \<and> n \<le> 57)"

text \<open>\<open>shouldEscape\<close>, on byte values; the sets are those of its \<open>switch\<close> statements.\<close>

definition should_escape :: "nat \<Rightarrow> encoding \<Rightarrow> bool" where
  "should_escape n m =
     (if alnum n then False
      else if (m = EncodeHost \<or> m = EncodeZone) \<and>
        n \<in> {33, 36, 38, 39, 40, 41, 42, 43, 44, 59, 61, 58, 91, 93, 60, 62, 34} then False
      else if n \<in> {45, 95, 46, 126} then False
      else if n \<in> {36, 38, 43, 44, 47, 58, 59, 61, 63, 64} \<and> m \<notin> {EncodeHost, EncodeZone} then
        (case m of
           EncodePath \<Rightarrow> n = 63
         | EncodePathSegment \<Rightarrow> n \<in> {47, 59, 44, 63}
         | EncodeUserPassword \<Rightarrow> n \<in> {64, 47, 63, 58}
         | EncodeQueryComponent \<Rightarrow> True
         | _ \<Rightarrow> False)
      else if m = EncodeFragment \<and> n \<in> {33, 40, 41, 42} then False
      else True)"

definition upper_hex :: "nat \<Rightarrow> char" where
  "upper_hex n = (if n < 10 then char_of (48 + n) else char_of (55 + n))"

definition escape_byte :: "encoding \<Rightarrow> char \<Rightarrow> string" where
  "escape_byte m c =
     (let n = byte_of c in
      if n = 32 \<and> m = EncodeQueryComponent then ''+''
      else if should_escape n m then [CHR 0x25, upper_hex (n div 16), upper_hex (n mod 16)]
      else [c])"

definition escape :: "encoding \<Rightarrow> string \<Rightarrow> string" where
  "escape m s = concat (map (escape_byte m) s)"

definition unhex :: "char \<Rightarrow> nat option" where
  "unhex c =
     (let n = byte_of c in
      if 48 \<le> n \<and> n \<le> 57 then Some (n - 48)
      else if 97 \<le> n \<and> n \<le> 102 then Some (n - 87)
      else if 65 \<le> n \<and> n \<le> 70 then Some (n - 55)
      else None)"

text \<open>\<open>unescape\<close>: None is any of its errors.\<close>

fun unescape :: "encoding \<Rightarrow> string \<Rightarrow> string option" where
  "unescape m [] = Some []"
| "unescape m (c # cs) =
     (if c = CHR 0x25 then
        (case cs of a # b # r \<Rightarrow>
           (case (unhex a, unhex b) of (Some x, Some y) \<Rightarrow>
              if (m = EncodeHost \<and> x < 8 \<and> 16 * x + y \<noteq> 37) \<or>
                 (m = EncodeZone \<and> 16 * x + y \<noteq> 37 \<and> 16 * x + y \<noteq> 32 \<and>
                  should_escape (16 * x + y) EncodeHost)
              then None
              else map_option (\<lambda>t. char_of (16 * x + y) # t) (unescape m r)
            | _ \<Rightarrow> None)
         | _ \<Rightarrow> None)
      else if c = CHR ''+'' then
        map_option (\<lambda>t. (if m = EncodeQueryComponent then CHR '' '' else c) # t) (unescape m cs)
      else if (m = EncodeHost \<or> m = EncodeZone) \<and> byte_of c < 128 \<and> should_escape (byte_of c) m
      then None
      else map_option (\<lambda>t. c # t) (unescape m cs))"

definition valid_encoded :: "encoding \<Rightarrow> string \<Rightarrow> bool" where
  "valid_encoded m s \<longleftrightarrow>
     list_all (\<lambda>c. byte_of c \<in> {33, 36, 38, 39, 40, 41, 42, 43, 44, 59, 61, 58, 64, 91, 93, 37} \<or>
                   \<not> should_escape (byte_of c) m) s"

section \<open>url.Values\<close>

text \<open>
  The code sets each key once and never adds a second value, so a value set is an
  association list with distinct keys; \<open>Encode\<close> writes it in the order of its keys.
\<close>

type_synonym url_values = "(string \<times> string) list"

definition values_set :: "string \<Rightarrow> string \<Rightarrow> url_values \<Rightarrow> url_values" where
  "values_set k v vs = assoc_set k v vs"

definition encode_pair :: "string \<times> string \<Rightarrow> string" where
  "encode_pair kv = (case kv of (k, v) \<Rightarrow>
     escape EncodeQueryComponent k @ ''='' @ escape EncodeQueryComponent v)"

definition values_encode :: "url_values \<Rightarrow> string" where
  "values_encode vs = join_with ''&'' (map encode_pair (sort_key fst vs))"

definition cut_at :: "char \<Rightarrow> string \<Rightarrow> string \<times> string" where
  "cut_at c s = (takeWhile (\<lambda>x. x \<noteq> c) s, tl (dropWhile (\<lambda>x. x \<noteq> c) s))"

text \<open>\<open>URL.Query\<close>: pairs that do not parse are left out.\<close>

definition parse_query :: "string \<Rightarrow> url_values" where
  "parse_query q =
     concat (map (\<lambda>p.
       if CHR '';'' \<in> set p \<or> p = [] then []
       else (case cut_at (CHR ''='') p of (k, v) \<Rightarrow>
         (case (unescape EncodeQueryComponent k, unescape EncodeQueryComponent v) of
            (Some k', Some v') \<Rightarrow> [(k', v')]
          | _ \<Rightarrow> [])))
     (split_at (CHR ''&'') q))"

section \<open>URLs\<close>

record url =
  url_scheme :: string
  url_opaque :: string
  url_user :: "(string \<times> string option) option"
  url_host :: string
  url_path :: string
  url_raw_path :: string
  url_omit_host :: bool
  url_force_query :: bool
  url_raw_query :: string
  url_fragment :: string
  url_raw_fragment :: string

definition empty_url :: url where
  "empty_url = \<lparr>url_scheme = [], url_opaque = [], url_user = None, url_host = [], url_path = [],
     url_raw_path = [], url_omit_host = False, url_force_query = False, url_raw_query = [],
     url_fragment = [], url_raw_fragment = []\<rparr>"

definition escaped_path :: "url \<Rightarrow> string" where
  "escaped_path u =
     (if url_raw_path u \<noteq> [] \<and> valid_encoded EncodePath (url_raw_path u)
         \<and> unescape EncodePath (url_raw_path u) = Some (url_path u) then url_raw_path u
      else if url_path u = ''*'' then ''*''
      else escape EncodePath (url_path u))"

definition escaped_fragment :: "url \<Rightarrow> string" where
  "escaped_fragment u =
     (if url_raw_fragment u \<noteq> [] \<and> valid_encoded EncodeFragment (url_raw_fragment u)
         \<and> unescape EncodeFragment (url_raw_fragment u) = Some (url_fragment u)
      then url_raw_fragment u
      else escape EncodeFragment (url_fragment u))"

definition userinfo_string :: "string \<times> string option \<Rightarrow> string" where
  "userinfo_string ui = (case ui of (n, p) \<Rightarrow>
     escape EncodeUserPassword n @
     (case p of None \<Rightarrow> [] | Some w \<Rightarrow> '':'' @ escape EncodeUserPassword w))"

text \<open>\<open>URL.String\<close>.\<close>

definition url_string :: "url \<Rightarrow> string" where
  "url_string u =
     (let scheme = (if url_scheme u \<noteq> [] then url_scheme u @ '':'' else []);
          authority =
            (if url_scheme u \<noteq> [] \<or> url_host u \<noteq> [] \<or> url_user u \<noteq> None then
               (if url_omit_host u \<and> url_host u = [] \<and> url_user u = None then []
                else (if url_host u \<noteq> [] \<or> url_path u \<noteq> [] \<or> url_user u \<noteq> None then ''//'' else [])
                  @ (case url_user u of None \<Rightarrow> [] | Some ui \<Rightarrow> userinfo_string ui @ ''@'')
                  @ escape EncodeHost (url_host u))
             else []);
          p = escaped_path u;
          slash = (if p \<noteq> [] \<and> hd p \<noteq> CHR ''/'' \<and> url_host u \<noteq> [] then ''/'' else []);
          dot = (if scheme @ authority @ slash = [] \<and> CHR '':'' \<in> set (fst (cut_at (CHR ''/'') p))
                 then ''./'' else []);
          rest = (if url_opaque u \<noteq> [] then url_opaque u else authority @ slash @ dot @ p)
      in scheme @ rest
         @ (if url_force_query u \<or> url_raw_query u \<noteq> [] then ''?'' @ url_raw_query u else [])
         @ (if url_fragment u \<noteq> [] then ''#'' @ escaped_fragment u else []))"

section \<open>url.Parse\<close>

definition url_error :: "string \<Rightarrow> error" where
  "url_error t = ErrText (''parse: '' @ t)"

definition of_option :: "error \<Rightarrow> 'a option \<Rightarrow> error + 'a" where
  "of_option e m = (case m of None \<Rightarrow> Inl e | Some x \<Rightarrow> Inr x)"

text \<open>\<open>getScheme\<close>; the first argument is the index of the byte at hand being positive.\<close>

fun get_scheme_from :: "string \<Rightarrow> string \<Rightarrow> string \<Rightarrow> error + (string \<times> string)" where
  "get_scheme_from raw pre [] = Inr ([], raw)"
| "get_scheme_from raw pre (c # cs) =
     (let n = byte_of c in
      if (97 \<le> n \<and> n \<le> 122) \<or> (65 \<le> n \<and> n \<le> 90) then get_scheme_from raw (pre @ [c]) cs
      else if (48 \<le> n \<and> n \<le> 57) \<or> n \<in> {43, 45, 46} then
        (if pre = [] then Inr ([], raw) else get_scheme_from raw (pre @ [c]) cs)
      else if n = 58 then
        (if pre = [] then Inl (url_error ''missing protocol scheme'') else Inr (pre, cs))
      else Inr ([], raw))"

definition get_scheme :: "string \<Rightarrow> error + (string \<times> string)" where
  "get_scheme raw = get_scheme_from raw [] raw"

text \<open>Splitting at the last occurrence of a byte (\<open>strings.LastIndex\<close>).\<close>

definition cut_last :: "char \<Rightarrow> string \<Rightarrow> (string \<times> string) option" where
  "cut_last c s =
     (if c \<in> set s
      then Some (rev (tl (dropWhile (\<lambda>x. x \<noteq> c) (rev s))), rev (takeWhile (\<lambda>x. x \<noteq> c) (rev s)))
      else None)"

definition valid_optional_port :: "string \<Rightarrow> bool" where
  "valid_optional_port p \<longleftrightarrow> p = [] \<or> (hd p = CHR '':'' \<and> list_all is_digit (tl p))"

fun cut_zone :: "string \<Rightarrow> (string \<times> string) option" where
  "cut_zone [] = None"
| "cut_zone (c # cs) =
     (if has_prefix (c # cs) ''%25'' then Some ([], c # cs)
      else map_option (\<lambda>(a, b). (c # a, b)) (cut_zone cs))"

definition append_opt :: "string option \<Rightarrow> string option \<Rightarrow> string option" where
  "append_opt a b = (case a of None \<Rightarrow> None | Some x \<Rightarrow> map_option ((@) x) b)"

definition parse_host :: "string \<Rightarrow> error + string" where
  "parse_host h =
     (if has_prefix h ''['' then
        (case cut_last (CHR '']'') h of
           None \<Rightarrow> Inl (url_error ''missing ']' in host'')
         | Some (lit, port) \<Rightarrow>
             if \<not> valid_optional_port port then Inl (url_error ''invalid port after host'')
             else (case cut_zone lit of
                 None \<Rightarrow> of_option (url_error ''invalid host'') (unescape EncodeHost h)
               | Some (a, z) \<Rightarrow>
                   of_option (url_error ''invalid host'')
                     (append_opt (unescape EncodeHost a)
                       (append_opt (unescape EncodeZone z) (unescape EncodeHost (CHR '']'' # port))))))
      else (case cut_last (CHR '':'') h of
          Some (_, port) \<Rightarrow>
            if \<not> valid_optional_port (CHR '':'' # port) then Inl (url_error ''invalid port after host'')
            else of_option (url_error ''invalid host'') (unescape EncodeHost h)
        | None \<Rightarrow> of_option (url_error ''invalid host'') (unescape EncodeHost h)))"

definition valid_userinfo :: "string \<Rightarrow> bool" where
  "valid_userinfo s \<longleftrightarrow>
     list_all (\<lambda>c. alnum (byte_of c) \<or>
       byte_of c \<in> {45, 46, 95, 58, 126, 33, 36, 38, 39, 40, 41, 42, 43, 44, 59, 61, 37, 64}) s"

definition parse_authority :: "string \<Rightarrow> error + ((string \<times> string option) option \<times> string)" where
  "parse_authority a =
     (case cut_last (CHR ''@'') a of
        None \<Rightarrow> bind_sum (parse_host a) (\<lambda>h. Inr (None, h))
      | Some (ui, hs) \<Rightarrow>
          bind_sum (parse_host hs) (\<lambda>h.
            if \<not> valid_userinfo ui then Inl (url_error ''net/url: invalid userinfo'')
            else if CHR '':'' \<notin> set ui then
              bind_sum (of_option (url_error ''invalid URL escape'') (unescape EncodeUserPassword ui))
                (\<lambda>n. Inr (Some (n, None), h))
            else (case cut_at (CHR '':'') ui of (n, w) \<Rightarrow>
              bind_sum (of_option (url_error ''invalid URL escape'') (unescape EncodeUserPassword n))
                (\<lambda>n'. bind_sum (of_option (url_error ''invalid URL escape'') (unescape EncodeUserPassword w))
                  (\<lambda>w'. Inr (Some (n', Some w'), h))))))"

definition set_path :: "string \<Rightarrow> url \<Rightarrow> error + url" where
  "set_path p u =
     bind_sum (of_option (url_error ''invalid URL escape'') (unescape EncodePath p))
       (\<lambda>q. Inr (u\<lparr>url_path := q, url_raw_path := (if escape EncodePath q = p then [] else p)\<rparr>))"

definition set_fragment :: "string \<Rightarrow> url \<Rightarrow> error + url" where
  "set_fragment f u =
     bind_sum (of_option (url_error ''invalid URL escape'') (unescape EncodeFragment f))
       (\<lambda>q. Inr (u\<lparr>url_fragment := q,
                  url_raw_fragment := (if escape EncodeFragment q = f then [] else f)\<rparr>))"

definition split_query :: "string \<Rightarrow> url \<Rightarrow> string \<times> url" where
  "split_query rest u =
     (if has_suffix rest ''?'' \<and> count_list rest (CHR ''?'') = 1
      then (butlast rest, u\<lparr>url_force_query := True\<rparr>)
      else (case cut_at (CHR ''?'') rest of (r, q) \<Rightarrow> (r, u\<lparr>url_raw_query := q\<rparr>)))"

text \<open>The part of \<open>parse\<close> after the query is cut off.\<close>

definition parse_hier :: "string \<Rightarrow> url \<Rightarrow> error + url" where
  "parse_hier rest u =
     (if \<not> has_prefix rest ''/'' \<and> url_scheme u \<noteq> [] then Inr (u\<lparr>url_opaque := rest\<rparr>)
      else if \<not> has_prefix rest ''/'' \<and> CHR '':'' \<in> set (fst (cut_at (CHR ''/'') rest))
        then Inl (url_error ''first path segment in URL cannot contain colon'')
      else if (url_scheme u \<noteq> [] \<or> \<not> has_prefix rest ''///'') \<and> has_prefix rest ''//'' then
        (let a = takeWhile (\<lambda>x. x \<noteq> CHR ''/'') (drop 2 rest);
             r = dropWhile (\<lambda>x. x \<noteq> CHR ''/'') (drop 2 rest)
         in bind_sum (parse_authority a)
              (\<lambda>(ui, h). set_path r (u\<lparr>url_user := ui, url_host := h\<rparr>)))
      else set_path rest
        (if url_scheme u \<noteq> [] \<and> has_prefix rest ''/'' then u\<lparr>url_omit_host := True\<rparr> else u))"

definition has_ctl :: "string \<Rightarrow> bool" where
  "has_ctl s \<longleftrightarrow> list_ex (\<lambda>c. byte_of c < 32 \<or> byte_of c = 127) s"

definition url_parse :: "string \<Rightarrow> error + url" where
  "url_parse raw =
     (case cut_at (CHR ''#'') raw of (s, frag) \<Rightarrow>
      bind_sum
        (if has_ctl s then Inl (url_error ''net/url: invalid control character in URL'')
         else if s = ''*'' then Inr (empty_url\<lparr>url_path := ''*''\<rparr>)
         else bind_sum (get_scheme s) (\<lambda>(scheme, rest).
           case split_query rest (empty_url\<lparr>url_scheme := to_lower scheme\<rparr>) of
             (rest', u) \<Rightarrow> parse_hier rest' u))
        (\<lambda>u. if frag = [] then Inr u else set_fragment frag u))"

section \<open>Escaping and unescaping agree\<close>

lemma unhex_upper_hex: "k < 16 \<Longrightarrow> unhex (upper_hex k) = Some k"
  by (auto simp: unhex_def upper_hex_def)

lemma alnum_upper_hex: "k < 16 \<Longrightarrow> alnum (byte_of (upper_hex k))"
  by (auto simp: alnum_def upper_hex_def)

lemma escape_Cons: "escape m (c # s) = escape_byte m c @ escape m s"
  by (simp add: escape_def)

lemma escape_append: "escape m (s @ t) = escape m s @ escape m t"
  by (simp add: escape_def)

lemma unescape_byte:
  assumes "m \<noteq> EncodeHost" "m \<noteq> EncodeZone"
  shows "unescape m (escape_byte m c @ t) = map_option (\<lambda>u. c # u) (unescape m t)"
proof -
  let ?n = "byte_of c"
  have n: "16 * (?n div 16) + ?n mod 16 = ?n" "?n div 16 < 16" by (simp_all add: less_mult_imp_div_less)
  consider "?n = 32" "m = EncodeQueryComponent"
    | "should_escape ?n m" "\<not> (?n = 32 \<and> m = EncodeQueryComponent)"
    | "\<not> should_escape ?n m" "\<not> (?n = 32 \<and> m = EncodeQueryComponent)" by blast
  then show ?thesis
  proof cases
    case 1
    then have "c = CHR '' ''" by (simp add: byte_eq_iff)
    with 1 show ?thesis by (simp add: escape_byte_def Let_def)
  next
    case 2
    then have "escape_byte m c = [CHR 0x25, upper_hex (?n div 16), upper_hex (?n mod 16)]"
      by (auto simp: escape_byte_def Let_def)
    then show ?thesis
      using assms n by (simp add: unhex_upper_hex)
  next
    case 3
    then have "c \<noteq> CHR 0x25" using assms
      by (auto simp: should_escape_def alnum_def split: if_splits encoding.splits)
    moreover have "c = CHR ''+'' \<Longrightarrow> m \<noteq> EncodeQueryComponent"
      using 3 by (auto simp: should_escape_def alnum_def)
    ultimately show ?thesis
      using 3 assms by (auto simp: escape_byte_def Let_def)
  qed
qed

lemma unescape_escape:
  assumes "m \<noteq> EncodeHost" "m \<noteq> EncodeZone"
  shows "unescape m (escape m s) = Some s"
  by (induction s) (simp_all add: escape_Cons unescape_byte [OF assms] escape_def [of m "[]"])

lemma set_escape:
  assumes "x \<in> set (escape m s)"
  shows "\<not> should_escape (byte_of x) m \<or> x = CHR 0x25 \<or> (x = CHR ''+'' \<and> m = EncodeQueryComponent)"
proof -
  from assms obtain c where x: "x \<in> set (escape_byte m c)" by (auto simp: escape_def)
  have "byte_of c div 16 < 16" by (simp add: less_mult_imp_div_less)
  then have "alnum (byte_of (upper_hex (byte_of c div 16)))" "alnum (byte_of (upper_hex (byte_of c mod 16)))"
    by (simp_all add: alnum_upper_hex)
  then have h: "\<not> should_escape (byte_of (upper_hex (byte_of c div 16))) m"
     "\<not> should_escape (byte_of (upper_hex (byte_of c mod 16))) m"
    by (simp_all add: should_escape_def)
  show ?thesis
    using x h by (auto simp: escape_byte_def Let_def split: if_splits)
qed

text \<open>Characters an escaped path, and an encoded query, never hold.\<close>

lemma unescaped_path_byte:
  "\<not> should_escape n EncodePath \<Longrightarrow> 33 \<le> n \<and> n < 127 \<and> n \<noteq> 35 \<and> n \<noteq> 63"
  unfolding should_escape_def alnum_def
  by (simp split: if_split_asm; (elim disjE)?; simp)

lemma unescaped_query_byte:
  "\<not> should_escape n EncodeQueryComponent \<Longrightarrow>
    33 \<le> n \<and> n < 127 \<and> n \<noteq> 35 \<and> n \<noteq> 63 \<and> n \<noteq> 38 \<and> n \<noteq> 61 \<and> n \<noteq> 59"
  unfolding should_escape_def alnum_def
  by (simp split: if_split_asm; (elim disjE)?; simp)

lemma escape_path_chars:
  assumes "x \<in> set (escape EncodePath s)"
  shows "33 \<le> byte_of x \<and> byte_of x < 127 \<and> x \<noteq> CHR ''#'' \<and> x \<noteq> CHR ''?''"
  using set_escape [OF assms] unescaped_path_byte [of "byte_of x"] by auto

lemma escape_query_chars:
  assumes "x \<in> set (escape EncodeQueryComponent s)"
  shows "33 \<le> byte_of x \<and> byte_of x < 127 \<and> x \<notin> {CHR ''#'', CHR ''?'', CHR ''&'', CHR ''='', CHR '';''}"
  using set_escape [OF assms] unescaped_query_byte [of "byte_of x"] by auto

lemma escape_plain:
  "list_all (\<lambda>c. \<not> should_escape (byte_of c) m \<and> byte_of c \<noteq> 32) s \<Longrightarrow> escape m s = s"
  by (induction s) (simp_all add: escape_def escape_byte_def Let_def)

lemma cut_at_fst: "c \<notin> set s \<Longrightarrow> cut_at c (s @ c # t) = (s, t)"
  by (induction s) (auto simp: cut_at_def)

lemma cut_at_none: "c \<notin> set s \<Longrightarrow> cut_at c s = (s, [])"
  by (induction s) (auto simp: cut_at_def)

section \<open>Encoded queries\<close>

lemma values_encode_chars:
  assumes "x \<in> set (values_encode vs)"
  shows "33 \<le> byte_of x \<and> byte_of x < 127 \<and> x \<noteq> CHR ''#'' \<and> x \<noteq> CHR ''?''"
proof -
  have join: "set (join_with ''&'' ps) \<subseteq> \<Union> (set ` set ps) \<union> {CHR ''&''}" for ps
    by (induction "''&''" ps rule: join_with.induct) auto
  from assms join obtain kv where "x = CHR ''&'' \<or> x \<in> set (encode_pair kv)"
    unfolding values_encode_def by fastforce
  then show ?thesis
    by (cases kv) (auto simp: encode_pair_def dest: escape_query_chars)
qed

lemma parse_query_encode: "parse_query (values_encode vs) = sort_key fst vs"
proof (cases "vs = []")
  case True
  then show ?thesis by (simp add: values_encode_def parse_query_def)
next
  case False
  let ?ps = "map encode_pair (sort_key fst vs)"
  have amp: "\<forall>p\<in>set ?ps. CHR ''&'' \<notin> set p"
    by (auto simp: encode_pair_def dest: escape_query_chars)
  have "sort_key fst vs \<noteq> []" using False by (metis length_0_conv length_sort)
  then have "split_at (CHR ''&'') (values_encode vs) = ?ps"
    unfolding values_encode_def using split_at_join [OF _ amp] by simp
  moreover have "(if CHR '';'' \<in> set (encode_pair kv) \<or> encode_pair kv = [] then []
       else (case cut_at (CHR ''='') (encode_pair kv) of (k, v) \<Rightarrow>
         (case (unescape EncodeQueryComponent k, unescape EncodeQueryComponent v) of
            (Some k', Some v') \<Rightarrow> [(k', v')]
          | _ \<Rightarrow> []))) = [kv]" for kv
  proof -
    obtain k v where kv: "kv = (k, v)" by (cases kv)
    have "CHR ''='' \<notin> set (escape EncodeQueryComponent k)"
      by (auto dest: escape_query_chars)
    then have "cut_at (CHR ''='') (encode_pair kv)
        = (escape EncodeQueryComponent k, escape EncodeQueryComponent v)"
      by (simp add: kv encode_pair_def cut_at_fst)
    moreover have "CHR '';'' \<notin> set (encode_pair kv)" "encode_pair kv \<noteq> []"
      by (auto simp: kv encode_pair_def dest: escape_query_chars)
    ultimately show ?thesis by (simp add: kv unescape_escape)
  qed
  ultimately show ?thesis by (simp add: parse_query_def o_def concat_map_singleton)
qed

section \<open>Paths of plain segments\<close>

definition plain_segment :: "string \<Rightarrow> bool" where
  "plain_segment s \<longleftrightarrow> s \<noteq> [] \<and> CHR ''/'' \<notin> set s \<and> s \<noteq> ''.'' \<and> s \<noteq> ''..''"

lemma join_elems_plain:
  "\<forall>e\<in>set es. e \<noteq> [] \<Longrightarrow> buf \<noteq> [] \<Longrightarrow> join_elems buf es = join_with ''/'' (buf # es)"
proof (induction es arbitrary: buf)
  case (Cons e es)
  then have "join_elems buf (e # es) = join_with ''/'' ((buf @ ''/'' @ e) # es)" by simp
  also have "\<dots> = join_with ''/'' (buf # e # es)" by (cases es) simp_all
  finally show ?case .
qed simp

lemma clean_steps_plain:
  "\<forall>e\<in>set es. plain_segment e \<Longrightarrow> foldl (clean_step b) out es = rev es @ out"
  by (induction es arbitrary: out) (auto simp: plain_segment_def)

lemma path_clean_plain:
  assumes "es \<noteq> []" "\<forall>e\<in>set es. plain_segment e"
  shows "path_clean (join_with ''/'' es) = join_with ''/'' es"
proof -
  have sep: "\<forall>e\<in>set es. CHR ''/'' \<notin> set e" using assms by (auto simp: plain_segment_def)
  obtain e es' where es: "es = e # es'" using assms by (cases es) auto
  then have e: "e \<noteq> []" "CHR ''/'' \<notin> set e" using assms by (auto simp: plain_segment_def)
  obtain r where "join_with ''/'' es = e @ r" by (cases es') (auto simp: es)
  with e have "join_with ''/'' es \<noteq> []" "hd (join_with ''/'' es) \<noteq> CHR ''/''"
    by (metis append_is_Nil_conv, metis hd_append2 hd_in_set)
  then show ?thesis
    using assms by (simp add: path_clean_def split_at_join [OF assms(1) sep] clean_steps_plain)
qed

lemma path_join_plain:
  assumes "es \<noteq> []" "\<forall>e\<in>set es. plain_segment e"
  shows "path_join es = join_with ''/'' es"
proof -
  obtain e es' where es: "es = e # es'" using assms by (cases es) auto
  then have "e \<noteq> []" "\<forall>x\<in>set es'. x \<noteq> []" using assms by (auto simp: plain_segment_def)
  then show ?thesis
    using path_clean_plain [OF assms] by (simp add: path_join_def es join_elems_plain)
qed

lemma join_with_join:
  "xs \<noteq> [] \<Longrightarrow> ys \<noteq> [] \<Longrightarrow> join_with sep (xs @ ys) = join_with sep xs @ sep @ join_with sep ys"
proof (induction xs)
  case (Cons x xs)
  then show ?case by (cases "xs = []") (simp_all add: join_Cons)
qed simp

text \<open>Joining a prefix to an already joined path, as \<open>buildURL\<close> does.\<close>

lemma path_join_joined:
  assumes "plain_segment v" "es \<noteq> []" "\<forall>e\<in>set es. plain_segment e"
  shows "path_join [v, join_with ''/'' es] = join_with ''/'' (v # es)"
proof -
  have "join_with ''/'' es \<noteq> []"
    using assms(2,3) by (cases es; cases "tl es") (auto simp: plain_segment_def)
  moreover have "v \<noteq> []" using assms by (simp add: plain_segment_def)
  ultimately have "path_join [v, join_with ''/'' es] = path_clean (v @ ''/'' @ join_with ''/'' es)"
    by (simp add: path_join_def)
  also have "v @ ''/'' @ join_with ''/'' es = join_with ''/'' (v # es)"
    using assms(2) by (simp add: join_Cons)
  finally show ?thesis using path_clean_plain [of "v # es"] assms by simp
qed

end
