(* ===== verification/World.thy ===== *)
theory World
  imports Sdk_Types Go_Url
begin

text \<open>
  What the connector talks to, and the state its operations thread through. The network,
  the credential, the Azure Resource Manager (ARM) services, the HTTP cache backend and
  the random UUIDs are parameters: an environment of functions from the history of events
  (so a service may answer differently every time, and remember what was done to it). The
  world is that history, together with what the HTTP cache has been given.
\<close>

section \<open>Requests and responses\<close>

record request =
  req_method :: string
  req_url :: url
  req_headers :: "(string \<times> string) list"
  req_body :: string

text \<open>Of a response's header the code reads the content type and \<open>Retry-After\<close>.\<close>

record response =
  resp_status :: nat
  resp_status_text :: string
  resp_content_type :: string
  resp_retry_after :: string
  resp_body :: string

text \<open>
  The ways \<open>http.Client.Do\<close> and reading the body can fail, as \<open>BaseHttpClient.Do\<close>
  tells them apart; the strings are the URL and the text of the \<open>url.Error\<close>.
\<close>

datatype transport =
    Received response
  | TimedOut string string
  | TemporaryFailure string string
  | DeadlinePassed
  | TransportFailure error
  | BodyUnexpectedEOF response
  | BodyConnectionReset response
  | BodyFailure response error

section \<open>ARM values\<close>

text \<open>The fields are pointers to strings, None for nil.\<close>

record subscription =
  sub_id :: "string option"
  sub_display_name :: "string option"
  sub_state :: "string option"

record tenant_description =
  td_id :: "string option"
  td_tenant_id :: "string option"

record resource_group =
  rg_id :: "string option"
  rg_name :: "string option"
  rg_type :: "string option"
  rg_location :: "string option"

record role_properties =
  rp_role_name :: "string option"
  rp_description :: "string option"
  rp_role_type :: "string option"

record role_definition =
  rd_id :: "string option"
  rd_name :: "string option"
  rd_properties :: "role_properties option"

record assignment_properties =
  ap_principal_id :: "string option"
  ap_role_definition_id :: "string option"
  ap_scope :: "string option"

record role_assignment =
  ra_id :: "string option"
  ra_name :: "string option"
  ra_type :: "string option"
  ra_properties :: "assignment_properties option"

record 'a arm_page =
  page_value :: "'a list"
  page_next :: "string option"

section \<open>Events, the environment, the world\<close>

datatype arm_list =
    ListSubscriptions
  | ListTenants
  | ListResourceGroups string
  | ListRoleDefinitions string
  | ListRoleAssignments string
  | ListAssignmentsForScope string string

datatype event =
    TokenRequest "string list"
  | HttpEvent request
  | ArmPage arm_list "string option"
  | ArmCreate string string string string string
  | ArmDelete string string string

type_synonym history = "event list"

record env =
  env_http :: "history \<Rightarrow> request \<Rightarrow> transport"
  env_token :: "history \<Rightarrow> error + string"
  env_cache_retains :: "history \<Rightarrow> string \<Rightarrow> bool"
  env_xml_error :: "string \<Rightarrow> error option"
  env_arm_client :: "error option"
  env_subscriptions :: "history \<Rightarrow> string option \<Rightarrow> error + subscription arm_page"
  env_tenants :: "history \<Rightarrow> string option \<Rightarrow> error + tenant_description arm_page"
  env_resource_groups :: "string \<Rightarrow> history \<Rightarrow> string option \<Rightarrow> error + resource_group arm_page"
  env_role_definitions :: "string \<Rightarrow> history \<Rightarrow> string option \<Rightarrow> error + role_definition arm_page"
  env_role_assignments :: "string \<Rightarrow> history \<Rightarrow> string option \<Rightarrow> error + role_assignment arm_page"
  env_assignments_for_scope ::
    "string \<Rightarrow> string \<Rightarrow> history \<Rightarrow> string option \<Rightarrow> error + role_assignment arm_page"
  env_create_assignment :: "history \<Rightarrow> event \<Rightarrow> error + role_assignment"
  env_delete_assignment :: "history \<Rightarrow> event \<Rightarrow> error + role_assignment"
  env_uuid :: "history \<Rightarrow> string"
  env_parse_address :: "string \<Rightarrow> string option"
  env_max_pages :: nat

record world =
  history :: history
  http_cache :: "(string \<times> response) list"

definition log_event :: "event \<Rightarrow> 'z world_scheme \<Rightarrow> 'z world_scheme" where
  "log_event e w = w\<lparr>history := history w @ [e]\<rparr>"

section \<open>Operations with effects\<close>

type_synonym ('w, 'a) io = "'w \<Rightarrow> 'a outcome \<times> 'w"

definition return_io :: "'a \<Rightarrow> ('w, 'a) io" where
  "return_io x w = (Ok x, w)"

definition fail_io :: "error \<Rightarrow> ('w, 'a) io" where
  "fail_io e w = (Err e, w)"

definition lift_io :: "'a outcome \<Rightarrow> ('w, 'a) io" where
  "lift_io m w = (m, w)"

definition bind_io :: "('w, 'a) io \<Rightarrow> ('a \<Rightarrow> ('w, 'b) io) \<Rightarrow> ('w, 'b) io" where
  "bind_io m f w =
     (case m w of
        (Ok x, w') \<Rightarrow> f x w'
      | (Err e, w') \<Rightarrow> (Err e, w')
      | (Panic p, w') \<Rightarrow> (Panic p, w')
      | (Diverged, w') \<Rightarrow> (Diverged, w'))"

text \<open>Dereferencing a pointer.\<close>

definition deref :: "'a option \<Rightarrow> 'a outcome" where
  "deref p = (case p of None \<Rightarrow> Panic NilDereference | Some x \<Rightarrow> Ok x)"

definition of_sum :: "error + 'a \<Rightarrow> 'a outcome" where
  "of_sum s = (case s of Inl e \<Rightarrow> Err e | Inr x \<Rightarrow> Ok x)"

lemma deref_simps [simp]: "deref None = Panic NilDereference" "deref (Some x) = Ok x"
  by (simp_all add: deref_def)

lemma deref_eq_Ok [simp]: "deref p = Ok x \<longleftrightarrow> p = Some x"
  by (cases p) simp_all

lemma of_sum_simps [simp]: "of_sum (Inl e) = Err e" "of_sum (Inr x) = Ok x"
  by (simp_all add: of_sum_def)

lemma bind_io_simps [go_simps]:
  "m w = (Ok x, w') \<Longrightarrow> bind_io m f w = f x w'"
  "m w = (Err e, w') \<Longrightarrow> bind_io m f w = (Err e, w')"
  "m w = (Panic p, w') \<Longrightarrow> bind_io m f w = (Panic p, w')"
  "m w = (Diverged, w') \<Longrightarrow> bind_io m f w = (Diverged, w')"
  by (simp_all add: bind_io_def)

lemma io_simps [simp]:
  "bind_io (return_io x) f w = f x w"
  "bind_io (fail_io e) f w = (Err e, w)"
  "bind_io (lift_io (Ok x)) f w = f x w"
  "bind_io (lift_io (Err e)) f w = (Err e, w)"
  "bind_io (lift_io (Panic p)) f w = (Panic p, w)"
  by (simp_all add: bind_io_def return_io_def fail_io_def lift_io_def)

lemma bind_io_Ok_E:
  assumes "bind_io m f w = (Ok y, w'')"
  obtains x w' where "m w = (Ok x, w')" "f x w' = (Ok y, w'')"
  using assms by (auto simp: bind_io_def split: prod.splits outcome.splits)

lemma bind_io_assoc: "bind_io (bind_io m f) g w = bind_io m (\<lambda>x. bind_io (f x) g) w"
  by (simp add: bind_io_def split: prod.splits outcome.splits)

text \<open>A loop over a list that threads an accumulator.\<close>

fun fold_io :: "('s \<Rightarrow> 'a \<Rightarrow> ('w, 's) io) \<Rightarrow> 's \<Rightarrow> 'a list \<Rightarrow> ('w, 's) io" where
  "fold_io f s [] = return_io s"
| "fold_io f s (x # xs) = bind_io (f s x) (\<lambda>s'. fold_io f s' xs)"

section \<open>ARM pagers\<close>

text \<open>
  \<open>runtime.Pager\<close>: the first page is always fetched, a later one while the last page has a
  non-empty next link. The loop \<open>for pager.More() \<dots>\<close> runs its body on the values of
  each page; the body may leave the loop with a result. It gets a bound on the pages.
\<close>

datatype ('s, 'r) flow = Continue 's | Return 'r

definition page_more :: "'a arm_page \<Rightarrow> bool" where
  "page_more p = (case page_next p of None \<Rightarrow> False | Some l \<Rightarrow> l \<noteq> [])"

fun pager_loop ::
  "nat \<Rightarrow> (string option \<Rightarrow> ('w, 'a arm_page) io) \<Rightarrow> ('s \<Rightarrow> 'a list \<Rightarrow> ('w, ('s, 'r) flow) io)
    \<Rightarrow> ('s \<Rightarrow> 'r) \<Rightarrow> string option \<Rightarrow> 's \<Rightarrow> ('w, 'r) io"
where
  "pager_loop 0 fetch body fin cur s = lift_io Diverged"
| "pager_loop (Suc n) fetch body fin cur s =
     bind_io (fetch cur) (\<lambda>page.
     bind_io (body s (page_value page)) (\<lambda>fl.
       case fl of
         Return r \<Rightarrow> return_io r
       | Continue s' \<Rightarrow>
           if page_more page then pager_loop n fetch body fin (page_next page) s'
           else return_io (fin s')))"

definition arm_fetch ::
  "arm_list \<Rightarrow> (history \<Rightarrow> string option \<Rightarrow> error + 'a arm_page) \<Rightarrow> string option
    \<Rightarrow> ('z world_scheme, 'a arm_page) io"
where
  "arm_fetch l serve cur w = (of_sum (serve (history w) cur), log_event (ArmPage l cur) w)"

text \<open>Constructing an ARM client fails only when its pipeline cannot be made.\<close>

definition new_arm_client :: "env \<Rightarrow> ('w, unit) io" where
  "new_arm_client env =
     (case env_arm_client env of None \<Rightarrow> return_io () | Some e \<Rightarrow> fail_io e)"

definition create_assignment ::
  "env \<Rightarrow> string \<Rightarrow> string \<Rightarrow> string \<Rightarrow> string \<Rightarrow> string
    \<Rightarrow> 'z world_scheme \<Rightarrow> (error + role_assignment) \<times> 'z world_scheme"
where
  "create_assignment env sub scope name pid role_def w =
     (let e = ArmCreate sub scope name pid role_def
      in (env_create_assignment env (history w) e, log_event e w))"

definition delete_assignment ::
  "env \<Rightarrow> string \<Rightarrow> string \<Rightarrow> string \<Rightarrow> ('z world_scheme, role_assignment) io"
where
  "delete_assignment env sub scope name w =
     (let e = ArmDelete sub scope name
      in (of_sum (env_delete_assignment env (history w) e), log_event e w))"

section \<open>Services that serve a finite sequence of pages\<close>

text \<open>
  \<open>serves f ps\<close>: whatever the history, \<open>f\<close> answers the pages \<open>ps\<close>, each named by the next
  link of the one before it (the first by no link).
\<close>

fun serves_from ::
  "(history \<Rightarrow> string option \<Rightarrow> error + 'a arm_page) \<Rightarrow> string option \<Rightarrow> 'a arm_page list \<Rightarrow> bool"
where
  "serves_from f cur [] \<longleftrightarrow> False"
| "serves_from f cur [p] \<longleftrightarrow> (\<forall>h. f h cur = Inr p) \<and> \<not> page_more p"
| "serves_from f cur (p # q # ps) \<longleftrightarrow>
     (\<forall>h. f h cur = Inr p) \<and> page_more p \<and> serves_from f (page_next p) (q # ps)"

lemma arm_fetch_serves:
  "\<forall>h. f h cur = Inr p \<Longrightarrow> arm_fetch l f cur w = (Ok p, log_event (ArmPage l cur) w)"
  by (simp add: arm_fetch_def)

text \<open>The events of a loop that reads all the pages.\<close>

fun page_events :: "arm_list \<Rightarrow> string option \<Rightarrow> 'a arm_page list \<Rightarrow> event list" where
  "page_events l cur [] = []"
| "page_events l cur (p # ps) = ArmPage l cur # page_events l (page_next p) ps"

definition log_events :: "event list \<Rightarrow> 'z world_scheme \<Rightarrow> 'z world_scheme" where
  "log_events es w = w\<lparr>history := history w @ es\<rparr>"

lemma log_events_simps [simp]:
  "log_events [] w = w"
  "log_events es (log_events es' w) = log_events (es' @ es) w"
  "log_event e w = log_events [e] w"
  "history (log_events es w) = history w @ es"
  "http_cache (log_events es w) = http_cache w"
  by (simp_all add: log_events_def log_event_def)

text \<open>
  A loop whose body is pure (it folds the values of a page into its accumulator and always
  goes on) reads every page and returns the fold over all values.
\<close>

lemma pager_loop_pure:
  assumes "serves_from f cur ps" and "length ps \<le> n"
    and body: "\<And>s vs w. body s vs w = (Ok (Continue (foldl step s vs)), w)"
  shows "pager_loop n (arm_fetch l f) body fin cur s w =
    (Ok (fin (foldl step s (concat (map page_value ps)))), log_events (page_events l cur ps) w)"
  using assms(1,2)
proof (induction ps arbitrary: n cur s w)
  case (Cons p ps)
  then obtain m where n: "n = Suc m" by (cases n) auto
  show ?case
  proof (cases ps)
    case Nil
    with Cons.prems have "\<forall>h. f h cur = Inr p" "\<not> page_more p" by auto
    then show ?thesis
      by (simp add: n Nil bind_io_def arm_fetch_serves body return_io_def)
  next
    case (Cons q qs)
    with Cons.prems have f: "\<forall>h. f h cur = Inr p" "page_more p"
      and rest: "serves_from f (page_next p) ps" by auto
    have "pager_loop m (arm_fetch l f) body fin (page_next p) (foldl step s (page_value p))
            (log_events [ArmPage l cur] w) =
          (Ok (fin (foldl step (foldl step s (page_value p)) (concat (map page_value ps)))),
           log_events (page_events l (page_next p) ps) (log_events [ArmPage l cur] w))"
      using Cons.IH [OF rest] Cons.prems(2) n by simp
    with f show ?thesis
      by (simp add: n bind_io_def arm_fetch_serves
          body [of s "page_value p" "log_events [ArmPage l cur] w"])
  qed
qed simp

text \<open>
  A loop whose body appends what a page gives, under an invariant of the world that the
  body and the requests for pages keep.
\<close>

lemma pager_loop_collect:
  assumes "serves_from f cur ps" and "length ps \<le> n" and "I w"
    and log: "\<And>c w. I w \<Longrightarrow> I (log_event (ArmPage l c) w)"
    and body: "\<And>p rv w. p \<in> set ps \<Longrightarrow> I w \<Longrightarrow>
      \<exists>w'. body rv (page_value p) w = (Ok (Continue (rv @ F (page_value p))), w') \<and> I w'"
  shows "\<exists>w'. pager_loop n (arm_fetch l f) body fin cur rv w =
    (Ok (fin (rv @ concat (map (\<lambda>p. F (page_value p)) ps))), w') \<and> I w'"
  using assms(1-3) body
proof (induction ps arbitrary: n cur rv w)
  case (Cons p ps)
  then obtain m where n: "n = Suc m" by (cases n) auto
  have served: "\<forall>h. f h cur = Inr p" and more: "page_more p \<longleftrightarrow> ps \<noteq> []"
    using Cons.prems(1) by (cases ps; simp)+
  have fetch: "arm_fetch l f cur w = (Ok p, log_event (ArmPage l cur) w)"
    using served by (simp add: arm_fetch_def)
  obtain w1 where w1: "body rv (page_value p) (log_event (ArmPage l cur) w) =
      (Ok (Continue (rv @ F (page_value p))), w1)" "I w1"
    using Cons.prems(4) [OF _ log [OF Cons.prems(3)]] by fastforce
  have step: "pager_loop n (arm_fetch l f) body fin cur rv w =
      (if page_more p then pager_loop m (arm_fetch l f) body fin (page_next p) (rv @ F (page_value p)) w1
       else (Ok (fin (rv @ F (page_value p))), w1))"
    unfolding n pager_loop.simps bind_io_def [of "arm_fetch l f cur"] bind_io_def [of "body rv v" for v]
    by (simp only: fetch w1 prod.case outcome.case flow.case return_io_def split: if_split) simp
  show ?case
  proof (cases ps)
    case Nil
    with more w1(2) show ?thesis by (simp add: step)
  next
    case (Cons q qs)
    with Cons.prems(1) have "serves_from f (page_next p) ps" by simp
    from Cons.IH [OF this _ w1(2) Cons.prems(4), of m "rv @ F (page_value p)"] Cons.prems(2) n
    obtain w' where "pager_loop m (arm_fetch l f) body fin (page_next p) (rv @ F (page_value p)) w1 =
        (Ok (fin ((rv @ F (page_value p)) @ concat (map (\<lambda>p. F (page_value p)) ps))), w')" "I w'"
      by auto
    moreover have "page_more p" using more Cons by simp
    ultimately show ?thesis unfolding step by simp
  qed
qed simp

end
