(* ===== verification/Http_Client.thy ===== *)
theory Http_Client
  imports World
begin

text \<open>
  The Graph client of \<open>client_graph.go\<close> over the SDK's \<open>uhttp.BaseHttpClient\<close>:
  building URLs, request options, the cached \<open>Do\<close> with its mapping of status codes to
  errors, \<open>doRequest\<close>, \<open>query\<close>, and \<open>HTTPError\<close>.
\<close>

section \<open>Texts of errors, errors.Is, errors.As\<close>

fun code_name :: "grpc_code \<Rightarrow> string" where
  "code_name DeadlineExceeded = ''DeadlineExceeded''"
| "code_name Unavailable = ''Unavailable''"
| "code_name NotFoundCode = ''NotFound''"
| "code_name Unauthenticated = ''Unauthenticated''"
| "code_name PermissionDenied = ''PermissionDenied''"
| "code_name AlreadyExists = ''AlreadyExists''"
| "code_name Unimplemented = ''Unimplemented''"
| "code_name UnknownCode = ''Unknown''"

fun error_text :: "error \<Rightarrow> string" where
  "error_text ErrNotFound = ''microsoft-entra-client: 404 not found''"
| "error_text ErrNoResponse = ''HTTP request failed to supply a value''"
| "error_text ErrRequestFailed = ''HTTP request failed''"
| "error_text ErrFailedToParseRateLimit = ''failed to parse rate limit''"
| "error_text (ErrText t) = t"
| "error_text (ErrWrap t es) = t"
| "error_text (ErrJoin es) = join_with [CHR 0x0A] (map error_text es)"
| "error_text (ErrStatus c t) = ''rpc error: code = '' @ code_name c @ '' desc = '' @ t"
| "error_text (ErrResponse c t) = t"
| "error_text (ErrHTTP st raw ra rl e) =
     (case e of None \<Rightarrow> ''%!s(<nil>)'' | Some x \<Rightarrow> error_text x) @ '' '' @ itoa st @ '' '' @ raw"

text \<open>\<open>errors.Is\<close> looks through what \<open>%w\<close> and \<open>errors.Join\<close> wrap; \<open>HTTPError\<close> has no \<open>Unwrap\<close>.\<close>

fun errors_is :: "error \<Rightarrow> error \<Rightarrow> bool" where
  "errors_is (ErrWrap t es) target \<longleftrightarrow> list_ex (\<lambda>e. errors_is e target) es"
| "errors_is (ErrJoin es) target \<longleftrightarrow> list_ex (\<lambda>e. errors_is e target) es"
| "errors_is e target \<longleftrightarrow> e = target"

text \<open>\<open>errors.As\<close> for \<open>*azcore.ResponseError\<close>: the first one in the tree.\<close>

fun as_response_error :: "error \<Rightarrow> (nat \<times> string) option" where
  "as_response_error (ErrResponse c t) = Some (c, t)"
| "as_response_error (ErrWrap t es) =
     fold (\<lambda>e acc. case acc of Some x \<Rightarrow> Some x | None \<Rightarrow> as_response_error e) es None"
| "as_response_error (ErrJoin es) =
     fold (\<lambda>e acc. case acc of Some x \<Rightarrow> Some x | None \<Rightarrow> as_response_error e) es None"
| "as_response_error _ = None"

definition wrap_error :: "string \<Rightarrow> error \<Rightarrow> error" where
  "wrap_error prefix e = ErrWrap (prefix @ '': '' @ error_text e) [e]"

section \<open>HTTPError\<close>

definition new_http_error :: "response \<Rightarrow> string \<Rightarrow> error \<Rightarrow> error" where
  "new_http_error resp raw err =
     (let limited = (resp_status resp = 429);
          parsed = atoi (resp_retry_after resp);
          retry_after = (if limited then (case parsed of Some n \<Rightarrow> n | None \<Rightarrow> 0) else 0);
          inner = (if limited
                   then (case parsed of
                           Some n \<Rightarrow> None
                         | None \<Rightarrow>
                             (let e = ErrText (''strconv.Atoi: parsing: invalid syntax'')
                              in Some (ErrWrap (error_text e @ '': '' @ error_text ErrFailedToParseRateLimit)
                                         [e, ErrFailedToParseRateLimit])))
                   else Some err)
      in ErrHTTP (resp_status resp) raw retry_after
           (resp_status resp = 429 \<or> resp_status resp = 504) inner)"

section \<open>URLs of the Graph API\<close>

definition api_domain :: string where "api_domain = ''graph.microsoft.com''"
definition api_version :: string where "api_version = ''v1.0''"
definition beta_version :: string where "beta_version = ''beta''"

definition graph_url :: "string \<Rightarrow> string \<Rightarrow> url_values \<Rightarrow> url" where
  "graph_url version req_path v =
     empty_url\<lparr>url_scheme := ''https'', url_host := api_domain,
       url_path := path_join [version, req_path], url_raw_query := values_encode v\<rparr>"

definition build_url :: "string \<Rightarrow> url_values \<Rightarrow> string" where
  "build_url req_path v = url_string (graph_url api_version req_path v)"

definition build_beta_url :: "string \<Rightarrow> url_values \<Rightarrow> string" where
  "build_beta_url req_path v = url_string (graph_url beta_version req_path v)"

definition graph_read_scopes :: "string list" where
  "graph_read_scopes = [''https://graph.microsoft.com/.default'']"

section \<open>Requests\<close>

text \<open>
  The values the connector passes as a body: nil, the \<open>*bytes.Reader\<close> of
  \<open>MarshalToReader\<close>, a map. \<open>WithJSONBody\<close> encodes whatever it gets with
  \<open>json.NewEncoder\<close>: nil is \<open>null\<close>, and a \<open>*bytes.Reader\<close>, a struct without exported
  fields, is the empty object.
\<close>

datatype body = NoBody | ReaderBody string | MapBody "(string \<times> json) list"

fun body_value :: "body \<Rightarrow> json" where
  "body_value NoBody = JNull"
| "body_value (ReaderBody data) = JObj []"
| "body_value (MapBody kvs) = JObj kvs"

definition json_body :: "body \<Rightarrow> string" where
  "json_body b = json_print (body_value b) @ [CHR 0x0A]"

definition graph_headers :: "string \<Rightarrow> (string \<times> string) list" where
  "graph_headers token =
     assoc_set ''Content-Type'' ''application/json''
       (assoc_set ''Content-Type'' ''application/json''
         (assoc_set ''ConsistencyLevel'' ''eventual''
           (assoc_set ''Authorization'' (''Bearer '' @ token) [])))"

text \<open>\<open>http.NewRequestWithContext\<close> parses the URL's text again and drops an empty port.\<close>

definition remove_empty_port :: "string \<Rightarrow> string" where
  "remove_empty_port h =
     (case cut_last (CHR '':'') h of
        Some (a, p) \<Rightarrow> (if CHR '']'' \<notin> set p \<and> p = [] then a else h)
      | None \<Rightarrow> h)"

definition new_request :: "string \<Rightarrow> url \<Rightarrow> string \<Rightarrow> body \<Rightarrow> error + request" where
  "new_request meth u token b =
     bind_sum (url_parse (url_string u)) (\<lambda>u'.
       Inr \<lparr>req_method = meth, req_url = u'\<lparr>url_host := remove_empty_port (url_host u')\<rparr>,
           req_headers = graph_headers token, req_body = json_body b\<rparr>)"

section \<open>The response options\<close>

definition is_json_content_type :: "string \<Rightarrow> bool" where
  "is_json_content_type ct \<longleftrightarrow>
     (let c = trim_space (to_lower ct)
      in has_prefix c ''application'' \<and> str_contains c ''json'')"

definition is_xml_content_type :: "string \<Rightarrow> bool" where
  "is_xml_content_type ct \<longleftrightarrow>
     (let c = trim_space (to_lower ct)
      in has_prefix c ''text/xml'' \<or> has_prefix c ''application/xml'')"

definition log_body :: "string \<Rightarrow> string" where
  "log_body b = (if 4096 < length b then take 4096 b @ '' ...'' else b)"

text \<open>
  \<open>WithJSONResponse\<close> on a content type that is JSON (its caller has checked it): the
  target, or None for nil, with its new value and the error.
\<close>

definition with_json_response :: "'r decoder option \<Rightarrow> response \<Rightarrow> 'r \<Rightarrow> 'r \<times> error option" where
  "with_json_response target resp cur =
     (let unmarshal_err = (\<lambda>e. ErrWrap (''failed to unmarshal json response: '' @ error_text e
            @ ''. status code: '' @ itoa (resp_status resp) @ ''. body '' @ log_body (resp_body resp)) [e])
      in case target of
           None \<Rightarrow>
             if resp_body resp = [] then (cur, None)
             else (cur, Some (unmarshal_err
                    (if json_parse (resp_body resp) = None then syntax_error
                     else ErrText ''json: Unmarshal(nil)'')))
         | Some dec \<Rightarrow>
             (case json_unmarshal dec cur (resp_body resp) of
                (r, None) \<Rightarrow> (r, None)
              | (r, Some e) \<Rightarrow> (r, Some (unmarshal_err e))))"

definition with_response ::
  "env \<Rightarrow> 'r decoder option \<Rightarrow> response \<Rightarrow> 'r \<Rightarrow> 'r \<times> error option" where
  "with_response env target resp cur =
     (if is_json_content_type (resp_content_type resp) then with_json_response target resp cur
      else if is_xml_content_type (resp_content_type resp) then
        (if target = None \<and> resp_body resp = [] then (cur, None)
         else (cur, map_option (\<lambda>e. ErrWrap (''failed to unmarshal xml response: '' @ error_text e) [e])
                      (env_xml_error env (resp_body resp))))
      else (cur, Some (ErrStatus UnknownCode ''unsupported content type'')))"

section \<open>BaseHttpClient.Do\<close>

definition wrap_errors :: "grpc_code \<Rightarrow> string \<Rightarrow> error list \<Rightarrow> error" where
  "wrap_errors code msg errs =
     (if errs = [] then ErrStatus code msg else ErrJoin (ErrStatus code msg # errs))"

text \<open>The error of \<open>Do\<close> for a response it has read, from the status and the option errors.\<close>

definition status_result :: "response \<Rightarrow> error list \<Rightarrow> error option" where
  "status_result resp errs =
     (let st = resp_status resp; txt = resp_status_text resp in
      if st = 408 then Some (wrap_errors DeadlineExceeded txt errs)
      else if st \<in> {429, 502, 503} then Some (wrap_errors Unavailable txt errs)
      else if st = 404 then Some (wrap_errors NotFoundCode txt errs)
      else if st = 401 then Some (wrap_errors Unauthenticated txt errs)
      else if st = 403 then Some (wrap_errors PermissionDenied txt errs)
      else if st = 409 then Some (wrap_errors AlreadyExists txt errs)
      else if st = 501 then Some (wrap_errors Unimplemented txt errs)
      else if 500 \<le> st \<and> st \<le> 599 then Some (wrap_errors Unavailable txt errs)
      else if st < 200 \<or> 300 \<le> st then
        Some (wrap_errors UnknownCode txt (errs @ [ErrText (''unexpected status code: '' @ itoa st)]))
      else if errs = [] then None
      else Some (ErrJoin errs))"

text \<open>
  The key of a request in the HTTP cache: the path in lower case, the sorted query
  parameters and the sorted headers that count. Its SHA-256 is taken to be injective and
  left out.
\<close>

definition cache_key :: "request \<Rightarrow> string" where
  "cache_key req =
     (let params = sort (map (\<lambda>(k, v). k @ ''='' @ v) (parse_query (url_raw_query (req_url req))));
          hs = sort (map (\<lambda>(k, v). k @ ''='' @ v)
                 (filter (\<lambda>(k, v). k \<in> {''Accept'', ''Content-Type'', ''Cookie'', ''Range''})
                    (req_headers req)))
      in to_lower (url_path (req_url req)) @ ''?'' @ join_with ''&'' params
           @ ''&headers='' @ join_with ''&'' hs)"

text \<open>The backend may have dropped an entry (its age, its size, or no cache at all).\<close>

definition cache_get :: "env \<Rightarrow> request \<Rightarrow> 'z world_scheme \<Rightarrow> response option" where
  "cache_get env req w =
     (if env_cache_retains env (history w) (cache_key req)
      then map_of (http_cache w) (cache_key req) else None)"

definition cache_set :: "request \<Rightarrow> response \<Rightarrow> 'z world_scheme \<Rightarrow> 'z world_scheme" where
  "cache_set req resp w = w\<lparr>http_cache := assoc_set (cache_key req) resp (http_cache w)\<rparr>"

text \<open>Reading the body of what the network, or the cache, returned.\<close>

fun transport_response :: "transport \<Rightarrow> error + response" where
  "transport_response (Received r) = Inr r"
| "transport_response (TimedOut u t) =
     Inl (wrap_errors DeadlineExceeded (''request timeout: '' @ u) [ErrText t])"
| "transport_response (TemporaryFailure u t) =
     Inl (wrap_errors Unavailable (''temporary error: '' @ u) [ErrText t])"
| "transport_response DeadlinePassed = Inl (ErrStatus DeadlineExceeded ''request timeout'')"
| "transport_response (TransportFailure e) = Inl e"
| "transport_response (BodyUnexpectedEOF r) =
     Inl (wrap_errors Unavailable ''unexpected EOF'' [ErrText ''unexpected EOF''])"
| "transport_response (BodyConnectionReset r) =
     Inl (wrap_errors Unavailable ''connection reset'' [ErrText ''connection reset by peer''])"
| "transport_response (BodyFailure r e) = Inl e"

definition send :: "env \<Rightarrow> request \<Rightarrow> 'z world_scheme \<Rightarrow> (error + response) \<times> 'z world_scheme" where
  "send env req w =
     (transport_response (env_http env (history w) req), log_event (HttpEvent req) w)"

definition obtain_response ::
  "env \<Rightarrow> request \<Rightarrow> 'z world_scheme \<Rightarrow> (error + response) \<times> 'z world_scheme" where
  "obtain_response env req w =
     (if req_method req = ''GET'' then
        (case cache_get env req w of Some r \<Rightarrow> (Inr r, w) | None \<Rightarrow> send env req w)
      else send env req w)"

definition base_do ::
  "env \<Rightarrow> request \<Rightarrow> 'r decoder option \<Rightarrow> 'r \<Rightarrow> 'z world_scheme
    \<Rightarrow> ((error + response) \<times> 'r) \<times> 'z world_scheme"
where
  "base_do env req target cur w =
     (case obtain_response env req w of
        (Inl e, w1) \<Rightarrow> ((Inl e, cur), w1)
      | (Inr resp, w1) \<Rightarrow>
          (case with_response env target resp cur of (r, opt_err) \<Rightarrow>
            (let errs = (case opt_err of None \<Rightarrow> [] | Some e \<Rightarrow> [e]);
                 st = resp_status resp;
                 err = status_result resp errs;
                 cached = (req_method req = ''GET'' \<and> st = 200);
                 w2 = (if cached then cache_set req resp w1 else w1)
             in ((case err of Some e \<Rightarrow> Inl e | None \<Rightarrow> Inr resp, r), w2))))"

section \<open>doRequest and query\<close>

text \<open>
  \<open>doRequest\<close> after \<open>Do\<close> has returned a response without an error. Its first test makes
  the later ones for 404 and for codes outside the 2xx range unreachable; they are kept.
\<close>

definition check_response :: "string \<Rightarrow> url \<Rightarrow> bool \<Rightarrow> response \<Rightarrow> error option" where
  "check_response meth u has_res resp =
     (let st = resp_status resp; raw = resp_body resp in
      if st < 200 \<or> 300 \<le> st then
        Some (ErrWrap (''microsoft-azure-infrastructure: '' @ meth @ '', '' @ [CHR 0x27] @ url_string u
          @ [CHR 0x27] @ '', '' @ error_text ErrRequestFailed @ '': '' @ raw) [ErrRequestFailed])
      else if st = 404 then
        Some (ErrWrap (''microsoft-azure-infrastructure: '' @ meth @ '' '' @ [CHR 0x27] @ url_string u
          @ [CHR 0x27] @ '' '' @ error_text ErrNotFound) [ErrNotFound])
      else if has_res \<and> st \<noteq> 200 \<and> st \<noteq> 204 \<and> st \<noteq> 201 then
        Some (new_http_error resp raw ErrNoResponse)
      else if st \<noteq> 200 \<and> st \<noteq> 204 \<and> st \<noteq> 201 then
        Some (new_http_error resp raw ErrRequestFailed)
      else None)"

definition do_request ::
  "env \<Rightarrow> string \<Rightarrow> string \<Rightarrow> string \<Rightarrow> 'r decoder option \<Rightarrow> 'r \<Rightarrow> body \<Rightarrow> 'z world_scheme
    \<Rightarrow> (error option \<times> 'r) \<times> 'z world_scheme"
where
  "do_request env meth endpoint token target cur b w =
     (case url_parse endpoint of
        Inl e \<Rightarrow> ((Some e, cur), w)
      | Inr u \<Rightarrow>
          (case new_request meth u token b of
             Inl e \<Rightarrow> ((Some e, cur), w)
           | Inr req \<Rightarrow>
               (case base_do env req target cur w of
                  ((Inl e, r), w1) \<Rightarrow> ((Some e, r), w1)
                | ((Inr resp, r), w1) \<Rightarrow> ((check_response meth u (target \<noteq> None) resp, r), w1))))"

definition query ::
  "env \<Rightarrow> string list \<Rightarrow> string \<Rightarrow> string \<Rightarrow> body \<Rightarrow> 'r decoder option \<Rightarrow> 'r \<Rightarrow> 'z world_scheme
    \<Rightarrow> (error option \<times> 'r) \<times> 'z world_scheme"
where
  "query env scopes meth request_url b target cur w =
     (let w1 = log_event (TokenRequest scopes) w in
      case env_token env (history w) of
        Inl e \<Rightarrow> ((Some e, cur), w1)
      | Inr token \<Rightarrow> do_request env meth request_url token target cur b w1)"

text \<open>The shape most callers use: return the error, or go on with the decoded value.\<close>

definition query_value ::
  "env \<Rightarrow> string \<Rightarrow> string \<Rightarrow> body \<Rightarrow> 'r decoder \<Rightarrow> 'r \<Rightarrow> ('z world_scheme, 'r) io"
where
  "query_value env meth request_url b dec zero w =
     (case query env graph_read_scopes meth request_url b (Some dec) zero w of
        ((Some e, r), w1) \<Rightarrow> (Err e, w1)
      | ((None, r), w1) \<Rightarrow> (Ok r, w1))"

text \<open>A call with a nil result: only the error matters.\<close>

definition query_unit ::
  "env \<Rightarrow> string \<Rightarrow> string \<Rightarrow> body \<Rightarrow> 'z world_scheme \<Rightarrow> error option \<times> 'z world_scheme"
where
  "query_unit env meth request_url b w =
     (case query env graph_read_scopes meth request_url b (None :: unit decoder option) () w of
        ((e, _), w1) \<Rightarrow> (e, w1))"

end
