(* ===== verification/Pagination.thy ===== *)
theory Pagination
  imports Sdk_Types
begin

text \<open>
  The SDK's \<open>pagination.Bag\<close> (a stack of page states that is serialised into the opaque
  page token) and the connector's \<open>parsePageToken\<close>. The bag keeps its top in
  \<open>bag_current\<close> and the rest, deepest first, in \<open>bag_states\<close>, whose None is the nil
  slice. The text of a token is the JSON Go's encoder writes.
\<close>

section \<open>Page states and bags\<close>

record page_state =
  ps_token :: string
  ps_resource_type_id :: string
  ps_resource_id :: string

record bag =
  bag_states :: "page_state list option"
  bag_current :: "page_state option"

definition empty_bag :: bag where
  "empty_bag = \<lparr>bag_states = None, bag_current = None\<rparr>"

definition states_of :: "bag \<Rightarrow> page_state list" where
  "states_of b = (case bag_states b of None \<Rightarrow> [] | Some ss \<Rightarrow> ss)"

definition bag_push :: "page_state \<Rightarrow> bag \<Rightarrow> bag" where
  "bag_push s b =
     (case bag_current b of
        None \<Rightarrow> b\<lparr>bag_current := Some s\<rparr>
      | Some c \<Rightarrow> b\<lparr>bag_states := Some (states_of b @ [c]), bag_current := Some s\<rparr>)"

definition bag_pop :: "bag \<Rightarrow> page_state option \<times> bag" where
  "bag_pop b =
     (case bag_current b of
        None \<Rightarrow> (None, b)
      | Some c \<Rightarrow>
          (Some c,
           if states_of b \<noteq> []
           then b\<lparr>bag_current := Some (last (states_of b)), bag_states := Some (butlast (states_of b))\<rparr>
           else b\<lparr>bag_current := None\<rparr>))"

definition bag_page_token :: "bag \<Rightarrow> string" where
  "bag_page_token b = (case bag_current b of None \<Rightarrow> [] | Some c \<Rightarrow> ps_token c)"

section \<open>Serialisation\<close>

text \<open>The struct tags say \<open>omitempty\<close> for the fields of a page state.\<close>

definition omit_empty :: "string \<Rightarrow> string \<Rightarrow> (string \<times> json) list" where
  "omit_empty k s = (if s = [] then [] else [(k, JStr s)])"

definition page_state_json :: "page_state \<Rightarrow> json" where
  "page_state_json s =
     JObj (omit_empty ''token'' (ps_token s) @ omit_empty ''type'' (ps_resource_type_id s)
           @ omit_empty ''id'' (ps_resource_id s))"

definition bag_json :: "bag \<Rightarrow> json" where
  "bag_json b =
     JObj [(''states'', case bag_states b of None \<Rightarrow> JNull | Some ss \<Rightarrow> JArr (map page_state_json ss)),
           (''current_state'', case bag_current b of None \<Rightarrow> JNull | Some c \<Rightarrow> page_state_json c)]"

definition bag_marshal :: "bag \<Rightarrow> string" where
  "bag_marshal b = (if bag_current b = None then [] else json_print (bag_json b))"

definition zero_page_state :: page_state where
  "zero_page_state = \<lparr>ps_token = [], ps_resource_type_id = [], ps_resource_id = []\<rparr>"

definition page_state_fields :: "page_state fields" where
  "page_state_fields =
     [(''token'', dec_field ps_token (\<lambda>v s. s\<lparr>ps_token := v\<rparr>) dec_string),
      (''type'', dec_field ps_resource_type_id (\<lambda>v s. s\<lparr>ps_resource_type_id := v\<rparr>) dec_string),
      (''id'', dec_field ps_resource_id (\<lambda>v s. s\<lparr>ps_resource_id := v\<rparr>) dec_string)]"

text \<open>A slice that keeps nil and empty apart.\<close>

definition dec_nil_slice :: "'a \<Rightarrow> 'a decoder \<Rightarrow> 'a list option decoder" where
  "dec_nil_slice zero dec cur v =
     (case v of JNull \<Rightarrow> (None, None)
      | JArr _ \<Rightarrow> (case dec_slice zero dec [] v of (xs, e) \<Rightarrow> (Some xs, e))
      | _ \<Rightarrow> (cur, Some type_error))"

definition bag_fields :: "bag fields" where
  "bag_fields =
     [(''states'', dec_field bag_states (\<lambda>v b. b\<lparr>bag_states := v\<rparr>)
         (dec_nil_slice zero_page_state (dec_struct page_state_fields))),
      (''current_state'', dec_field bag_current (\<lambda>v b. b\<lparr>bag_current := v\<rparr>)
         (dec_ptr zero_page_state (dec_struct page_state_fields)))]"

definition wrap_corrupt :: "error \<Rightarrow> error" where
  "wrap_corrupt e = ErrWrap ''page token corrupt'' [e]"

definition bag_unmarshal :: "string \<Rightarrow> error + bag" where
  "bag_unmarshal input =
     (if input = [] then Inr empty_bag
      else (case json_unmarshal (dec_struct bag_fields) empty_bag input of
              (b, None) \<Rightarrow> Inr b
            | (b, Some e) \<Rightarrow> Inl (wrap_corrupt e)))"

definition bag_next_token :: "string \<Rightarrow> bag \<Rightarrow> string \<times> bag" where
  "bag_next_token page_token b =
     (case bag_current b of
        None \<Rightarrow>
          (let b' = b\<lparr>bag_current := Some (zero_page_state\<lparr>ps_token := page_token\<rparr>)\<rparr>
           in (bag_marshal b', b'))
      | Some _ \<Rightarrow>
          (case bag_pop b of
             (Some st, b1) \<Rightarrow>
               (let b2 = (if page_token \<noteq> [] then bag_push (st\<lparr>ps_token := page_token\<rparr>) b1 else b1)
                in (bag_marshal b2, b2))
           | (None, b1) \<Rightarrow> (bag_marshal b1, b1)))"

text \<open>\<open>parsePageToken\<close>: an empty token starts with one state of the given resource type.\<close>

definition parse_page_token :: "string \<Rightarrow> resource_id \<Rightarrow> error + bag" where
  "parse_page_token i rid =
     bind_sum (bag_unmarshal i) (\<lambda>b.
       Inr (if bag_current b = None
            then bag_push \<lparr>ps_token = [], ps_resource_type_id = rid_type rid,
                           ps_resource_id = rid_resource rid\<rparr> b
            else b))"

section \<open>The bag as a stack\<close>

text \<open>What a bag stands for: the stack of its states, the top first.\<close>

definition bag_stack :: "bag \<Rightarrow> page_state list" where
  "bag_stack b = (case bag_current b of None \<Rightarrow> [] | Some c \<Rightarrow> c # rev (states_of b))"

definition bag_wf :: "bag \<Rightarrow> bool" where
  "bag_wf b \<longleftrightarrow> (bag_current b = None \<longrightarrow> states_of b = [])"

definition stack_next :: "string \<Rightarrow> page_state list \<Rightarrow> page_state list" where
  "stack_next t st =
     (case st of [] \<Rightarrow> [zero_page_state\<lparr>ps_token := t\<rparr>]
      | s # rest \<Rightarrow> (if t = [] then rest else s\<lparr>ps_token := t\<rparr> # rest))"

lemma bag_wf_empty [simp]: "bag_wf empty_bag"
  by (simp add: bag_wf_def empty_bag_def states_of_def)

lemma bag_stack_empty [simp]: "bag_stack empty_bag = []"
  by (simp add: bag_stack_def empty_bag_def)

lemma bag_push_stack: "bag_wf b \<Longrightarrow> bag_stack (bag_push s b) = s # bag_stack b \<and> bag_wf (bag_push s b)"
  by (auto simp: bag_stack_def bag_push_def bag_wf_def states_of_def split: option.splits)

lemma bag_pop_stack:
  "bag_wf b \<Longrightarrow> bag_pop b = (r, b') \<Longrightarrow>
    r = (case bag_stack b of [] \<Rightarrow> None | s # _ \<Rightarrow> Some s) \<and> bag_stack b' = tl (bag_stack b) \<and> bag_wf b'"
  by (auto simp: bag_stack_def bag_pop_def bag_wf_def states_of_def rev_swap butlast_rev last_rev
      split: option.splits if_splits) (metis append_butlast_last_id rev.simps(2) rev_rev_ident rev_append)+

lemma bag_next_token_stack:
  assumes "bag_wf b" and "bag_next_token t b = (tok, b')"
  shows "bag_stack b' = stack_next t (bag_stack b) \<and> bag_wf b' \<and> tok = bag_marshal b'"
proof (cases "bag_current b")
  case None
  with assms show ?thesis
    by (auto simp: bag_next_token_def Let_def bag_stack_def bag_wf_def stack_next_def states_of_def)
next
  case (Some c)
  obtain r b1 where p: "bag_pop b = (r, b1)" by (cases "bag_pop b")
  have st: "bag_stack b = c # tl (bag_stack b)" using Some by (simp add: bag_stack_def)
  with bag_pop_stack [OF assms(1) p] have r: "r = Some c" and b1: "bag_stack b1 = tl (bag_stack b)" "bag_wf b1"
    by (metis list.simps(5))+
  have "bag_stack (bag_push s b1) = s # tl (bag_stack b)" "bag_wf (bag_push s b1)" for s
    using bag_push_stack [OF b1(2)] b1(1) by simp_all
  then show ?thesis
    using assms(2) Some p r b1 st
    by (cases "bag_stack b") (auto simp: bag_next_token_def Let_def stack_next_def split: if_splits)
qed

section \<open>Round trip\<close>

text \<open>Go's encoder replaces bytes that are not UTF-8, so a token is exact for valid text.\<close>

definition page_state_ok :: "page_state \<Rightarrow> bool" where
  "page_state_ok s \<longleftrightarrow>
     valid_utf8 (ps_token s) \<and> valid_utf8 (ps_resource_type_id s) \<and> valid_utf8 (ps_resource_id s)"

definition bag_ok :: "bag \<Rightarrow> bool" where
  "bag_ok b \<longleftrightarrow>
     list_all page_state_ok (states_of b) \<and> (case bag_current b of None \<Rightarrow> True | Some c \<Rightarrow> page_state_ok c)"

lemma json_ok_page_state: "page_state_ok s \<Longrightarrow> json_ok (page_state_json s)"
  by (auto simp: page_state_json_def page_state_ok_def omit_empty_def valid_utf8_ascii)

lemma json_ok_bag: "bag_ok b \<Longrightarrow> json_ok (bag_json b)"
  by (auto simp: bag_json_def bag_ok_def valid_utf8_ascii states_of_def json_ok_page_state list_all_iff
      split: option.splits)

lemma to_lower_keys [simp]:
  "to_lower ''token'' = ''token''" "to_lower ''type'' = ''type''" "to_lower ''id'' = ''id''"
  "to_lower ''states'' = ''states''" "to_lower ''current_state'' = ''current_state''"
  by (simp_all add: to_lower_def lower_char_def)

lemma decode_page_state:
  "dec_struct page_state_fields zero_page_state (page_state_json s) = (s, None)"
  by (simp add: page_state_json_def omit_empty_def page_state_fields_def dec_field_def zero_page_state_def)

lemma first_error_none: "first_error (map (\<lambda>x. None) xs) = None"
  by (induction xs) simp_all

lemma decode_states:
  "dec_nil_slice zero_page_state (dec_struct page_state_fields) cur
     (case ss of None \<Rightarrow> JNull | Some xs \<Rightarrow> JArr (map page_state_json xs)) = (ss, None)"
  by (cases ss)
     (simp_all add: dec_nil_slice_def dec_slice_def decode_page_state o_def first_error_none)

lemma decode_current:
  "dec_ptr zero_page_state (dec_struct page_state_fields) None
     (case c of None \<Rightarrow> JNull | Some x \<Rightarrow> page_state_json x) = (c, None)"
proof (cases c)
  case (Some x)
  obtain kvs where "page_state_json x = JObj kvs" by (simp add: page_state_json_def)
  with Some decode_page_state [of x] show ?thesis by (simp add: dec_ptr_def)
qed (simp add: dec_ptr_def)

lemma decode_bag: "dec_struct bag_fields empty_bag (bag_json b) = (b, None)"
  by (simp add: bag_json_def bag_fields_def dec_field_def decode_states decode_current empty_bag_def)

text \<open>A token gives back the bag it was made from.\<close>

lemma bag_unmarshal_marshal:
  assumes "bag_ok b" and "bag_current b \<noteq> None"
  shows "bag_unmarshal (bag_marshal b) = Inr b"
proof -
  have "json_print (bag_json b) \<noteq> []" by (simp add: bag_json_def)
  moreover obtain c where "bag_current b = Some c" using assms(2) by auto
  ultimately show ?thesis
    using json_parse_print [OF json_ok_bag [OF assms(1)]]
    by (simp add: bag_unmarshal_def bag_marshal_def json_unmarshal_def decode_bag)
qed

lemma parse_page_token_marshal:
  assumes "bag_ok b" and "bag_current b \<noteq> None"
  shows "parse_page_token (bag_marshal b) rid = Inr b"
  using bag_unmarshal_marshal [OF assms] assms(2) by (auto simp: parse_page_token_def)

text \<open>A parsed page token always has a current state.\<close>

lemma parse_page_token_current:
  "parse_page_token i rid = Inr b \<Longrightarrow> bag_current b \<noteq> None"
  by (cases "bag_unmarshal i") (auto simp: parse_page_token_def bag_push_def split: if_splits option.splits)

section \<open>Bags that come from a token are exact\<close>

lemma page_state_fields_keep:
  "d \<in> snd ` set page_state_fields \<Longrightarrow> page_state_ok s \<Longrightarrow> json_valid v \<Longrightarrow> d s v = (s', e) \<Longrightarrow>
    page_state_ok s'"
  by (auto simp: page_state_fields_def page_state_ok_def dec_field_def split: prod.splits)
    (metis dec_string_keeps)+

lemma dec_page_state_keeps:
  "json_valid v \<Longrightarrow> page_state_ok s \<Longrightarrow> dec_struct page_state_fields s v = (s', e) \<Longrightarrow> page_state_ok s'"
  by (rule dec_struct_keeps [where P = page_state_ok and fs = page_state_fields])
    (auto intro: page_state_fields_keep)

lemma page_state_ok_zero [simp]: "page_state_ok zero_page_state"
  by (simp add: page_state_ok_def zero_page_state_def)

lemma dec_states_keep:
  assumes "json_valid v" and "list_all page_state_ok (case cur of None \<Rightarrow> [] | Some ss \<Rightarrow> ss)"
    and "dec_nil_slice zero_page_state (dec_struct page_state_fields) cur v = (ss, e)"
  shows "list_all page_state_ok (case ss of None \<Rightarrow> [] | Some xs \<Rightarrow> xs)"
proof (cases v)
  case (JArr vs)
  have "page_state_ok (fst (dec_struct page_state_fields zero_page_state x))" if "x \<in> set vs" for x
    using that assms(1) JArr dec_page_state_keeps [of x zero_page_state]
    by (cases "dec_struct page_state_fields zero_page_state x") auto
  with assms(3) JArr show ?thesis
    by (auto simp: dec_nil_slice_def dec_slice_def list_all_iff)
qed (use assms in \<open>auto simp: dec_nil_slice_def\<close>)

lemma dec_current_keeps:
  assumes "json_valid v" and "pred_option page_state_ok cur"
    and "dec_ptr zero_page_state (dec_struct page_state_fields) cur v = (c, e)"
  shows "pred_option page_state_ok c"
proof (cases "v = JNull")
  case True
  with assms show ?thesis by (simp add: dec_ptr_def)
next
  case False
  obtain s e' where s: "dec_struct page_state_fields (case cur of Some x \<Rightarrow> x | None \<Rightarrow> zero_page_state) v = (s, e')"
    by fastforce
  have "page_state_ok s"
    by (rule dec_page_state_keeps [OF assms(1) _ s]) (use assms(2) in \<open>auto split: option.splits\<close>)
  moreover have "c = Some s" using False assms(3) s by (cases v) (auto simp: dec_ptr_def)
  ultimately show ?thesis by simp
qed

lemma bag_ok_alt:
  "bag_ok b \<longleftrightarrow> list_all page_state_ok (case bag_states b of None \<Rightarrow> [] | Some ss \<Rightarrow> ss)
     \<and> pred_option page_state_ok (bag_current b)"
  by (cases "bag_current b") (simp_all add: bag_ok_def states_of_def)

lemma bag_ok_empty [simp]: "bag_ok empty_bag"
  by (simp add: bag_ok_alt empty_bag_def)

lemma bag_fields_keep:
  assumes "d \<in> snd ` set bag_fields" and "bag_ok b" and "json_valid v" and "d b v = (b', e)"
  shows "bag_ok b'"
  using assms dec_states_keep [OF assms(3)] dec_current_keeps [OF assms(3)]
  by (auto simp: bag_fields_def bag_ok_alt dec_field_def split: prod.splits)

lemma bag_unmarshal_ok: "bag_unmarshal t = Inr b \<Longrightarrow> bag_ok b"
proof -
  assume a: "bag_unmarshal t = Inr b"
  show "bag_ok b"
  proof (cases "t = []")
    case False
    with a have u: "json_unmarshal (dec_struct bag_fields) empty_bag t = (b, None)"
      by (auto simp: bag_unmarshal_def split: prod.splits option.splits)
    show ?thesis
    proof (rule json_unmarshal_keeps [OF _ _ u])
      fix v r' e
      assume v: "json_valid v" and d: "dec_struct bag_fields empty_bag v = (r', e)"
      show "bag_ok r'"
        by (rule dec_struct_keeps [where P = bag_ok, OF _ v _ d]) (auto intro: bag_fields_keep)
    qed simp
  qed (use a in \<open>simp add: bag_unmarshal_def\<close>)
qed

lemma bag_push_ok: "bag_ok b \<Longrightarrow> page_state_ok s \<Longrightarrow> bag_ok (bag_push s b)"
  by (auto simp: bag_push_def bag_ok_def states_of_def list_all_iff split: option.splits)

lemma bag_pop_ok:
  assumes "bag_ok b" and "bag_pop b = (r, b')"
  shows "bag_ok b' \<and> pred_option page_state_ok r"
proof (cases "bag_current b")
  case None
  with assms show ?thesis by (simp add: bag_pop_def)
next
  case (Some c)
  have ss: "list_all page_state_ok (states_of b)" "page_state_ok c"
    using assms(1) Some by (simp_all add: bag_ok_def)
  show ?thesis
  proof (cases "states_of b = []")
    case True
    with assms(2) Some have "r = Some c" "b' = b\<lparr>bag_current := None\<rparr>"
      by (simp_all add: bag_pop_def)
    with True ss show ?thesis by (simp add: bag_ok_def states_of_def)
  next
    case False
    have "list_all page_state_ok (butlast (states_of b))" "page_state_ok (last (states_of b))"
      using ss False by (auto simp: list_all_iff dest: in_set_butlastD)
    moreover have "r = Some c"
        "b' = b\<lparr>bag_current := Some (last (states_of b)), bag_states := Some (butlast (states_of b))\<rparr>"
      using assms(2) Some False by (simp_all add: bag_pop_def)
    ultimately show ?thesis using ss by (simp add: bag_ok_alt)
  qed
qed

lemma bag_next_token_ok:
  assumes "bag_ok b" and "valid_utf8 t" and "bag_next_token t b = (tok, b')"
  shows "bag_ok b'"
proof (cases "bag_current b")
  case None
  with assms show ?thesis
    by (auto simp: bag_next_token_def Let_def bag_ok_def states_of_def page_state_ok_def
        zero_page_state_def)
next
  case (Some c)
  obtain r b1 where p: "bag_pop b = (r, b1)" by fastforce
  with Some have r: "r = Some c" by (auto simp: bag_pop_def)
  with bag_pop_ok [OF assms(1) p] have ok: "bag_ok b1" "page_state_ok c" by simp_all
  then have "page_state_ok (c\<lparr>ps_token := t\<rparr>)" using assms(2) by (simp add: page_state_ok_def)
  with assms(3) Some p r ok show ?thesis
    by (auto simp: bag_next_token_def Let_def intro: bag_push_ok split: if_splits)
qed

text \<open>The bags a method works on: valid text, a current state, no states without one.\<close>

definition bag_live :: "bag \<Rightarrow> bool" where
  "bag_live b \<longleftrightarrow> bag_ok b \<and> bag_wf b \<and> bag_current b \<noteq> None"

lemma bag_marshal_nonempty: "bag_current b \<noteq> None \<Longrightarrow> bag_marshal b \<noteq> []"
  by (auto simp: bag_marshal_def bag_json_def)

lemma bag_wf_stack: "bag_wf b \<Longrightarrow> bag_current b = None \<longleftrightarrow> bag_stack b = []"
  by (auto simp: bag_stack_def bag_wf_def split: option.splits)

text \<open>Moving on from a live bag: the token is empty, or stands for the next live bag.\<close>

lemma bag_next_token_live:
  assumes "bag_live b" and "valid_utf8 t" and "bag_next_token t b = (tok, b')"
  shows "if bag_current b' = None then tok = [] else bag_live b' \<and> tok = bag_marshal b'"
  using bag_next_token_stack [OF _ assms(3)] bag_next_token_ok [OF _ assms(2,3)] assms(1)
  by (auto simp: bag_live_def bag_marshal_def)

end
