(* ===== verification/Slices.thy ===== *)
theory Slices
  imports Prelude
begin

text \<open>
  The generic \<open>Convert\<close> and \<open>ConvertErr\<close> of \<open>pkg/internal/slices\<close>. The type of the results
  is a pointer wherever the connector calls them, so a result is an option, None for the
  nil that is left out. The function may fail or panic: its result is an outcome.
\<close>

fun convert :: "('a \<Rightarrow> 'r option) \<Rightarrow> 'a list \<Rightarrow> 'r list" where
  "convert f [] = []"
| "convert f (t # ts) =
     (case f t of None \<Rightarrow> convert f ts | Some r \<Rightarrow> r # convert f ts)"

text \<open>The loop of \<open>ConvertErr\<close>, with the slice built so far.\<close>

fun convert_err_loop :: "('a \<Rightarrow> 'r option outcome) \<Rightarrow> 'r list \<Rightarrow> 'a list \<Rightarrow> 'r list outcome" where
  "convert_err_loop f ret [] = Ok ret"
| "convert_err_loop f ret (t # ts) =
     bind_outcome (f t) (\<lambda>x.
       convert_err_loop f (case x of None \<Rightarrow> ret | Some r \<Rightarrow> ret @ [r]) ts)"

definition convert_err :: "('a \<Rightarrow> 'r option outcome) \<Rightarrow> 'a list \<Rightarrow> 'r list outcome" where
  "convert_err f ts = convert_err_loop f [] ts"

text \<open>A conversion that never gives nil.\<close>

definition convert_all :: "('a \<Rightarrow> 'r outcome) \<Rightarrow> 'a list \<Rightarrow> 'r list outcome" where
  "convert_all f ts = convert_err (\<lambda>t. bind_outcome (f t) (\<lambda>r. Ok (Some r))) ts"

lemma convert_err_loop_acc:
  "convert_err_loop f ret ts = bind_outcome (convert_err_loop f [] ts) (\<lambda>rs. Ok (ret @ rs))"
proof (induction ts arbitrary: ret)
  case (Cons t ts)
  show ?case
  proof (cases "f t")
    case (Ok x)
    show ?thesis
    proof (cases x)
      case None
      with Ok show ?thesis using Cons [of ret] by simp
    next
      case (Some r)
      show ?thesis
        using Cons [of "ret @ [r]"] Cons [of "[r]"] by (simp add: Ok Some)
    qed
  qed simp_all
qed simp

lemma convert_err_simps [simp]:
  "convert_err f [] = Ok []"
  "convert_err f (t # ts) =
     bind_outcome (f t) (\<lambda>x. bind_outcome (convert_err f ts)
       (\<lambda>rs. Ok (case x of None \<Rightarrow> rs | Some r \<Rightarrow> r # rs)))"
proof -
  show "convert_err f (t # ts) =
     bind_outcome (f t) (\<lambda>x. bind_outcome (convert_err f ts)
       (\<lambda>rs. Ok (case x of None \<Rightarrow> rs | Some r \<Rightarrow> r # rs)))"
  proof (cases "f t")
    case (Ok x)
    then show ?thesis
      using convert_err_loop_acc [of f "case x of None \<Rightarrow> [] | Some r \<Rightarrow> [r]" ts]
      by (cases x; cases "convert_err_loop f [] ts") (simp_all add: convert_err_def)
  qed (simp_all add: convert_err_def)
qed (simp add: convert_err_def)

lemma convert_all_simps [simp]:
  "convert_all f [] = Ok []"
  "convert_all f (t # ts) =
     bind_outcome (f t) (\<lambda>r. bind_outcome (convert_all f ts) (\<lambda>rs. Ok (r # rs)))"
  by (simp_all add: convert_all_def)

lemma convert_append: "convert f (xs @ ys) = convert f xs @ convert f ys"
  by (induction xs) (simp_all split: option.split)

lemma convert_map_filter: "convert f ts = List.map_filter f ts"
  by (induction ts) (simp_all add: List.map_filter_simps split: option.split)

lemma set_convert: "set (convert f ts) = {r. \<exists>t\<in>set ts. f t = Some r}"
  by (induction ts) (auto split: option.split)

text \<open>Without errors \<open>ConvertErr\<close> is \<open>Convert\<close>.\<close>

lemma convert_err_total:
  "(\<And>t. t \<in> set ts \<Longrightarrow> f t = Ok (g t)) \<Longrightarrow> convert_err f ts = Ok (convert g ts)"
  by (induction ts) (simp_all split: option.split)

lemma convert_all_total:
  "(\<And>t. t \<in> set ts \<Longrightarrow> f t = Ok (g t)) \<Longrightarrow> convert_all f ts = Ok (map g ts)"
  by (induction ts) simp_all

lemma convert_all_Ok:
  "convert_all f ts = Ok rs \<longleftrightarrow> list_all2 (\<lambda>t r. f t = Ok r) ts rs"
proof (induction ts arbitrary: rs)
  case (Cons t ts)
  then show ?case by (cases rs) auto
qed auto

text \<open>The first failure ends the conversion and is its result.\<close>

lemma convert_err_prefix:
  "(\<And>t. t \<in> set ts \<Longrightarrow> f t = Ok (g t)) \<Longrightarrow>
    convert_err f (ts @ us) = bind_outcome (convert_err f us) (\<lambda>rs. Ok (convert g ts @ rs))"
proof (induction ts)
  case Nil
  then show ?case by (cases "convert_err f us") simp_all
next
  case (Cons t ts)
  then show ?case by (cases "convert_err f us") (simp_all split: option.split)
qed

lemma convert_err_Ok:
  "convert_err f ts = Ok rs \<longleftrightarrow>
    (\<exists>g. (\<forall>t\<in>set ts. f t = Ok (g t)) \<and> rs = convert g ts)"
proof (induction ts arbitrary: rs)
  case (Cons t ts)
  show ?case
  proof
    assume a: "convert_err f (t # ts) = Ok rs"
    then obtain x rs' where x: "f t = Ok x" "convert_err f ts = Ok rs'"
        "rs = (case x of None \<Rightarrow> rs' | Some r \<Rightarrow> r # rs')" by auto
    with Cons.IH obtain g where g: "\<forall>t\<in>set ts. f t = Ok (g t)" "rs' = convert g ts" by blast
    let ?h = "g(t := x)"
    have h: "\<forall>u\<in>set (t # ts). f u = Ok (?h u)" using g(1) x(1) by auto
    have "convert_err f ts = Ok (convert ?h ts)"
      by (rule convert_err_total) (use h in auto)
    with x(2) g(2) have "convert ?h ts = convert g ts" by simp
    with x(3) g(2) have "rs = convert ?h (t # ts)" by (cases x) simp_all
    with h show "\<exists>g. (\<forall>t\<in>set (t # ts). f t = Ok (g t)) \<and> rs = convert g (t # ts)" by blast
  next
    assume "\<exists>g. (\<forall>t\<in>set (t # ts). f t = Ok (g t)) \<and> rs = convert g (t # ts)"
    then obtain g where "\<forall>t\<in>set (t # ts). f t = Ok (g t)" "rs = convert g (t # ts)" by blast
    then show "convert_err f (t # ts) = Ok rs"
      using convert_err_total [of "t # ts" f g] by blast
  qed
qed auto

end
