(* ===== verification/Connector_Model.thy ===== *)
theory Connector_Model
  imports Http_Client Pagination Slices
begin

text \<open>
  The connector's data: the resource types of \<open>resource_types.go\<close>, the Graph objects of
  \<open>model.go\<close> with the decoders their JSON tags define, the fields of \<open>Connector\<close> its
  operations read, and the state of its builders (the two caches) on top of the world.
  Each decoder lists the JSON names of a struct's fields in the order of the struct.
\<close>

section \<open>Resource types\<close>

definition user_resource_type :: resource_type where
  "user_resource_type = \<lparr>rty_id = ''user'', rty_display_name = ''User of Azure Infrastructure'',
     rty_description = [], rty_traits = [TraitUser], rty_annotations = []\<rparr>"

definition group_resource_type :: resource_type where
  "group_resource_type = \<lparr>rty_id = ''group'', rty_display_name = ''Group of Azure Infrastructure'',
     rty_description = [], rty_traits = [TraitGroup], rty_annotations = []\<rparr>"

definition enterprise_application_resource_type :: resource_type where
  "enterprise_application_resource_type = \<lparr>rty_id = ''enterprise_application'',
     rty_display_name = ''Enterprise Application of Azure Infrastructure'',
     rty_description = [], rty_traits = [TraitApp], rty_annotations = []\<rparr>"

definition managed_identity_resource_type :: resource_type where
  "managed_identity_resource_type = \<lparr>rty_id = ''managed_identity'',
     rty_display_name = ''Managed Identity of Azure Infrastructure'',
     rty_description = [], rty_traits = [TraitUser],
     rty_annotations = [SkipEntitlementsAndGrants]\<rparr>"

definition subscriptions_resource_type :: resource_type where
  "subscriptions_resource_type = \<lparr>rty_id = ''subscription'',
     rty_display_name = ''Subscription of Azure Infrastructure'',
     rty_description = [], rty_traits = [TraitApp], rty_annotations = []\<rparr>"

definition tenant_resource_type :: resource_type where
  "tenant_resource_type = \<lparr>rty_id = ''tenant'', rty_display_name = ''Tenant of Azure Infrastructure'',
     rty_description = [], rty_traits = [], rty_annotations = []\<rparr>"

definition resource_group_resource_type :: resource_type where
  "resource_group_resource_type = \<lparr>rty_id = ''resource_group'',
     rty_display_name = ''Resource Group of Azure Infrastructure'',
     rty_description = [], rty_traits = [TraitGroup], rty_annotations = []\<rparr>"

definition role_assignment_resource_group_type :: resource_type where
  "role_assignment_resource_group_type = \<lparr>rty_id = ''resource_group_role_assignment'',
     rty_display_name = ''Role Assignment Resource Group of Azure Infrastructure'',
     rty_description = [], rty_traits = [TraitGroup], rty_annotations = []\<rparr>"

definition role_resource_type :: resource_type where
  "role_resource_type = \<lparr>rty_id = ''role'', rty_display_name = ''Role'',
     rty_description = ''Role of Azure Infrastructure'', rty_traits = [TraitRole],
     rty_annotations = []\<rparr>"

lemma rty_ids [simp]:
  "rty_id user_resource_type = ''user''"
  "rty_id group_resource_type = ''group''"
  "rty_id enterprise_application_resource_type = ''enterprise_application''"
  "rty_id managed_identity_resource_type = ''managed_identity''"
  "rty_id subscriptions_resource_type = ''subscription''"
  "rty_id tenant_resource_type = ''tenant''"
  "rty_id resource_group_resource_type = ''resource_group''"
  "rty_id role_assignment_resource_group_type = ''resource_group_role_assignment''"
  "rty_id role_resource_type = ''role''"
  by (simp_all add: user_resource_type_def group_resource_type_def
      enterprise_application_resource_type_def managed_identity_resource_type_def
      subscriptions_resource_type_def tenant_resource_type_def resource_group_resource_type_def
      role_assignment_resource_group_type_def role_resource_type_def)

section \<open>Constants of the builders\<close>

definition odata_type_group :: string where "odata_type_group = ''#microsoft.graph.group''"
definition odata_type_user :: string where "odata_type_user = ''#microsoft.graph.user''"
definition odata_type_service_principal :: string where
  "odata_type_service_principal = ''#microsoft.graph.servicePrincipal''"
definition odata_type_device :: string where "odata_type_device = ''#microsoft.graph.device''"
definition sp_type_application :: string where "sp_type_application = ''Application''"
definition sp_type_managed_identity :: string where "sp_type_managed_identity = ''ManagedIdentity''"
definition sp_type_legacy :: string where "sp_type_legacy = ''Legacy''"
definition sp_type_social_idp :: string where "sp_type_social_idp = ''SocialIdp''"
definition type_owners :: string where "type_owners = ''owners''"
definition type_members :: string where "type_members = ''members''"
definition type_assigned :: string where "type_assigned = ''assigned''"

lemmas type_constants =
  odata_type_group_def odata_type_user_def odata_type_service_principal_def odata_type_device_def
  sp_type_application_def sp_type_managed_identity_def sp_type_legacy_def sp_type_social_idp_def
  type_owners_def type_members_def type_assigned_def

section \<open>Graph objects\<close>

record manager =
  mgr_id :: string
  mgr_employee_id :: string
  mgr_email :: string
  mgr_display_name :: string

definition zero_manager :: manager where
  "zero_manager = \<lparr>mgr_id = [], mgr_employee_id = [], mgr_email = [], mgr_display_name = []\<rparr>"

definition manager_fields :: "manager fields" where
  "manager_fields =
     [(''id'', dec_field mgr_id (\<lambda>v m. m\<lparr>mgr_id := v\<rparr>) dec_string),
      (''employeeId'', dec_field mgr_employee_id (\<lambda>v m. m\<lparr>mgr_employee_id := v\<rparr>) dec_string),
      (''mail'', dec_field mgr_email (\<lambda>v m. m\<lparr>mgr_email := v\<rparr>) dec_string),
      (''displayName'', dec_field mgr_display_name (\<lambda>v m. m\<lparr>mgr_display_name := v\<rparr>) dec_string)]"

record mailbox_settings =
  mbx_user_purpose :: string

definition zero_mailbox_settings :: mailbox_settings where
  "zero_mailbox_settings = \<lparr>mbx_user_purpose = []\<rparr>"

definition mailbox_settings_fields :: "mailbox_settings fields" where
  "mailbox_settings_fields =
     [(''userPurpose'', dec_field mbx_user_purpose (\<lambda>v m. m\<lparr>mbx_user_purpose := v\<rparr>) dec_string)]"

record user =
  usr_id :: string
  usr_email :: string
  usr_display_name :: string
  usr_user_principal_name :: string
  usr_job_title :: string
  usr_account_enabled :: bool
  usr_employee_type :: string
  usr_employee_id :: string
  usr_department :: string
  usr_manager :: "manager option"

definition zero_user :: user where
  "zero_user = \<lparr>usr_id = [], usr_email = [], usr_display_name = [], usr_user_principal_name = [],
     usr_job_title = [], usr_account_enabled = False, usr_employee_type = [],
     usr_employee_id = [], usr_department = [], usr_manager = None\<rparr>"

definition user_fields :: "user fields" where
  "user_fields =
     [(''id'', dec_field usr_id (\<lambda>v u. u\<lparr>usr_id := v\<rparr>) dec_string),
      (''mail'', dec_field usr_email (\<lambda>v u. u\<lparr>usr_email := v\<rparr>) dec_string),
      (''displayName'', dec_field usr_display_name (\<lambda>v u. u\<lparr>usr_display_name := v\<rparr>) dec_string),
      (''userPrincipalName'', dec_field usr_user_principal_name
         (\<lambda>v u. u\<lparr>usr_user_principal_name := v\<rparr>) dec_string),
      (''jobTitle'', dec_field usr_job_title (\<lambda>v u. u\<lparr>usr_job_title := v\<rparr>) dec_string),
      (''accountEnabled'', dec_field usr_account_enabled (\<lambda>v u. u\<lparr>usr_account_enabled := v\<rparr>) dec_bool),
      (''employeeType'', dec_field usr_employee_type (\<lambda>v u. u\<lparr>usr_employee_type := v\<rparr>) dec_string),
      (''employeeId'', dec_field usr_employee_id (\<lambda>v u. u\<lparr>usr_employee_id := v\<rparr>) dec_string),
      (''department'', dec_field usr_department (\<lambda>v u. u\<lparr>usr_department := v\<rparr>) dec_string),
      (''manager'', dec_field usr_manager (\<lambda>v u. u\<lparr>usr_manager := v\<rparr>)
         (dec_ptr zero_manager (dec_struct manager_fields)))]"

text \<open>
  The lists of Graph: a context, a next link, and a slice of pointers, in which a JSON null
  becomes nil. \<open>usersList\<close>, \<open>groupsList\<close>, \<open>membershipList\<close> and \<open>servicePrincipalsList\<close>
  are this record at their element types.
\<close>

record 'a graph_list =
  gl_context :: string
  gl_next_link :: string
  gl_value :: "'a option list"

definition zero_graph_list :: "'a graph_list" where
  "zero_graph_list = \<lparr>gl_context = [], gl_next_link = [], gl_value = []\<rparr>"

definition graph_list_fields :: "'a \<Rightarrow> 'a decoder \<Rightarrow> 'a graph_list fields" where
  "graph_list_fields zero dec =
     [(''@odata.context'', dec_field gl_context (\<lambda>v l. l\<lparr>gl_context := v\<rparr>) dec_string),
      (''@odata.nextLink'', dec_field gl_next_link (\<lambda>v l. l\<lparr>gl_next_link := v\<rparr>) dec_string),
      (''value'', dec_field gl_value (\<lambda>v l. l\<lparr>gl_value := v\<rparr>)
         (dec_slice None (dec_ptr zero dec)))]"

definition dec_users_list :: "user graph_list decoder" where
  "dec_users_list = dec_struct (graph_list_fields zero_user (dec_struct user_fields))"

record group =
  grp_classification :: string
  grp_description :: string
  grp_display_name :: string
  grp_group_types :: "string list"
  grp_id :: string
  grp_mail :: string
  grp_mail_enabled :: bool
  grp_on_premises_security_identifier :: "string option"
  grp_on_premises_sync_enabled :: bool
  grp_security_enabled :: bool
  grp_security_identifier :: string
  grp_is_assignable_to_role :: bool
  grp_is_management_restricted :: bool
  grp_created_date_time :: string

definition zero_group :: group where
  "zero_group = \<lparr>grp_classification = [], grp_description = [], grp_display_name = [],
     grp_group_types = [], grp_id = [], grp_mail = [], grp_mail_enabled = False,
     grp_on_premises_security_identifier = None, grp_on_premises_sync_enabled = False,
     grp_security_enabled = False, grp_security_identifier = [],
     grp_is_assignable_to_role = False, grp_is_management_restricted = False,
     grp_created_date_time = []\<rparr>"

definition group_fields :: "group fields" where
  "group_fields =
     [(''classification'', dec_field grp_classification (\<lambda>v g. g\<lparr>grp_classification := v\<rparr>) dec_string),
      (''description'', dec_field grp_description (\<lambda>v g. g\<lparr>grp_description := v\<rparr>) dec_string),
      (''displayName'', dec_field grp_display_name (\<lambda>v g. g\<lparr>grp_display_name := v\<rparr>) dec_string),
      (''groupTypes'', dec_field grp_group_types (\<lambda>v g. g\<lparr>grp_group_types := v\<rparr>)
         (dec_slice [] dec_string)),
      (''id'', dec_field grp_id (\<lambda>v g. g\<lparr>grp_id := v\<rparr>) dec_string),
      (''mail'', dec_field grp_mail (\<lambda>v g. g\<lparr>grp_mail := v\<rparr>) dec_string),
      (''mailEnabled'', dec_field grp_mail_enabled (\<lambda>v g. g\<lparr>grp_mail_enabled := v\<rparr>) dec_bool),
      (''onPremisesSecurityIdentifier'', dec_field grp_on_premises_security_identifier
         (\<lambda>v g. g\<lparr>grp_on_premises_security_identifier := v\<rparr>) (dec_ptr [] dec_string)),
      (''onPremisesSyncEnabled'', dec_field grp_on_premises_sync_enabled
         (\<lambda>v g. g\<lparr>grp_on_premises_sync_enabled := v\<rparr>) dec_bool),
      (''securityEnabled'', dec_field grp_security_enabled (\<lambda>v g. g\<lparr>grp_security_enabled := v\<rparr>) dec_bool),
      (''securityIdentifier'', dec_field grp_security_identifier
         (\<lambda>v g. g\<lparr>grp_security_identifier := v\<rparr>) dec_string),
      (''isAssignableToRole'', dec_field grp_is_assignable_to_role
         (\<lambda>v g. g\<lparr>grp_is_assignable_to_role := v\<rparr>) dec_bool),
      (''isManagementRestricted'', dec_field grp_is_management_restricted
         (\<lambda>v g. g\<lparr>grp_is_management_restricted := v\<rparr>) dec_bool),
      (''createdDateTime'', dec_field grp_created_date_time
         (\<lambda>v g. g\<lparr>grp_created_date_time := v\<rparr>) dec_string)]"

definition dec_groups_list :: "group graph_list decoder" where
  "dec_groups_list = dec_struct (graph_list_fields zero_group (dec_struct group_fields))"

record membership =
  mem_id :: string
  mem_type :: string
  mem_service_principal_type :: string
  mem_app_owner_organization_id :: string
  mem_on_premises_sync_enabled :: bool

definition zero_membership :: membership where
  "zero_membership = \<lparr>mem_id = [], mem_type = [], mem_service_principal_type = [],
     mem_app_owner_organization_id = [], mem_on_premises_sync_enabled = False\<rparr>"

definition membership_fields :: "membership fields" where
  "membership_fields =
     [(''id'', dec_field mem_id (\<lambda>v m. m\<lparr>mem_id := v\<rparr>) dec_string),
      (''@odata.type'', dec_field mem_type (\<lambda>v m. m\<lparr>mem_type := v\<rparr>) dec_string),
      (''servicePrincipalType'', dec_field mem_service_principal_type
         (\<lambda>v m. m\<lparr>mem_service_principal_type := v\<rparr>) dec_string),
      (''appOwnerOrganizationId'', dec_field mem_app_owner_organization_id
         (\<lambda>v m. m\<lparr>mem_app_owner_organization_id := v\<rparr>) dec_string),
      (''onPremisesSyncEnabled'', dec_field mem_on_premises_sync_enabled
         (\<lambda>v m. m\<lparr>mem_on_premises_sync_enabled := v\<rparr>) dec_bool)]"

definition dec_membership_list :: "membership graph_list decoder" where
  "dec_membership_list = dec_struct (graph_list_fields zero_membership (dec_struct membership_fields))"

text \<open>\<open>assignment\<close> and the JSON \<open>MarshalToReader\<close> makes of it.\<close>

record assignment =
  asg_object_ref :: string

definition assignment_json :: "assignment \<Rightarrow> json" where
  "assignment_json a = JObj [(''@odata.id'', JStr (asg_object_ref a))]"

definition marshal_to_reader :: "assignment \<Rightarrow> body" where
  "marshal_to_reader a = ReaderBody (json_print (assignment_json a))"

record app_role =
  arl_allowed_member_types :: "string list"
  arl_description :: string
  arl_display_name :: string
  arl_id :: string
  arl_is_enabled :: bool
  arl_value :: string

definition zero_app_role :: app_role where
  "zero_app_role = \<lparr>arl_allowed_member_types = [], arl_description = [], arl_display_name = [],
     arl_id = [], arl_is_enabled = False, arl_value = []\<rparr>"

definition app_role_fields :: "app_role fields" where
  "app_role_fields =
     [(''allowedMemberTypes'', dec_field arl_allowed_member_types
         (\<lambda>v r. r\<lparr>arl_allowed_member_types := v\<rparr>) (dec_slice [] dec_string)),
      (''description'', dec_field arl_description (\<lambda>v r. r\<lparr>arl_description := v\<rparr>) dec_string),
      (''displayName'', dec_field arl_display_name (\<lambda>v r. r\<lparr>arl_display_name := v\<rparr>) dec_string),
      (''id'', dec_field arl_id (\<lambda>v r. r\<lparr>arl_id := v\<rparr>) dec_string),
      (''isEnabled'', dec_field arl_is_enabled (\<lambda>v r. r\<lparr>arl_is_enabled := v\<rparr>) dec_bool),
      (''value'', dec_field arl_value (\<lambda>v r. r\<lparr>arl_value := v\<rparr>) dec_string)]"

record app_role_assignment =
  ara_app_role_id :: string
  ara_created_date_time :: string
  ara_deleted_date_time :: string
  ara_id :: string
  ara_principal_display_name :: string
  ara_principal_id :: string
  ara_principal_type :: string
  ara_resource_display_name :: string
  ara_resource_id :: string

definition zero_app_role_assignment :: app_role_assignment where
  "zero_app_role_assignment = \<lparr>ara_app_role_id = [], ara_created_date_time = [],
     ara_deleted_date_time = [], ara_id = [], ara_principal_display_name = [],
     ara_principal_id = [], ara_principal_type = [], ara_resource_display_name = [],
     ara_resource_id = []\<rparr>"

definition app_role_assignment_fields :: "app_role_assignment fields" where
  "app_role_assignment_fields =
     [(''appRoleId'', dec_field ara_app_role_id (\<lambda>v a. a\<lparr>ara_app_role_id := v\<rparr>) dec_string),
      (''createdDateTime'', dec_field ara_created_date_time
         (\<lambda>v a. a\<lparr>ara_created_date_time := v\<rparr>) dec_string),
      (''deletedDateTime'', dec_field ara_deleted_date_time
         (\<lambda>v a. a\<lparr>ara_deleted_date_time := v\<rparr>) dec_string),
      (''id'', dec_field ara_id (\<lambda>v a. a\<lparr>ara_id := v\<rparr>) dec_string),
      (''principalDisplayName'', dec_field ara_principal_display_name
         (\<lambda>v a. a\<lparr>ara_principal_display_name := v\<rparr>) dec_string),
      (''principalId'', dec_field ara_principal_id (\<lambda>v a. a\<lparr>ara_principal_id := v\<rparr>) dec_string),
      (''principalType'', dec_field ara_principal_type (\<lambda>v a. a\<lparr>ara_principal_type := v\<rparr>) dec_string),
      (''resourceDisplayName'', dec_field ara_resource_display_name
         (\<lambda>v a. a\<lparr>ara_resource_display_name := v\<rparr>) dec_string),
      (''resourceId'', dec_field ara_resource_id (\<lambda>v a. a\<lparr>ara_resource_id := v\<rparr>) dec_string)]"

record app_info =
  inf_logo_url :: string

definition app_info_fields :: "app_info fields" where
  "app_info_fields =
     [(''logoUrl'', dec_field inf_logo_url (\<lambda>v i. i\<lparr>inf_logo_url := v\<rparr>) dec_string)]"

record service_principal =
  spn_account_enabled :: bool
  spn_app_display_name :: string
  spn_app_id :: string
  spn_app_owner_organization_id :: string
  spn_description :: string
  spn_display_name :: string
  spn_homepage :: string
  spn_id :: string
  spn_info :: app_info
  spn_service_principal_type :: string
  spn_tags :: "string list"
  spn_app_roles :: "app_role option list"
  spn_app_roles_assigned_to :: "app_role_assignment option list"

definition zero_service_principal :: service_principal where
  "zero_service_principal = \<lparr>spn_account_enabled = False, spn_app_display_name = [],
     spn_app_id = [], spn_app_owner_organization_id = [], spn_description = [],
     spn_display_name = [], spn_homepage = [], spn_id = [], spn_info = \<lparr>inf_logo_url = []\<rparr>,
     spn_service_principal_type = [], spn_tags = [], spn_app_roles = [],
     spn_app_roles_assigned_to = []\<rparr>"

definition service_principal_fields :: "service_principal fields" where
  "service_principal_fields =
     [(''accountEnabled'', dec_field spn_account_enabled (\<lambda>v s. s\<lparr>spn_account_enabled := v\<rparr>) dec_bool),
      (''appDisplayName'', dec_field spn_app_display_name (\<lambda>v s. s\<lparr>spn_app_display_name := v\<rparr>) dec_string),
      (''appId'', dec_field spn_app_id (\<lambda>v s. s\<lparr>spn_app_id := v\<rparr>) dec_string),
      (''appOwnerOrganizationId'', dec_field spn_app_owner_organization_id
         (\<lambda>v s. s\<lparr>spn_app_owner_organization_id := v\<rparr>) dec_string),
      (''description'', dec_field spn_description (\<lambda>v s. s\<lparr>spn_description := v\<rparr>) dec_string),
      (''displayName'', dec_field spn_display_name (\<lambda>v s. s\<lparr>spn_display_name := v\<rparr>) dec_string),
      (''homepage'', dec_field spn_homepage (\<lambda>v s. s\<lparr>spn_homepage := v\<rparr>) dec_string),
      (''id'', dec_field spn_id (\<lambda>v s. s\<lparr>spn_id := v\<rparr>) dec_string),
      (''info'', dec_field spn_info (\<lambda>v s. s\<lparr>spn_info := v\<rparr>) (dec_struct app_info_fields)),
      (''servicePrincipalType'', dec_field spn_service_principal_type
         (\<lambda>v s. s\<lparr>spn_service_principal_type := v\<rparr>) dec_string),
      (''tags'', dec_field spn_tags (\<lambda>v s. s\<lparr>spn_tags := v\<rparr>) (dec_slice [] dec_string)),
      (''appRoles'', dec_field spn_app_roles (\<lambda>v s. s\<lparr>spn_app_roles := v\<rparr>)
         (dec_slice None (dec_ptr zero_app_role (dec_struct app_role_fields)))),
      (''appRoleAssignedTo'', dec_field spn_app_roles_assigned_to
         (\<lambda>v s. s\<lparr>spn_app_roles_assigned_to := v\<rparr>)
         (dec_slice None (dec_ptr zero_app_role_assignment (dec_struct app_role_assignment_fields))))]"

definition dec_service_principals_list :: "service_principal graph_list decoder" where
  "dec_service_principals_list =
     dec_struct (graph_list_fields zero_service_principal (dec_struct service_principal_fields))"

record organization =
  org_id :: string

record organizations =
  orgs_value :: "organization option list"

definition organization_fields :: "organization fields" where
  "organization_fields = [(''id'', dec_field org_id (\<lambda>v r. r\<lparr>org_id := v\<rparr>) dec_string)]"

definition dec_organizations :: "organizations decoder" where
  "dec_organizations =
     dec_struct [(''value'', dec_field orgs_value (\<lambda>v r. r\<lparr>orgs_value := v\<rparr>)
       (dec_slice None (dec_ptr \<lparr>org_id = []\<rparr> (dec_struct organization_fields))))]"

section \<open>The connector and the state of its builders\<close>

text \<open>
  What the operations read of \<open>Connector\<close> besides its credential and clients, which are
  the environment's. The builders add their caches to the world: the enterprise
  applications by id, the role assignments by subscription.
\<close>

record connector =
  conn_mailbox_settings :: bool
  conn_skip_ad_groups :: bool
  conn_organization_ids :: "string list"

record builders = world +
  app_cache :: "string \<rightharpoonup> service_principal"
  role_cache :: "string \<rightharpoonup> role_assignment list"

section \<open>Small helpers of helper.go\<close>

definition is_empty :: "string \<Rightarrow> bool" where
  "is_empty field \<longleftrightarrow> field = []"

definition string_value :: "string option \<Rightarrow> string" where
  "string_value v = (case v of Some s \<Rightarrow> s | None \<Rightarrow> [])"

definition bool_value :: "bool option \<Rightarrow> bool" where
  "bool_value v = (case v of Some b \<Rightarrow> b | None \<Rightarrow> False)"

text \<open>The links into the Entra portal: everything is in the fragment.\<close>

definition entra_link :: "string \<Rightarrow> string" where
  "entra_link fragment =
     url_string (empty_url\<lparr>url_scheme := ''https'', url_host := ''entra.microsoft.com'',
       url_path := ''/'', url_fragment := fragment\<rparr>)"

section \<open>Graph list calls\<close>

text \<open>
  The shape the Graph-backed \<open>List\<close> methods share: parse the token, take its URL or the
  first one, query, convert, and move the bag on by the next link.
\<close>

definition query_list ::
  "env \<Rightarrow> string \<Rightarrow> 'a graph_list decoder \<Rightarrow> ('z world_scheme, 'a graph_list) io"
where
  "query_list env address dec = query_value env ''GET'' address NoBody dec zero_graph_list"

definition first_url :: "string \<Rightarrow> bag \<Rightarrow> string" where
  "first_url u b = (if bag_page_token b = [] then u else bag_page_token b)"

lemma string_value_simps [simp]: "string_value None = []" "string_value (Some s) = s"
  by (simp_all add: string_value_def)

end
