(* ===== verification/Graph_Urls.thy ===== *)
theory Graph_Urls
  imports Http_Client
begin

text \<open>
  The URLs \<open>buildURL\<close> and \<open>buildBetaURL\<close> make: their text is ASCII, and for plain path
  segments it parses back to the host, path and query it was made from.
\<close>

section \<open>URLs are ASCII\<close>

lemma escape_domain: "escape EncodeHost api_domain = ''graph.microsoft.com''"
  by code_simp

text \<open>The text of a Graph URL, for a relative path.\<close>

lemma graph_url_string:
  "url_string (graph_url version p v) =
    (let q = escaped_path (graph_url version p v) in
     ''https://graph.microsoft.com'' @ (if q \<noteq> [] \<and> hd q \<noteq> CHR ''/'' then ''/'' else []) @ q
     @ (if values_encode v \<noteq> [] then CHR ''?'' # values_encode v else []))"
  by (simp add: url_string_def Let_def graph_url_def empty_url_def escape_domain [unfolded api_domain_def]
      api_domain_def)

lemma graph_escaped_path:
  "escaped_path (graph_url version p v) =
    (if path_join [version, p] = ''*'' then ''*'' else escape EncodePath (path_join [version, p]))"
  by (simp add: escaped_path_def graph_url_def empty_url_def)

lemma graph_url_ascii: "list_all (\<lambda>c. byte_of c < 128) (url_string (graph_url version p v))"
proof -
  have a: "byte_of x < 128" if "x \<in> set (escape EncodePath s)" for x s
    using escape_path_chars [OF that] by simp
  have b: "byte_of x < 128" if "x \<in> set (values_encode v)" for x
    using values_encode_chars [OF that] by simp
  have "list_all (\<lambda>c. byte_of c < 128) (escaped_path (graph_url version p v))"
    using a by (auto simp: graph_escaped_path list_all_iff)
  with b show ?thesis by (auto simp: graph_url_string Let_def list_all_iff)
qed

lemma build_url_valid [simp]: "valid_utf8 (build_url p v)" "valid_utf8 (build_beta_url p v)"
  by (simp_all add: build_url_def build_beta_url_def valid_utf8_ascii graph_url_ascii)

section \<open>Graph URLs parse back\<close>

text \<open>A URL as \<open>url.Parse\<close> gives it for the text of a Graph URL: the path has its slash.\<close>

definition graph_address :: "string \<Rightarrow> url_values \<Rightarrow> url" where
  "graph_address p v = empty_url\<lparr>url_scheme := ''https'', url_host := api_domain,
     url_path := CHR ''/'' # p, url_raw_query := values_encode v\<rparr>"

definition plain_path :: "string \<Rightarrow> bool" where
  "plain_path p \<longleftrightarrow> p \<noteq> [] \<and> hd p \<noteq> CHR ''/'' \<and> p \<noteq> ''*''"

lemma escape_path_hd: "p \<noteq> [] \<Longrightarrow> hd p \<noteq> CHR ''/'' \<Longrightarrow>
    escape EncodePath p \<noteq> [] \<and> hd (escape EncodePath p) \<noteq> CHR ''/''"
  by (cases p) (simp_all add: escape_def escape_byte_def Let_def)

lemma escape_slash: "escape EncodePath (CHR ''/'' # p) = CHR ''/'' # escape EncodePath p"
  by (simp add: escape_def escape_byte_def should_escape_def)

definition address_text :: "string \<Rightarrow> url_values \<Rightarrow> string" where
  "address_text p v = ''https://graph.microsoft.com/'' @ escape EncodePath p
     @ (if values_encode v \<noteq> [] then CHR ''?'' # values_encode v else [])"

lemma graph_url_text:
  "plain_path (path_join [version, p]) \<Longrightarrow>
    url_string (graph_url version p v) = address_text (path_join [version, p]) v"
  using escape_path_hd [of "path_join [version, p]"]
  by (auto simp: graph_url_string Let_def graph_escaped_path plain_path_def address_text_def)

lemma graph_address_text: "url_string (graph_address p v) = address_text p v"
  by (simp add: url_string_def Let_def graph_address_def empty_url_def address_text_def
      escape_domain [unfolded api_domain_def] api_domain_def escaped_path_def escape_slash)

lemma cut_query:
  assumes "CHR ''?'' \<notin> set a" and "CHR ''?'' \<notin> set q"
  shows "split_query (a @ (if q \<noteq> [] then CHR ''?'' # q else [])) u = (a, u\<lparr>url_raw_query := q\<rparr>)"
proof (cases "q = []")
  case True
  have "\<not> has_suffix a ''?''" using assms(1) by (auto simp: has_suffix_iff)
  with True assms show ?thesis by (simp add: split_query_def cut_at_none)
next
  case False
  have "\<not> has_suffix (a @ CHR ''?'' # q) ''?''"
  proof
    assume "has_suffix (a @ CHR ''?'' # q) ''?''"
    then obtain r where "a @ CHR ''?'' # q = r @ ''?''" by (auto simp: has_suffix_iff)
    then have "last (a @ CHR ''?'' # q) = CHR ''?''" by simp
    then have "last q = CHR ''?''" using False by simp
    with False assms(2) show False using last_in_set by metis
  qed
  with False assms show ?thesis by (simp add: split_query_def cut_at_fst)
qed

lemma parse_domain: "parse_authority ''graph.microsoft.com'' = Inr (None, api_domain)"
  by code_simp

lemma url_parse_address: "url_parse (address_text p v) = Inr (graph_address p v)"
proof -
  let ?e = "escape EncodePath p" and ?q = "values_encode v"
  let ?tail = "?e @ (if ?q \<noteq> [] then CHR ''?'' # ?q else [])"
  have e: "33 \<le> byte_of x \<and> byte_of x < 127 \<and> x \<noteq> CHR ''#'' \<and> x \<noteq> CHR ''?''" if "x \<in> set ?e" for x
    using escape_path_chars [OF that] .
  have q: "33 \<le> byte_of x \<and> byte_of x < 127 \<and> x \<noteq> CHR ''#'' \<and> x \<noteq> CHR ''?''" if "x \<in> set ?q" for x
    using values_encode_chars [OF that] .
  have t: "33 \<le> byte_of x \<and> byte_of x < 127 \<and> x \<noteq> CHR ''#''" if "x \<in> set ?tail" for x
    using that e q by (auto split: if_splits)
  have raw: "address_text p v = ''https://graph.microsoft.com/'' @ ?tail" by (simp add: address_text_def)
  have hash: "CHR ''#'' \<notin> set (address_text p v)" using t by (auto simp: raw)
  have rng: "33 \<le> byte_of x \<and> byte_of x < 127" if "x \<in> set (address_text p v)" for x
    using that t unfolding raw by (auto simp del: set_append simp: set_append [of _ ?tail])
  have ctl: "\<not> has_ctl (address_text p v)"
  proof
    assume "has_ctl (address_text p v)"
    then obtain c where "c \<in> set (address_text p v)" "byte_of c < 32 \<or> byte_of c = 127"
      by (auto simp: has_ctl_def list_ex_iff)
    with rng [of c] show False by auto
  qed
  have sch: "get_scheme (address_text p v) = Inr (''https'', ''//graph.microsoft.com/'' @ ?tail)"
    unfolding raw by (simp add: get_scheme_def)
  have sq: "split_query (''//graph.microsoft.com/'' @ ?tail) u
      = (''//graph.microsoft.com/'' @ ?e, u\<lparr>url_raw_query := ?q\<rparr>)" for u
  proof -
    have "CHR ''?'' \<notin> set (''//graph.microsoft.com/'' @ ?e)" "CHR ''?'' \<notin> set ?q"
      using e q by auto
    from cut_query [OF this, of u] show ?thesis by simp
  qed
  have ph: "parse_hier (''//graph.microsoft.com/'' @ ?e) (empty_url\<lparr>url_scheme := ''https'', url_raw_query := ?q\<rparr>)
      = Inr (graph_address p v)"
  proof -
    have "takeWhile (\<lambda>x. x \<noteq> CHR ''/'') (''graph.microsoft.com/'' @ ?e) = ''graph.microsoft.com''"
      "dropWhile (\<lambda>x. x \<noteq> CHR ''/'') (''graph.microsoft.com/'' @ ?e) = CHR ''/'' # ?e" by simp_all
    moreover have "unescape EncodePath (CHR ''/'' # ?e) = Some (CHR ''/'' # p)"
      using unescape_escape [of EncodePath "CHR ''/'' # p"] by (simp add: escape_slash)
    ultimately show ?thesis
      by (simp add: parse_hier_def has_prefix_def Let_def parse_domain set_path_def of_option_def
          escape_slash graph_address_def empty_url_def)
  qed
  have lo: "to_lower ''https'' = ''https''" by code_simp
  have star: "address_text p v \<noteq> ''*''" by (simp add: address_text_def)
  show ?thesis
    by (simp only: url_parse_def cut_at_none [OF hash] prod.case if_not_P [OF ctl] if_not_P [OF star]
        sch bind_sum.simps lo sq ph if_True simp_thms)
qed

lemma remove_port_domain: "remove_empty_port api_domain = api_domain"
  by code_simp

text \<open>The request for a Graph URL has the URL it was made for.\<close>

lemma new_request_address:
  "new_request m (graph_address p v) tok b =
    Inr \<lparr>req_method = m, req_url = graph_address p v, req_headers = graph_headers tok,
         req_body = json_body b\<rparr>"
proof -
  have "(graph_address p v)\<lparr>url_host := api_domain\<rparr> = graph_address p v"
    and "url_host (graph_address p v) = api_domain"
    by (simp_all add: graph_address_def)
  then show ?thesis
    by (simp add: new_request_def graph_address_text url_parse_address remove_port_domain)
qed

section \<open>Graph URLs of plain segments\<close>

lemma version_join:
  assumes "version \<in> {api_version, beta_version}" and "es \<noteq> []" and "\<forall>e\<in>set es. plain_segment e"
  shows "path_join [version, path_join es] = version @ ''/'' @ join_with ''/'' es"
    and "plain_path (path_join [version, path_join es])"
proof -
  have v: "plain_segment version" using assms(1)
    by (auto simp: plain_segment_def api_version_def beta_version_def)
  show p: "path_join [version, path_join es] = version @ ''/'' @ join_with ''/'' es"
    using path_join_joined [OF v assms(2,3)] path_join_plain [OF assms(2,3)] assms(2)
    by (simp add: join_Cons)
  show "plain_path (path_join [version, path_join es])"
    unfolding p using assms(1) by (auto simp: plain_path_def api_version_def beta_version_def)
qed

lemma graph_url_plain:
  assumes "version \<in> {api_version, beta_version}" and "es \<noteq> []" and "\<forall>e\<in>set es. plain_segment e"
  shows "url_parse (url_string (graph_url version (path_join es) v)) =
    Inr (graph_address (version @ ''/'' @ join_with ''/'' es) v)"
  using graph_url_text [OF version_join(2) [OF assms], of v] version_join(1) [OF assms]
  by (simp add: url_parse_address)

text \<open>
  C37: a Graph URL built from plain path segments parses back to \<open>https\<close>, the Graph host,
  exactly those segments under the API's version, and a query that decodes to the
  parameters it was built from, in the order of their names.
\<close>

theorem built_urls_parse_back:
  assumes "es \<noteq> []" and "\<forall>e\<in>set es. plain_segment e"
  shows "\<exists>a b. url_parse (build_url (path_join es) v) = Inr a \<and> url_parse (build_beta_url (path_join es) v) = Inr b \<and>
    url_scheme a = ''https'' \<and> url_scheme b = ''https'' \<and> url_host a = api_domain \<and> url_host b = api_domain \<and>
    url_path a = ''/v1.0/'' @ join_with ''/'' es \<and> url_path b = ''/beta/'' @ join_with ''/'' es \<and>
    parse_query (url_raw_query a) = sort_key fst v \<and> parse_query (url_raw_query b) = sort_key fst v"
proof -
  have "url_parse (build_url (path_join es) v) = Inr (graph_address (api_version @ ''/'' @ join_with ''/'' es) v)"
    "url_parse (build_beta_url (path_join es) v) = Inr (graph_address (beta_version @ ''/'' @ join_with ''/'' es) v)"
    using graph_url_plain [OF _ assms] by (simp_all add: build_url_def build_beta_url_def)
  then show ?thesis
    by (simp add: graph_address_def empty_url_def api_version_def beta_version_def parse_query_encode)
qed

theorem built_urls_parse_back_witness:
  "\<exists>a b. url_parse (build_url (path_join [''groups'', ''a b'', ''$ref'']) [(''$top'', ''999'')]) = Inr a \<and>
    url_parse (build_beta_url (path_join [''groups'', ''a b'', ''$ref'']) [(''$top'', ''999'')]) = Inr b \<and>
    url_scheme a = ''https'' \<and> url_scheme b = ''https'' \<and> url_host a = api_domain \<and> url_host b = api_domain \<and>
    url_path a = ''/v1.0/'' @ join_with ''/'' [''groups'', ''a b'', ''$ref''] \<and>
    url_path b = ''/beta/'' @ join_with ''/'' [''groups'', ''a b'', ''$ref''] \<and>
    parse_query (url_raw_query a) = sort_key fst [(''$top'', ''999'')] \<and>
    parse_query (url_raw_query b) = sort_key fst [(''$top'', ''999'')]"
  by (rule built_urls_parse_back) (simp_all add: plain_segment_def)

end
