(* ===== verification/Http_Laws.thy ===== *)
theory Http_Laws
  imports Connector_Model Graph_Urls
begin

text \<open>
  What the Graph client promises its callers: which errors \<open>query\<close> can return, what a
  successful call means, which events a call adds to the history, and what it returns when
  the service answers stably. The environments that the examples
  of the development use are at the end of the first part.
\<close>

section \<open>Decoders fail in two ways only\<close>

definition plain_decoder :: "'a decoder \<Rightarrow> bool" where
  "plain_decoder dec \<longleftrightarrow> (\<forall>cur v r e. dec cur v = (r, Some e) \<longrightarrow> e = type_error)"

lemma plain_decoderD: "plain_decoder dec \<Longrightarrow> dec cur v = (r, Some e) \<Longrightarrow> e = type_error"
  by (auto simp: plain_decoder_def)

lemma plain_string [simp]: "plain_decoder dec_string"
  unfolding plain_decoder_def by (auto elim: dec_string.elims)

lemma plain_bool [simp]: "plain_decoder dec_bool"
  unfolding plain_decoder_def by (auto elim: dec_bool.elims)

lemma plain_map [simp]: "plain_decoder dec_map"
  unfolding plain_decoder_def by (auto elim: dec_map.elims)

lemma plain_ptr [simp]: "plain_decoder dec \<Longrightarrow> plain_decoder (dec_ptr zero dec)"
  unfolding plain_decoder_def by (auto simp: dec_ptr_def split: json.splits prod.splits)

lemma first_error_mem: "first_error es = Some e \<Longrightarrow> Some e \<in> set es"
  by (induction es rule: first_error.induct) auto

lemma plain_slice [simp]: "plain_decoder dec \<Longrightarrow> plain_decoder (dec_slice zero dec)"
  unfolding plain_decoder_def dec_slice_def
  by (auto split: json.splits dest!: first_error_mem) (metis prod.collapse)

lemma plain_field [simp]: "plain_decoder dec \<Longrightarrow> plain_decoder (dec_field get put dec)"
  unfolding plain_decoder_def dec_field_def by (auto split: prod.splits)

lemma find_field_mem: "find_field fs k = Some d \<Longrightarrow> d \<in> snd ` set fs"
  by (induction fs k rule: find_field.induct) (auto split: if_splits)

lemma plain_members:
  assumes fs: "\<forall>d\<in>snd ` set fs. plain_decoder d"
  shows "dec_members fs r kvs = (r', Some e) \<Longrightarrow> e = type_error"
proof (induction kvs arbitrary: r r' e)
  case (Cons kv kvs)
  obtain k v where kv: "kv = (k, v)" by (cases kv)
  show ?case
  proof (cases "find_field fs k")
    case None
    with Cons kv show ?thesis by simp
  next
    case (Some d)
    then have d: "plain_decoder d" using fs find_field_mem by blast
    obtain r1 e1 where dv: "d r v = (r1, e1)" by (cases "d r v")
    obtain r2 e2 where m: "dec_members fs r1 kvs = (r2, e2)" by (cases "dec_members fs r1 kvs")
    from Cons.prems kv Some dv m have "e1 = Some e \<or> e1 = None \<and> e2 = Some e"
      by (auto split: option.splits)
    with m dv show ?thesis using plain_decoderD [OF d] Cons.IH by metis
  qed
qed simp

lemma plain_struct [simp]:
  assumes "\<forall>d\<in>snd ` set fs. plain_decoder d"
  shows "plain_decoder (dec_struct fs)"
  unfolding plain_decoder_def
proof (intro allI impI)
  fix cur v r e
  assume "dec_struct fs cur v = (r, Some e)"
  then show "e = type_error" using plain_members [OF assms] by (cases v) auto
qed

lemma plain_lists [simp]:
  "plain_decoder dec_users_list" "plain_decoder dec_groups_list" "plain_decoder dec_membership_list"
  "plain_decoder dec_service_principals_list" "plain_decoder dec_organizations"
  "plain_decoder (dec_struct mailbox_settings_fields)"
  by (simp_all add: dec_users_list_def dec_groups_list_def dec_membership_list_def
      dec_service_principals_list_def dec_organizations_def graph_list_fields_def user_fields_def
      manager_fields_def group_fields_def membership_fields_def service_principal_fields_def
      app_info_fields_def app_role_fields_def app_role_assignment_fields_def
      organization_fields_def mailbox_settings_fields_def)

section \<open>Errors of the outside world\<close>

text \<open>
  Errors that come from outside are not the connector's own sentinel and not its
  \<open>HTTPError\<close>, which nothing outside the package can make.
\<close>

definition foreign_error :: "error \<Rightarrow> bool" where
  "foreign_error e \<longleftrightarrow> \<not> errors_is e ErrNotFound \<and> (\<forall>st raw ra rl i. e \<noteq> ErrHTTP st raw ra rl i)"

fun foreign_transport :: "transport \<Rightarrow> bool" where
  "foreign_transport (TransportFailure e) \<longleftrightarrow> foreign_error e"
| "foreign_transport (BodyFailure r e) \<longleftrightarrow> foreign_error e"
| "foreign_transport _ \<longleftrightarrow> True"

definition foreign_env :: "env \<Rightarrow> bool" where
  "foreign_env env \<longleftrightarrow>
     (\<forall>h e. env_token env h = Inl e \<longrightarrow> foreign_error e) \<and>
     (\<forall>h req. foreign_transport (env_http env h req)) \<and>
     (\<forall>b e. env_xml_error env b = Some e \<longrightarrow> foreign_error e)"

lemma foreign_simps [simp]:
  "foreign_error (ErrText t)" "foreign_error (ErrStatus c t)"
  "foreign_error (ErrWrap t es) \<longleftrightarrow> (\<forall>e\<in>set es. \<not> errors_is e ErrNotFound)"
  "foreign_error (ErrJoin es) \<longleftrightarrow> (\<forall>e\<in>set es. \<not> errors_is e ErrNotFound)"
  "foreign_error ErrRequestFailed"
  by (auto simp: foreign_error_def list_ex_iff)

lemma foreign_not_found: "foreign_error e \<Longrightarrow> \<not> errors_is e ErrNotFound"
  by (simp add: foreign_error_def)

lemma foreign_wrap_errors [simp]:
  "foreign_error (wrap_errors c m es) \<longleftrightarrow> (\<forall>e\<in>set es. \<not> errors_is e ErrNotFound)"
  by (simp add: wrap_errors_def)

lemma foreign_type_error [simp]: "foreign_error type_error" "foreign_error syntax_error"
  by (simp_all add: type_error_def syntax_error_def)

lemma json_unmarshal_error:
  "plain_decoder dec \<Longrightarrow> json_unmarshal dec cur t = (r, Some e) \<Longrightarrow> e = syntax_error \<or> e = type_error"
  by (auto simp: json_unmarshal_def split: option.splits dest: plain_decoderD)

lemma with_response_error:
  assumes "foreign_env env" and "\<forall>d. target = Some d \<longrightarrow> plain_decoder d"
    and "with_response env target resp cur = (r, Some e)"
  shows "foreign_error e"
proof -
  have x: "env_xml_error env (resp_body resp) = Some e' \<Longrightarrow> \<not> errors_is e' ErrNotFound" for e'
    using assms(1) by (auto simp: foreign_env_def foreign_error_def)
  have j: "json_unmarshal d cur t = (r', Some e') \<Longrightarrow> target = Some d \<Longrightarrow> \<not> errors_is e' ErrNotFound" for d r' t e'
    using assms(2) json_unmarshal_error by (metis foreign_not_found foreign_type_error)
  have t: "\<not> errors_is (ErrText a) ErrNotFound" "\<not> errors_is syntax_error ErrNotFound" for a
    by (simp_all add: syntax_error_def)
  show ?thesis
    using assms(3)
    by (auto simp: with_response_def with_json_response_def Let_def t x
        split: if_splits option.splits prod.splits dest: j)
qed

lemma status_result_None:
  "status_result resp errs = None \<longleftrightarrow> errs = [] \<and> 200 \<le> resp_status resp \<and> resp_status resp < 300"
  by (auto simp: status_result_def Let_def)

lemma status_result_error:
  "\<forall>e\<in>set errs. \<not> errors_is e ErrNotFound \<Longrightarrow> status_result resp errs = Some e \<Longrightarrow> foreign_error e"
  by (auto simp: status_result_def Let_def split: if_splits)

lemma transport_response_error:
  "foreign_transport t \<Longrightarrow> transport_response t = Inl e \<Longrightarrow> foreign_error e"
  by (cases t) auto

lemma obtain_response_error:
  "foreign_env env \<Longrightarrow> obtain_response env req w = (Inl e, w') \<Longrightarrow> foreign_error e"
  unfolding obtain_response_def send_def
  by (auto simp: foreign_env_def split: if_splits option.splits
      intro: transport_response_error [of "env_http env (history w) req"])

lemma base_do_error:
  assumes "foreign_env env" and "\<forall>d. target = Some d \<longrightarrow> plain_decoder d"
    and "base_do env req target cur w = ((Inl e, r), w')"
  shows "foreign_error e"
proof (cases "obtain_response env req w")
  case (Pair o1 w1)
  show ?thesis
  proof (cases o1)
    case (Inl e1)
    with Pair assms show ?thesis by (auto simp: base_do_def intro: obtain_response_error)
  next
    case (Inr resp)
    obtain r1 oe where wr: "with_response env target resp cur = (r1, oe)"
      by (cases "with_response env target resp cur")
    have "status_result resp (case oe of None \<Rightarrow> [] | Some e \<Rightarrow> [e]) = Some e"
      using assms(3) Pair Inr wr by (auto simp: base_do_def Let_def split: option.splits)
    moreover have "\<forall>e\<in>set (case oe of None \<Rightarrow> [] | Some e \<Rightarrow> [e]). \<not> errors_is e ErrNotFound"
      using with_response_error [OF assms(1,2)] wr by (auto split: option.splits simp: foreign_not_found)
    ultimately show ?thesis by (rule status_result_error [rotated])
  qed
qed

text \<open>What a response that \<open>Do\<close> lets through looks like.\<close>

lemma base_do_Inr:
  assumes "base_do env req target cur w = ((Inr resp, r), w')"
  shows "200 \<le> resp_status resp \<and> resp_status resp < 300 \<and>
    (\<exists>w1. obtain_response env req w = (Inr resp, w1)) \<and> with_response env target resp cur = (r, None)"
proof (cases "obtain_response env req w")
  case (Pair o1 w1)
  with assms obtain resp1 where o1: "o1 = Inr resp1"
    by (cases o1) (auto simp: base_do_def)
  obtain r1 oe where wr: "with_response env target resp1 cur = (r1, oe)"
    by (cases "with_response env target resp1 cur")
  have "resp1 = resp" "r1 = r" "status_result resp1 (case oe of None \<Rightarrow> [] | Some e \<Rightarrow> [e]) = None"
    using assms Pair o1 wr by (auto simp: base_do_def Let_def split: option.splits)
  then show ?thesis using Pair o1 wr by (auto simp: status_result_None split: option.splits)
qed

lemma check_response_ok:
  "200 \<le> resp_status resp \<Longrightarrow> resp_status resp < 300 \<Longrightarrow>
    check_response m u h resp =
      (if resp_status resp \<in> {200, 201, 204} then None
       else Some (ErrHTTP (resp_status resp) (resp_body resp) 0 False
              (Some (if h then ErrNoResponse else ErrRequestFailed))))"
  by (auto simp: check_response_def Let_def new_http_error_def)



definition foreign_sum :: "error + 'a \<Rightarrow> bool" where
  "foreign_sum s \<longleftrightarrow> (\<forall>e. s = Inl e \<longrightarrow> foreign_error e)"

lemma foreign_sum_simps [simp]:
  "foreign_sum (Inr x)" "foreign_sum (Inl (url_error t))" "foreign_sum (of_option (url_error t) m)"
  by (auto simp: foreign_sum_def url_error_def of_option_def split: option.splits)

lemma foreign_sum_bind: "foreign_sum m \<Longrightarrow> (\<And>x. foreign_sum (f x)) \<Longrightarrow> foreign_sum (bind_sum m f)"
  by (cases m) (auto simp: foreign_sum_def)

lemma foreign_scheme: "foreign_sum (get_scheme_from raw p t)"
  by (induction raw p t rule: get_scheme_from.induct) (simp_all add: Let_def)

lemma foreign_host: "foreign_sum (parse_host h)"
  by (simp add: parse_host_def split: option.split prod.split)

lemma foreign_authority: "foreign_sum (parse_authority a)"
  by (auto simp: parse_authority_def intro!: foreign_sum_bind foreign_host split: option.split prod.split)

lemma foreign_set: "foreign_sum (set_path p u)" "foreign_sum (set_fragment p u)"
  by (simp_all add: set_path_def set_fragment_def foreign_sum_bind)

lemma foreign_hier: "foreign_sum (parse_hier t u)"
  by (auto simp: parse_hier_def Let_def foreign_set
      intro!: foreign_sum_bind foreign_authority split: prod.split)

lemma foreign_url_parse: "foreign_sum (url_parse t)"
  by (auto simp: url_parse_def get_scheme_def foreign_set
      intro!: foreign_sum_bind foreign_scheme foreign_hier split: prod.split)

lemma foreign_new_request: "foreign_sum (new_request m u t b)"
  by (auto simp: new_request_def intro!: foreign_sum_bind foreign_url_parse)

lemma check_response_error: "check_response m u h resp = Some e \<Longrightarrow> 200 \<le> resp_status resp \<Longrightarrow>
    resp_status resp < 300 \<Longrightarrow> \<not> errors_is e ErrNotFound"
  by (auto simp: check_response_ok split: if_splits)

text \<open>\<open>query\<close> under the assumption that the outside does not make the connector's sentinel.\<close>

lemma do_request_error:
  assumes "foreign_env env" and "\<forall>d. target = Some d \<longrightarrow> plain_decoder d"
    and d: "do_request env m u tok target cur b w = ((Some e, r), w')"
  shows "\<not> errors_is e ErrNotFound"
proof (cases "url_parse u")
  case (Inl e1)
  with d foreign_url_parse [of u] show ?thesis
    by (auto simp: do_request_def foreign_sum_def foreign_not_found)
next
  case parsed: (Inr a)
  show ?thesis
  proof (cases "new_request m a tok b")
    case (Inl e1)
    with d parsed foreign_new_request [of m a tok b] show ?thesis
      by (auto simp: do_request_def foreign_sum_def foreign_not_found)
  next
    case (Inr req)
    obtain o1 r1 w1 where bd: "base_do env req target cur w = ((o1, r1), w1)"
      by (metis prod.collapse)
    show ?thesis
    proof (cases o1)
      case Inl: (Inl e1)
      have "foreign_error e1" using base_do_error [OF assms(1,2)] bd Inl by blast
      with bd d parsed Inr Inl show ?thesis by (auto simp: do_request_def dest: foreign_not_found)
    next
      case resp: (Inr resp)
      with bd d parsed Inr have "check_response m a (target \<noteq> None) resp = Some e"
        by (auto simp: do_request_def)
      with base_do_Inr bd resp show ?thesis using check_response_error by metis
    qed
  qed
qed

lemma query_error:
  assumes "foreign_env env" and "\<forall>d. target = Some d \<longrightarrow> plain_decoder d"
    and "query env scopes m u b target cur w = ((Some e, r), w')"
  shows "\<not> errors_is e ErrNotFound"
proof (cases "env_token env (history w)")
  case (Inl e1)
  with assms show ?thesis by (auto simp: query_def Let_def foreign_env_def foreign_not_found)
next
  case (Inr tok)
  with assms show ?thesis
    by (auto simp: query_def Let_def dest: do_request_error [OF assms(1,2)])
qed

lemma query_unit_error:
  "foreign_env env \<Longrightarrow> query_unit env m u b w = (Some e, w') \<Longrightarrow> \<not> errors_is e ErrNotFound"
  by (auto simp: query_unit_def split: prod.splits dest: query_error [rotated 2])

section \<open>Successful calls\<close>

lemma do_request_ok:
  assumes "do_request env m u tok target cur b w = ((None, r), w')"
  shows "\<exists>a req resp w1. url_parse u = Inr a \<and> new_request m a tok b = Inr req \<and>
    obtain_response env req w = (Inr resp, w1) \<and> resp_status resp \<in> {200, 201, 204} \<and>
    with_response env target resp cur = (r, None)"
proof (cases "url_parse u")
  case parsed: (Inr a)
  show ?thesis
  proof (cases "new_request m a tok b")
    case (Inr req)
    obtain o1 r1 w1 where bd: "base_do env req target cur w = ((o1, r1), w1)"
      by (metis prod.collapse)
    with assms parsed Inr obtain resp where o1: "o1 = Inr resp"
      by (cases o1) (auto simp: do_request_def)
    with assms parsed Inr bd have c: "check_response m a (target \<noteq> None) resp = None" "r1 = r"
      by (auto simp: do_request_def)
    from base_do_Inr [OF bd [unfolded o1]] obtain w2 where
      "200 \<le> resp_status resp" "resp_status resp < 300" "obtain_response env req w = (Inr resp, w2)"
      "with_response env target resp cur = (r, None)" using c by auto
    with parsed Inr c(1) show ?thesis by (auto simp: check_response_ok split: if_splits)
  qed (use assms parsed in \<open>auto simp: do_request_def\<close>)
qed (use assms in \<open>auto simp: do_request_def\<close>)

section \<open>What a call adds to the history\<close>

definition new_events :: "'z world_scheme \<Rightarrow> 'z world_scheme \<Rightarrow> event list" where
  "new_events w w' = drop (length (history w)) (history w')"

lemma history_cache_set [simp]: "history (cache_set req resp w) = history w"
  by (simp add: cache_set_def)

lemma obtain_response_history:
  "obtain_response env req w = (o1, w') \<Longrightarrow> \<exists>es. history w' = history w @ es \<and> es \<in> {[], [HttpEvent req]}"
  by (auto simp: obtain_response_def send_def split: if_splits option.splits)

lemma base_do_history:
  assumes "base_do env req target cur w = (x, w')"
  shows "\<exists>es. history w' = history w @ es \<and> es \<in> {[], [HttpEvent req]}"
proof -
  obtain o1 w1 where o: "obtain_response env req w = (o1, w1)" by fastforce
  have "history w' = history w1"
    using assms o by (cases o1) (auto simp: base_do_def Let_def split: prod.splits)
  with obtain_response_history [OF o] show ?thesis by simp
qed

lemma do_request_history:
  assumes "do_request env m u tok target cur b w = (x, w')"
  shows "\<exists>es. history w' = history w @ es \<and>
    (es = [] \<or> (\<exists>a req. url_parse u = Inr a \<and> new_request m a tok b = Inr req \<and> es = [HttpEvent req]))"
proof (cases "url_parse u")
  case parsed: (Inr a)
  show ?thesis
  proof (cases "new_request m a tok b")
    case (Inr req)
    obtain y w1 where bd: "base_do env req target cur w = (y, w1)" by fastforce
    with assms parsed Inr have "w' = w1"
      by (auto simp: do_request_def split: sum.splits prod.splits)
    with base_do_history [OF bd] parsed Inr show ?thesis by fastforce
  qed (use assms parsed in \<open>auto simp: do_request_def\<close>)
qed (use assms in \<open>auto simp: do_request_def\<close>)

lemma query_history:
  assumes "query env scopes m u b target cur w = (x, w')"
  shows "\<exists>es. history w' = history w @ TokenRequest scopes # es \<and>
    (es = [] \<or> (\<exists>a tok req. url_parse u = Inr a \<and> new_request m a tok b = Inr req \<and> es = [HttpEvent req]))"
proof (cases "env_token env (history w)")
  case (Inl e)
  with assms show ?thesis by (auto simp: query_def Let_def)
next
  case (Inr tok)
  with assms have "do_request env m u tok target cur b (log_event (TokenRequest scopes) w) = (x, w')"
    by (simp add: query_def Let_def)
  from do_request_history [OF this] show ?thesis by fastforce
qed

lemma new_request_body: "new_request m a tok b = Inr req \<Longrightarrow>
    req_body req = json_body b \<and> req_method req = m"
  by (cases "url_parse (url_string a)") (auto simp: new_request_def)

lemma query_new_events:
  assumes "query env scopes m u b target cur w = (x, w')"
  shows "new_events w w' = [TokenRequest scopes] \<or>
    (\<exists>a tok req. url_parse u = Inr a \<and> new_request m a tok b = Inr req \<and>
       new_events w w' = [TokenRequest scopes, HttpEvent req])"
  using query_history [OF assms] by (auto simp: new_events_def)

section \<open>Values for examples\<close>

text \<open>
  A quiet environment: every credential and client works, every ARM list is one empty
  page, nothing is cached, and Graph answers as the argument says. Examples and witnesses
  override the fields they need.
\<close>

definition quiet_env :: "(request \<Rightarrow> transport) \<Rightarrow> env" where
  "quiet_env http =
     \<lparr>env_http = \<lambda>_. http, env_token = \<lambda>_. Inr ''t'', env_cache_retains = \<lambda>_ _. False,
      env_xml_error = \<lambda>_. None, env_arm_client = None,
      env_subscriptions = \<lambda>_ _. Inr \<lparr>page_value = [], page_next = None\<rparr>,
      env_tenants = \<lambda>_ _. Inr \<lparr>page_value = [], page_next = None\<rparr>,
      env_resource_groups = \<lambda>_ _ _. Inr \<lparr>page_value = [], page_next = None\<rparr>,
      env_role_definitions = \<lambda>_ _ _. Inr \<lparr>page_value = [], page_next = None\<rparr>,
      env_role_assignments = \<lambda>_ _ _. Inr \<lparr>page_value = [], page_next = None\<rparr>,
      env_assignments_for_scope = \<lambda>_ _ _ _. Inr \<lparr>page_value = [], page_next = None\<rparr>,
      env_create_assignment = \<lambda>_ _. Inl (ErrText ''not served''),
      env_delete_assignment = \<lambda>_ _. Inl (ErrText ''not served''),
      env_uuid = \<lambda>_. ''uuid'', env_parse_address = \<lambda>_. None, env_max_pages = 8\<rparr>"

definition json_response :: "nat \<Rightarrow> string \<Rightarrow> response" where
  "json_response status body =
     \<lparr>resp_status = status, resp_status_text = [], resp_content_type = ''application/json'',
      resp_retry_after = [], resp_body = body\<rparr>"

definition start_world :: builders where
  "start_world = \<lparr>history = [], http_cache = [], app_cache = Map.empty, role_cache = Map.empty\<rparr>"

section \<open>The HTTP cache\<close>

text \<open>
  A service that answers a GET by what the cache key keeps of the request (the path, the
  query and some headers, not the host), always in the same way. This takes for granted
  that requests which share a key get the same answer; \<open>Cache_Laws\<close> has which requests do.
\<close>

definition stable_env :: "env \<Rightarrow> (string \<Rightarrow> response) \<Rightarrow> string \<Rightarrow> bool" where
  "stable_env env site tok \<longleftrightarrow>
     (\<forall>h. env_token env h = Inr tok) \<and>
     (\<forall>h req. req_method req = ''GET'' \<longrightarrow> env_http env h req = Received (site (cache_key req)))"

definition cache_agrees :: "(string \<Rightarrow> response) \<Rightarrow> 'z world_scheme \<Rightarrow> bool" where
  "cache_agrees site w \<longleftrightarrow> (\<forall>k r. map_of (http_cache w) k = Some r \<longrightarrow> r = site k)"

definition error_list :: "error option \<Rightarrow> error list" where
  "error_list e = (case e of None \<Rightarrow> [] | Some x \<Rightarrow> [x])"

text \<open>The answer of a GET as a function of the service, with no world in it.\<close>

definition expected_answer ::
  "env \<Rightarrow> (string \<Rightarrow> response) \<Rightarrow> string \<Rightarrow> string \<Rightarrow> 'r decoder option \<Rightarrow> 'r \<Rightarrow> error option \<times> 'r"
where
  "expected_answer env site tok u target cur =
     (case url_parse u of
        Inl e \<Rightarrow> (Some e, cur)
      | Inr a \<Rightarrow>
          (case new_request ''GET'' a tok NoBody of
             Inl e \<Rightarrow> (Some e, cur)
           | Inr req \<Rightarrow>
               (let resp = site (cache_key req) in
                case with_response env target resp cur of
                  (r, oe) \<Rightarrow>
                    (case status_result resp (error_list oe) of
                       Some e \<Rightarrow> (Some e, r)
                     | None \<Rightarrow> (check_response ''GET'' a (target \<noteq> None) resp, r)))))"

lemma cache_agrees_log [simp]: "cache_agrees site (log_events es w) = cache_agrees site w"
  by (simp add: cache_agrees_def)

lemma cache_agrees_set: "cache_agrees site w \<Longrightarrow> r = site (cache_key req) \<Longrightarrow> cache_agrees site (cache_set req r w)"
  by (simp add: cache_agrees_def cache_set_def)

lemma obtain_response_stable:
  assumes "stable_env env site tok" and "cache_agrees site w" and "req_method req = ''GET''"
  shows "\<exists>w'. obtain_response env req w = (Inr (site (cache_key req)), w') \<and> cache_agrees site w'"
proof (cases "cache_get env req w")
  case None
  with assms show ?thesis by (simp add: obtain_response_def send_def stable_env_def)
next
  case (Some r)
  with assms show ?thesis
    by (auto simp: obtain_response_def cache_get_def cache_agrees_def split: if_splits)
qed

lemma base_do_stable:
  assumes "stable_env env site tok" and "cache_agrees site w" and m: "req_method req = ''GET''"
    and resp: "resp = site (cache_key req)" and wr: "with_response env target resp cur = (r, oe)"
  shows "\<exists>w'. base_do env req target cur w =
      ((case status_result resp (error_list oe) of Some e \<Rightarrow> Inl e | None \<Rightarrow> Inr resp, r), w')
    \<and> cache_agrees site w'"
proof -
  obtain w1 where o: "obtain_response env req w = (Inr resp, w1)" and w1: "cache_agrees site w1"
    using obtain_response_stable [OF assms(1,2) m] resp by blast
  then have "cache_agrees site (if resp_status resp = 200 then cache_set req resp w1 else w1)"
    using resp by (simp add: cache_agrees_set)
  with o wr m show ?thesis by (simp add: base_do_def Let_def error_list_def)
qed

lemma query_answered:
  assumes "stable_env env site tok" and "cache_agrees site w"
  shows "\<exists>w'. query env scopes ''GET'' u NoBody target cur w =
      (expected_answer env site tok u target cur, w') \<and> cache_agrees site w'"
proof -
  let ?w1 = "log_event (TokenRequest scopes) w"
  have w1: "cache_agrees site ?w1" using assms(2) by simp
  have q: "query env scopes ''GET'' u NoBody target cur w = do_request env ''GET'' u tok target cur NoBody ?w1"
    using assms(1) by (simp add: query_def Let_def stable_env_def)
  show ?thesis
  proof (cases "url_parse u")
    case (Inl e)
    with w1 show ?thesis by (simp add: q do_request_def expected_answer_def)
  next
    case a: (Inr a)
    show ?thesis
    proof (cases "new_request ''GET'' a tok NoBody")
      case (Inl e)
      with w1 a show ?thesis by (simp add: q do_request_def expected_answer_def)
    next
      case (Inr req)
      obtain r oe where wr: "with_response env target (site (cache_key req)) cur = (r, oe)"
        by fastforce
      obtain w' where "base_do env req target cur ?w1 =
          ((case status_result (site (cache_key req)) (error_list oe) of Some e \<Rightarrow> Inl e
            | None \<Rightarrow> Inr (site (cache_key req)), r), w')" and w': "cache_agrees site w'"
        using base_do_stable [OF assms(1) w1 _ refl wr] new_request_body [OF Inr] by blast
      with a Inr wr show ?thesis
        by (cases "status_result (site (cache_key req)) (error_list oe)")
          (auto simp: q do_request_def expected_answer_def Let_def)
    qed
  qed
qed

section \<open>Status codes and errors\<close>

text \<open>
  No call ever returns the connector's \<open>ErrNotFound\<close>, whatever status Graph answers
  with: the SDK turns every status outside the 2xx range into an error of its own before
  \<open>doRequest\<close> tests for 404.
\<close>

theorem query_never_not_found:
  assumes "foreign_env env" and "\<forall>d. target = Some d \<longrightarrow> plain_decoder d"
    and "query env scopes m u b target cur w = ((Some e, r), w')"
  shows "\<not> errors_is e ErrNotFound"
  using query_error [OF assms] .

definition answering :: "nat \<Rightarrow> string \<Rightarrow> env" where
  "answering status body = quiet_env (\<lambda>_. Received (json_response status body))"

lemma foreign_answering [simp]: "foreign_env (answering status body)"
  by (simp add: foreign_env_def answering_def quiet_env_def)

lemma fst_call: "fst x = y \<Longrightarrow> x = (y, snd x)"
  by (cases x) simp

theorem query_never_not_found_witness:
  "\<exists>e. fst (query (answering 404 ''{}'') graph_read_scopes ''GET''
      ''https://graph.microsoft.com/v1.0/users'' NoBody (Some dec_map) [] start_world) = (Some e, [])
    \<and> \<not> errors_is e ErrNotFound"
proof (intro exI conjI)
  show f: "fst (query (answering 404 ''{}'') graph_read_scopes ''GET''
      ''https://graph.microsoft.com/v1.0/users'' NoBody (Some dec_map) [] start_world) =
    (Some (ErrStatus NotFoundCode []), [])"
    by code_simp
  show "\<not> errors_is (ErrStatus NotFoundCode []) ErrNotFound"
    by (rule query_never_not_found [OF foreign_answering _ fst_call [OF f]]) simp
qed

text \<open>
  A request succeeds only on one of the statuses 200, 201 and 204, with a body the
  response option could decode into the result that is returned.
\<close>

theorem do_request_success:
  assumes "do_request env m u tok target cur b w = ((None, r), w')"
  shows "\<exists>a req resp w1. url_parse u = Inr a \<and> new_request m a tok b = Inr req \<and>
    obtain_response env req w = (Inr resp, w1) \<and> resp_status resp \<in> {200, 201, 204} \<and>
    with_response env target resp cur = (r, None)"
  using do_request_ok [OF assms] .

theorem do_request_success_witness:
  "\<exists>a req resp w1. url_parse ''https://graph.microsoft.com/v1.0/users'' = Inr a \<and>
    new_request ''GET'' a ''t'' NoBody = Inr req \<and>
    obtain_response (answering 200 ''{}'') req start_world = (Inr resp, w1) \<and>
    resp_status resp \<in> {200, 201, 204} \<and>
    with_response (answering 200 ''{}'') (Some dec_map) resp [] = ([], None)"
  by (rule do_request_success, rule fst_call) code_simp

lemma base_do_error_foreign_kind:
  assumes "foreign_env env" and "\<forall>d. target = Some d \<longrightarrow> plain_decoder d"
    and "do_request env m u tok target cur b w = ((Some (ErrHTTP st raw ra rl i), r), w')"
  shows "\<exists>a resp. check_response m a (target \<noteq> None) resp = Some (ErrHTTP st raw ra rl i)
    \<and> 200 \<le> resp_status resp \<and> resp_status resp < 300"
proof (cases "url_parse u")
  case (Inl e1)
  with assms(3) foreign_url_parse [of u] show ?thesis
    by (auto simp: do_request_def foreign_sum_def foreign_error_def)
next
  case parsed: (Inr a)
  show ?thesis
  proof (cases "new_request m a tok b")
    case (Inl e1)
    with assms(3) parsed foreign_new_request [of m a tok b] show ?thesis
      by (auto simp: do_request_def foreign_sum_def foreign_error_def)
  next
    case (Inr req)
    obtain o1 r1 w1 where bd: "base_do env req target cur w = ((o1, r1), w1)"
      by (metis prod.collapse)
    show ?thesis
    proof (cases o1)
      case e1: (Inl e1)
      have "foreign_error e1" using base_do_error [OF assms(1,2)] bd e1 by blast
      with bd assms(3) parsed Inr e1 show ?thesis by (auto simp: do_request_def foreign_error_def)
    next
      case resp: (Inr resp)
      with bd assms(3) parsed Inr have "check_response m a (target \<noteq> None) resp = Some (ErrHTTP st raw ra rl i)"
        by (auto simp: do_request_def)
      with base_do_Inr bd resp show ?thesis by metis
    qed
  qed
qed

text \<open>
  The \<open>HTTPError\<close> of the connector only ever reports a success status it does not
  know, so it is never rate limited and never carries a retry delay.
\<close>

theorem http_error_never_rate_limited:
  assumes "foreign_env env" and "\<forall>d. target = Some d \<longrightarrow> plain_decoder d"
    and "do_request env m u tok target cur b w = ((Some (ErrHTTP st raw ra rl i), r), w')"
  shows "200 \<le> st \<and> st < 300 \<and> st \<notin> {200, 201, 204} \<and> ra = 0 \<and> \<not> rl"
proof -
  obtain a resp where "check_response m a (target \<noteq> None) resp = Some (ErrHTTP st raw ra rl i)"
      "200 \<le> resp_status resp" "resp_status resp < 300"
    using base_do_error_foreign_kind [OF assms] by blast
  then show ?thesis by (auto simp: check_response_ok split: if_splits)
qed

theorem http_error_never_rate_limited_witness:
  "\<exists>ra rl. fst (do_request (answering 202 ''{}'') ''GET'' ''https://graph.microsoft.com/v1.0/users''
      ''t'' (Some dec_map) [] NoBody start_world) =
      (Some (ErrHTTP 202 ''{}'' ra rl (Some ErrNoResponse)), []) \<and> ra = 0 \<and> \<not> rl"
proof (intro exI)
  have f: "fst (do_request (answering 202 ''{}'') ''GET'' ''https://graph.microsoft.com/v1.0/users''
      ''t'' (Some dec_map) [] NoBody start_world) =
      (Some (ErrHTTP 202 ''{}'' 0 False (Some ErrNoResponse)), [])" by code_simp
  with http_error_never_rate_limited [OF foreign_answering _ fst_call [OF f]]
  show "fst (do_request (answering 202 ''{}'') ''GET'' ''https://graph.microsoft.com/v1.0/users''
      ''t'' (Some dec_map) [] NoBody start_world) =
      (Some (ErrHTTP 202 ''{}'' 0 False (Some ErrNoResponse)), []) \<and> (0::int) = 0 \<and> \<not> False" by simp
qed

text \<open>
  C29: a call without a result, as every Graph write is, succeeds only if the response
  names a JSON or XML content type, and if it is JSON only with an empty body. The answer
  204 without a content type, which Graph documents for these writes, is an error.
\<close>

theorem write_success_needs_content_type:
  assumes "query_unit env m u b w = (None, w')" and "m \<noteq> ''GET''"
  shows "\<exists>req resp. new_events w w' = [TokenRequest graph_read_scopes, HttpEvent req] \<and>
    transport_response (env_http env (history w @ [TokenRequest graph_read_scopes]) req) = Inr resp \<and>
    (is_json_content_type (resp_content_type resp) \<and> resp_body resp = [] \<or>
     is_xml_content_type (resp_content_type resp))"
proof -
  let ?w = "log_event (TokenRequest graph_read_scopes) w"
  obtain r where q: "query env graph_read_scopes m u b (None :: unit decoder option) () w = ((None, r), w')"
    using assms by (auto simp: query_unit_def split: prod.splits)
  then obtain tok where d: "do_request env m u tok (None :: unit decoder option) () b ?w = ((None, r), w')"
    by (auto simp: query_def Let_def split: sum.splits)
  obtain a req resp w1 where s: "url_parse u = Inr a" "new_request m a tok b = Inr req"
    "obtain_response env req ?w = (Inr resp, w1)"
    "with_response env (None :: unit decoder option) resp () = (r, None)"
    using do_request_ok [OF d] by blast
  have m: "req_method req \<noteq> ''GET''" using new_request_body [OF s(2)] assms(2) by simp
  have t: "transport_response (env_http env (history w @ [TokenRequest graph_read_scopes]) req) = Inr resp"
    and h: "history w1 = history w @ [TokenRequest graph_read_scopes, HttpEvent req]"
    using s(3) m by (auto simp: obtain_response_def send_def)
  have "history w' = history w1"
    using d s m
    by (auto simp: do_request_def base_do_def Let_def split: prod.splits option.splits)
  with h have n: "new_events w w' = [TokenRequest graph_read_scopes, HttpEvent req]"
    by (simp add: new_events_def)
  have "is_json_content_type (resp_content_type resp) \<and> resp_body resp = [] \<or>
     is_xml_content_type (resp_content_type resp)"
    using s(4) by (auto simp: with_response_def with_json_response_def Let_def split: if_splits)
  with n t show ?thesis by blast
qed

theorem write_success_needs_content_type_witness:
  "\<exists>w' req resp. new_events start_world w' = [TokenRequest graph_read_scopes, HttpEvent req] \<and>
    transport_response (env_http (answering 204 [])
      (history start_world @ [TokenRequest graph_read_scopes]) req) = Inr resp \<and>
    (is_json_content_type (resp_content_type resp) \<and> resp_body resp = [] \<or>
     is_xml_content_type (resp_content_type resp))"
proof -
  have f: "fst (query_unit (answering 204 []) ''DELETE'' ''https://graph.microsoft.com/v1.0/users''
      NoBody start_world) = None" by code_simp
  show ?thesis
    by (rule exI, rule write_success_needs_content_type [OF fst_call [OF f]]) simp
qed

section \<open>Decoded lists have valid next links\<close>

lemma with_response_keeps:
  assumes "with_response env (Some dec) resp cur = (r, e)" and "P cur"
    and "\<And>v r' e. json_valid v \<Longrightarrow> dec cur v = (r', e) \<Longrightarrow> P r'"
  shows "P r"
  using assms(1,2) json_unmarshal_keeps [of dec cur P, OF assms(3,2)]
  by (auto simp: with_response_def with_json_response_def Let_def split: if_splits prod.splits option.splits)

lemma do_request_result:
  assumes "do_request env m u tok target cur b w = ((e, r), w')"
  shows "r = cur \<or> (\<exists>resp e'. with_response env target resp cur = (r, e'))"
proof (cases "url_parse u")
  case parsed: (Inr a)
  show ?thesis
  proof (cases "new_request m a tok b")
    case (Inr req)
    obtain o1 r1 w1 where bd: "base_do env req target cur w = ((o1, r1), w1)"
      by (metis prod.collapse)
    with assms parsed Inr have r: "r = r1" by (cases o1) (auto simp: do_request_def)
    obtain o2 w2 where o: "obtain_response env req w = (o2, w2)" by fastforce
    show ?thesis
    proof (cases o2)
      case (Inr resp)
      obtain r2 e2 where "with_response env target resp cur = (r2, e2)" by fastforce
      with bd o Inr r show ?thesis by (auto simp: base_do_def Let_def)
    qed (use bd o r in \<open>auto simp: base_do_def\<close>)
  qed (use assms parsed in \<open>auto simp: do_request_def\<close>)
qed (use assms in \<open>auto simp: do_request_def\<close>)

lemma query_keeps:
  assumes "query env scopes m u b (Some dec) cur w = ((e, r), w')" and "P cur"
    and "\<And>v r' e. json_valid v \<Longrightarrow> dec cur v = (r', e) \<Longrightarrow> P r'"
  shows "P r"
proof -
  have "r = cur \<or> (\<exists>resp e'. with_response env (Some dec) resp cur = (r, e'))"
  proof (cases "env_token env (history w)")
    case (Inr tok)
    with assms(1) have "do_request env m u tok (Some dec) cur b (log_event (TokenRequest scopes) w) = ((e, r), w')"
      by (simp add: query_def Let_def)
    from do_request_result [OF this] show ?thesis .
  qed (use assms(1) in \<open>auto simp: query_def Let_def\<close>)
  then show ?thesis
  proof (elim disjE exE)
    fix resp e'
    assume "with_response env (Some dec) resp cur = (r, e')"
    from with_response_keeps [where P = P, OF this assms(2,3)] show ?thesis .
  qed (use assms(2) in simp)
qed

lemma graph_list_link_valid:
  assumes "json_valid v" and "dec_struct (graph_list_fields zero dec) zero_graph_list v = (l, e)"
  shows "valid_utf8 (gl_next_link l)"
proof (rule dec_struct_keeps [where P = "\<lambda>l. valid_utf8 (gl_next_link l)", OF _ assms(1) _ assms(2)])
  fix d r v r' e
  assume "d \<in> snd ` set (graph_list_fields zero dec)" "valid_utf8 (gl_next_link r)" "json_valid v" "d r v = (r', e)"
  then show "valid_utf8 (gl_next_link r')"
    by (auto simp: graph_list_fields_def dec_field_def split: prod.splits)
      (metis dec_string_keeps)
qed (simp add: zero_graph_list_def)

lemma query_membership_link:
  "query env scopes m u b (Some dec_membership_list) zero_graph_list w = ((e, r), w') \<Longrightarrow>
    valid_utf8 (gl_next_link r)"
  by (rule query_keeps [where P = "\<lambda>l. valid_utf8 (gl_next_link l)"])
    (auto simp: dec_membership_list_def zero_graph_list_def [symmetric] intro: graph_list_link_valid
      simp del: dec_struct.simps, simp add: zero_graph_list_def)

section \<open>What a write sends\<close>

definition requests_in :: "event list \<Rightarrow> request list" where
  "requests_in es = List.map_filter (\<lambda>e. case e of HttpEvent req \<Rightarrow> Some req | _ \<Rightarrow> None) es"

lemma set_requests_in: "req \<in> set (requests_in es) \<longleftrightarrow> HttpEvent req \<in> set es"
  by (induction es) (auto simp: requests_in_def List.map_filter_simps split: event.splits)

lemma requests_in_simps [simp]:
  "requests_in [] = []" "requests_in (HttpEvent req # es) = req # requests_in es"
  "requests_in (TokenRequest s # es) = requests_in es"
  by (simp_all add: requests_in_def List.map_filter_simps)

lemma requests_in_append [simp]: "requests_in (es @ fs) = requests_in es @ requests_in fs"
  by (simp add: requests_in_def List.map_filter_def)

definition sent :: "'z world_scheme \<Rightarrow> 'z world_scheme \<Rightarrow> request list" where
  "sent w w' = requests_in (new_events w w')"

lemma sent_same [simp]: "sent w w = []"
  by (simp add: sent_def new_events_def)

lemma query_unit_events:
  assumes "query_unit env m u b w = (x, w')" and "req \<in> set (sent w w')"
  shows "req_method req = m \<and> req_body req = json_body b \<and>
    (\<exists>a tok. url_parse u = Inr a \<and> new_request m a tok b = Inr req)"
proof -
  obtain y where "query env graph_read_scopes m u b (None :: unit decoder option) () w = (y, w')"
    using assms(1) by (auto simp: query_unit_def split: prod.splits)
  from query_new_events [OF this] assms(2) [unfolded sent_def]
  obtain a tok where "url_parse u = Inr a" "new_request m a tok b = Inr req" by auto
  with new_request_body show ?thesis by blast
qed

section \<open>Tolerance of missing objects\<close>

text \<open>
  A call whose errors never say \<open>ErrNotFound\<close>: a handler that treats that error specially
  is the handler that does not.
\<close>

locale missing_never_reported =
  fixes ok :: "'e \<Rightarrow> bool" and call :: "'e \<Rightarrow> 'x \<Rightarrow> 'w \<Rightarrow> (error option \<times> 'r) \<times> 'w"
  assumes never: "ok e \<Longrightarrow> call e x w = ((Some err, r), w') \<Longrightarrow> \<not> errors_is err ErrNotFound"
begin

lemma tolerance_dead:
  assumes "ok e"
  shows "(case call e x w of
       ((Some err, r), w1) \<Rightarrow> if errors_is err ErrNotFound then tolerate r w1 else fail err w1
     | ((None, r), w1) \<Rightarrow> use_it r w1) =
     (case call e x w of
       ((Some err, r), w1) \<Rightarrow> fail err w1
     | ((None, r), w1) \<Rightarrow> use_it r w1)"
proof -
  obtain e1 r1 w1 where "call e x w = ((e1, r1), w1)" by (metis prod.collapse)
  then show ?thesis using never [OF assms] by (cases e1) auto
qed

end

end
