(* ===== verification/Entra_Groups.thy ===== *)
theory Entra_Groups
  imports Connector_Model
begin

text \<open>
  Groups: \<open>group.go\<close> and its helpers of \<open>helper.go\<close>. A group has an owners and a members
  entitlement; \<open>Grants\<close> reads first the members, then the owners, through a stack of page
  states; \<open>Grant\<close> and \<open>Revoke\<close> change one membership of a user.
\<close>

section \<open>Groups as resources\<close>

definition group_url :: "group \<Rightarrow> string" where
  "group_url g = entra_link
     (path_join [''view/Microsoft_AAD_IAM/GroupDetailsMenuBlade/~/Overview/groupId/'', grp_id g])"

definition group_type_value :: "group \<Rightarrow> string" where
  "group_type_value g =
     (if ''Unified'' \<in> set (grp_group_types g) then ''microsoft_365''
      else if grp_mail_enabled g \<and> grp_security_enabled g then ''mail_enabled_security''
      else if grp_security_enabled g then ''security''
      else if grp_mail_enabled g then ''distribution''
      else [])"

definition membership_type_value :: "group \<Rightarrow> string" where
  "membership_type_value g =
     (if ''DynamicMembership'' \<in> set (grp_group_types g) then ''dynamic'' else ''assigned'')"

definition group_profile :: "group \<Rightarrow> profile" where
  "group_profile g =
     (let p0 = [(''object_id'', PStr (grp_id g)),
                (''group_type'', PStr (group_type_value g)),
                (''membership_type'', PStr (membership_type_value g)),
                (''mail_enabled'', PBool (grp_mail_enabled g)),
                (''security_enabled'', PBool (grp_security_enabled g)),
                (''security_identifier'', PStr (grp_security_identifier g))];
          p1 = (if is_empty (grp_mail g) then p0 else profile_set ''mail'' (PStr (grp_mail g)) p0);
          p2 = (if is_empty (grp_classification g) then p1
                else profile_set ''classification'' (PStr (grp_classification g)) p1);
          p3 = (case grp_on_premises_security_identifier g of
                  None \<Rightarrow> p2
                | Some s \<Rightarrow> profile_set ''on_premises_security_identifier'' (PStr s) p2)
      in if grp_on_premises_sync_enabled g
         then profile_set ''on_premises_sync_enabled'' (PBool True) p3 else p3)"

text \<open>The parent the caller gives is not used.\<close>

definition group_resource :: "group \<Rightarrow> resource_id option \<Rightarrow> resource outcome" where
  "group_resource g parent =
     new_group_resource (grp_display_name g) group_resource_type (grp_id g)
       [with_group_profile (group_profile g)] [with_annotation [ExternalLink (group_url g)]]"

section \<open>Queries\<close>

definition set_group_keys :: url_values where
  "set_group_keys =
     values_set ''$top'' ''999''
       (values_set ''$select''
         (join_with '','' [''classification'', ''description'', ''displayName'', ''groupTypes'',
            ''id'', ''mail'', ''mailEnabled'', ''onPremisesSecurityIdentifier'',
            ''onPremisesSyncEnabled'', ''securityEnabled'', ''securityIdentifier'',
            ''isAssignableToRole'', ''isManagementRestricted'', ''createdDateTime'']) [])"

definition set_member_query :: url_values where
  "set_member_query =
     values_set ''$top'' ''999''
       (values_set ''$select''
         (join_with '','' [''id'', ''servicePrincipalType'', ''onPremisesSyncEnabled'']) [])"

definition skip_ad_filter :: "connector \<Rightarrow> url_values \<Rightarrow> url_values" where
  "skip_ad_filter conn v =
     (if conn_skip_ad_groups conn
      then values_set ''$count'' ''true'' (values_set ''$filter'' ''(onPremisesSyncEnabled ne true)'' v)
      else v)"

section \<open>List and Entitlements\<close>

definition groups_resource_type :: resource_type where
  "groups_resource_type = group_resource_type"

definition groups_list ::
  "env \<Rightarrow> connector \<Rightarrow> resource_id option \<Rightarrow> string \<Rightarrow> ('z world_scheme, resource list \<times> string) io"
where
  "groups_list env conn parent token =
     bind_io (lift_io (of_sum (parse_page_token token
       \<lparr>rid_type = rty_id group_resource_type, rid_resource = []\<rparr>))) (\<lambda>bag.
     bind_io (query_list env
       (first_url (build_url ''groups'' (skip_ad_filter conn set_group_keys)) bag) dec_groups_list) (\<lambda>resp.
     bind_io (lift_io (convert_all
       (\<lambda>p. bind_outcome (deref p) (\<lambda>g. group_resource g parent)) (gl_value resp))) (\<lambda>groups.
     return_io (groups, fst (bag_next_token (gl_next_link resp) bag)))))"

definition groups_entitlements :: "resource \<Rightarrow> string \<Rightarrow> ('w, entitlement list \<times> string) io" where
  "groups_entitlements r token = return_io
     ([new_permission_entitlement r type_owners (res_display_name r @ '' Group Owner'')
         (''Owner of '' @ res_display_name r @ '' group'') [user_resource_type],
       new_assignment_entitlement r type_members (res_display_name r @ '' Group Member'')
         (''Member of '' @ res_display_name r @ '' group'') [user_resource_type, group_resource_type]],
      [])"

section \<open>Grants\<close>

definition fmt_resource_grant :: "resource_id \<Rightarrow> resource_id \<Rightarrow> string \<Rightarrow> string" where
  "fmt_resource_grant rid pid permission =
     rid_type rid @ ''-grant:'' @ rid_resource rid @ '':'' @ rid_type pid @ '':''
       @ rid_resource pid @ '':'' @ permission"

definition members_entitlement :: "string \<Rightarrow> string" where
  "members_entitlement i = ''group:'' @ i @ '':members''"

text \<open>The principal of a membership and the annotations of its grant; None is a skipped member.\<close>

definition member_principal :: "membership \<Rightarrow> (resource_id \<times> annotation list) option" where
  "member_principal gm =
     (let rid = (\<lambda>t. \<lparr>rid_type = rty_id t, rid_resource = mem_id gm\<rparr>) in
      if mem_type gm = odata_type_group then
        Some (rid group_resource_type,
              annos_update (GrantExpandable [members_entitlement (mem_id gm)] False []) [])
      else if mem_type gm = odata_type_user then Some (rid user_resource_type, [])
      else if mem_type gm = odata_type_service_principal then
        (if mem_service_principal_type gm = sp_type_application
         then Some (rid enterprise_application_resource_type, [])
         else if mem_service_principal_type gm = sp_type_managed_identity
         then Some (rid managed_identity_resource_type, [])
         else None)
      else None)"

definition group_grant :: "resource \<Rightarrow> string \<Rightarrow> membership \<Rightarrow> grant option" where
  "group_grant r relation gm =
     (case member_principal gm of
        None \<Rightarrow> None
      | Some (pid, annos) \<Rightarrow>
          Some \<lparr>grant_id = fmt_resource_grant (res_id r) pid (rid_resource (res_id r) @ '':'' @ relation),
                grant_entitlement =
                  bare_entitlement (''group:'' @ rid_resource (res_id r) @ '':'' @ relation) r,
                grant_principal = bare_resource pid, grant_annotations = annos\<rparr>)"

definition get_group_grants ::
  "membership option list \<Rightarrow> resource \<Rightarrow> page_state \<Rightarrow> grant list outcome" where
  "get_group_grants members r ps =
     convert_err (\<lambda>p. bind_outcome (deref p) (\<lambda>gm. Ok (group_grant r (ps_resource_type_id ps) gm))) members"

definition group_page :: "string \<Rightarrow> string \<Rightarrow> page_state" where
  "group_page relation u = \<lparr>ps_token = u, ps_resource_type_id = relation, ps_resource_id = []\<rparr>"

definition owners_url :: "resource \<Rightarrow> string" where
  "owners_url r = build_beta_url (path_join [''groups'', rid_resource (res_id r), ''owners''])
     (values_set ''$select'' (join_with '','' [''id'']) [])"

definition members_url :: "connector \<Rightarrow> resource \<Rightarrow> string" where
  "members_url conn r = build_beta_url (path_join [''groups'', rid_resource (res_id r), ''members''])
     (skip_ad_filter conn set_member_query)"

definition groups_start :: "connector \<Rightarrow> resource \<Rightarrow> bag \<Rightarrow> bag" where
  "groups_start conn r b =
     (if bag_current b = None
      then bag_push (group_page type_members (members_url conn r))
             (bag_push (group_page type_owners (owners_url r)) b)
      else b)"

definition small_page_cutoff :: nat where
  "small_page_cutoff = 50"

definition trusted_next_link :: "'a graph_list \<Rightarrow> string" where
  "trusted_next_link resp =
     (if length (gl_value resp) \<le> small_page_cutoff then [] else gl_next_link resp)"

definition groups_grants ::
  "env \<Rightarrow> connector \<Rightarrow> resource \<Rightarrow> string \<Rightarrow> ('z world_scheme, grant list \<times> string) io"
where
  "groups_grants env conn r token =
     bind_io (lift_io (of_sum (bag_unmarshal token))) (\<lambda>b0.
     let b = groups_start conn r b0 in
     bind_io (lift_io (deref (bag_current b))) (\<lambda>ps w.
       case query env graph_read_scopes ''GET'' (ps_token ps) NoBody
              (Some dec_membership_list) zero_graph_list w of
         ((Some e, resp), w1) \<Rightarrow> if errors_is e ErrNotFound then (Ok ([], []), w1) else (Err e, w1)
       | ((None, resp), w1) \<Rightarrow>
           (let page_token = fst (bag_next_token (trusted_next_link resp) b)
            in (bind_outcome (get_group_grants (gl_value resp) r ps) (\<lambda>gs. Ok (gs, page_token)), w1))))"

section \<open>Grant and Revoke\<close>

definition get_group_grant_url :: "resource \<Rightarrow> string" where
  "get_group_grant_url p =
     url_string (empty_url\<lparr>url_scheme := ''https'', url_host := ''graph.microsoft.com'',
       url_path := path_join [''v1.0'', ''directoryObjects'', rid_resource (res_id p)]\<rparr>)"

definition only_users_error :: error where
  "only_users_error = ErrText ''baton-azure-infrastructure: only users can be granted group entitlements''"

text \<open>The switch on the entitlement's id: the address of a relation, or of one member of it.\<close>

definition relation_address :: "entitlement \<Rightarrow> string list \<Rightarrow> string option" where
  "relation_address e rest =
     (let group_id = rid_resource (res_id (ent_resource e)) in
      if has_suffix (ent_id e) '':owners'' then
        Some (build_url (path_join ([''groups'', group_id, ''owners''] @ rest)) [])
      else if has_suffix (ent_id e) '':members'' then
        Some (build_url (path_join ([''groups'', group_id, ''members''] @ rest)) [])
      else None)"

definition groups_grant ::
  "env \<Rightarrow> resource \<Rightarrow> entitlement \<Rightarrow> ('z world_scheme, unit) io" where
  "groups_grant env p e w =
     (if rid_type (res_id p) \<noteq> rty_id user_resource_type then (Err only_users_error, w)
      else
        (case relation_address e [''$ref''] of
              None \<Rightarrow> (Err (ErrText ''baton-azure-infrastructure: only members can provision membership or owners entitlements to a group''), w)
            | Some u \<Rightarrow>
                (case query_unit env ''POST'' u
                        (marshal_to_reader \<lparr>asg_object_ref = get_group_grant_url p\<rparr>) w of
                   (Some err, w1) \<Rightarrow>
                     if str_contains (error_text err) ''added object references already exist''
                     then (Ok (), w1) else (Err err, w1)
                 | (None, w1) \<Rightarrow> (Ok (), w1))))"

definition groups_revoke :: "env \<Rightarrow> grant \<Rightarrow> ('z world_scheme, unit) io" where
  "groups_revoke env g w =
     (let e = grant_entitlement g; p = grant_principal g in
      if rid_type (res_id p) \<noteq> rty_id user_resource_type then (Err only_users_error, w)
      else
        (case relation_address e [rid_resource (res_id p), ''$ref''] of
              None \<Rightarrow> (Err (ErrText ''baton-azure-infrastructure: only can revoke membership or owners entitlements to a group''), w)
            | Some u \<Rightarrow>
                (case query_unit env ''DELETE'' u NoBody w of
                   (Some err, w1) \<Rightarrow>
                     if errors_is err ErrNotFound then (Ok (), w1) else (Err err, w1)
                 | (None, w1) \<Rightarrow> (Ok (), w1))))"

end
