(* ===== verification/Paging.thy ===== *)
theory Paging
  imports Pagination World
begin

text \<open>
  The loop of the SDK's syncer over the pages of a method, and the contract between the
  syncer, which only passes opaque tokens on, and the methods, which keep their state in
  them. The locale \<open>token_codec\<close> is what a token promises, \<open>paged_method\<close> a method that
  works on the states behind its tokens: for such a method the loop over tokens is the
  loop over states.
\<close>

section \<open>The syncer's loop\<close>

text \<open>Calling a method from a token until it returns the empty one; the bound is on the calls.\<close>

fun sync_pages ::
  "nat \<Rightarrow> (string \<Rightarrow> ('w, 'a list \<times> string) io) \<Rightarrow> string \<Rightarrow> ('w, 'a list) io"
where
  "sync_pages 0 call token = lift_io Diverged"
| "sync_pages (Suc n) call token =
     bind_io (call token) (\<lambda>(xs, next_token).
       if next_token = [] then return_io xs
       else bind_io (sync_pages n call next_token) (\<lambda>ys. return_io (xs @ ys)))"

text \<open>The same loop over states; None ends it.\<close>

fun state_pages :: "nat \<Rightarrow> ('s \<Rightarrow> ('w, 'a list \<times> 's option) io) \<Rightarrow> 's \<Rightarrow> ('w, 'a list) io" where
  "state_pages 0 step s = lift_io Diverged"
| "state_pages (Suc n) step s =
     bind_io (step s) (\<lambda>(xs, next_state).
       case next_state of
         None \<Rightarrow> return_io xs
       | Some s' \<Rightarrow> bind_io (state_pages n step s') (\<lambda>ys. return_io (xs @ ys)))"

definition token_of :: "('s \<Rightarrow> string) \<Rightarrow> 's option \<Rightarrow> string" where
  "token_of enc s = (case s of None \<Rightarrow> [] | Some x \<Rightarrow> enc x)"

section \<open>The contract of tokens\<close>

locale token_codec =
  fixes enc :: "'s \<Rightarrow> string" and dec :: "string \<Rightarrow> error + 's" and live :: "'s \<Rightarrow> bool"
  assumes dec_enc: "live s \<Longrightarrow> dec (enc s) = Inr s"
    and enc_nonempty: "live s \<Longrightarrow> enc s \<noteq> []"
begin

lemma enc_inject: "live s \<Longrightarrow> live t \<Longrightarrow> enc s = enc t \<Longrightarrow> s = t"
  by (metis dec_enc sum.inject(2))

end

locale paged_method = token_codec enc dec live
  for enc :: "'s \<Rightarrow> string" and dec :: "string \<Rightarrow> error + 's" and live :: "'s \<Rightarrow> bool" +
  fixes step :: "'c \<Rightarrow> 's \<Rightarrow> ('w, 'a list \<times> 's option) io"
    and call :: "'c \<Rightarrow> string \<Rightarrow> ('w, 'a list \<times> string) io"
  assumes call_token: "dec t = Inr s \<Longrightarrow> live s \<Longrightarrow>
      call c t w = bind_io (step c s) (\<lambda>(xs, n). return_io (xs, token_of enc n)) w"
    and step_live: "live s \<Longrightarrow> step c s w = (Ok (xs, Some s'), w') \<Longrightarrow> live s'"
begin

text \<open>Following the tokens of a method is following its states.\<close>

lemma sync_states: "live s \<Longrightarrow> sync_pages n (call c) (enc s) w = state_pages n (step c) s w"
proof (induction n arbitrary: s w)
  case (Suc n)
  obtain o1 w1 where st: "step c s w = (o1, w1)" by fastforce
  have c: "call c (enc s) w = bind_io (step c s) (\<lambda>(xs, n). return_io (xs, token_of enc n)) w"
    using call_token [OF dec_enc] Suc.prems by blast
  show ?case
  proof (cases o1)
    case (Ok p)
    obtain xs nx where p: "p = (xs, nx)" by (cases p)
    show ?thesis
    proof (cases nx)
      case None
      then show ?thesis using st Ok p by (simp add: c bind_io_def return_io_def token_of_def)
    next
      case (Some s')
      with step_live Suc.prems st Ok p have l: "live s'" by blast
      with enc_nonempty Suc.IH [OF l] st Ok p Some show ?thesis
        by (simp add: c bind_io_def return_io_def token_of_def)
    qed
  qed (use st in \<open>simp_all add: c bind_io_def\<close>)
qed simp

text \<open>A call that starts afresh is the call on the state it starts from.\<close>

lemma sync_fresh:
  assumes "live s" and "\<And>w. call c t w = call c (enc s) w"
  shows "sync_pages n (call c) t w = state_pages n (step c) s w"
proof (cases n)
  case (Suc m)
  then show ?thesis
    using sync_states [OF assms(1), of n c w] by (simp add: bind_io_def assms(2))
qed simp

end

text \<open>Tokens made of live bags keep the contract.\<close>

interpretation bag_token: token_codec bag_marshal bag_unmarshal bag_live
proof
  fix b
  assume "bag_live b"
  then have b: "bag_ok b" "bag_current b \<noteq> None" by (simp_all add: bag_live_def)
  from bag_unmarshal_marshal [OF b] show "bag_unmarshal (bag_marshal b) = Inr b" .
  from bag_marshal_nonempty [OF b(2)] show "bag_marshal b \<noteq> []" .
qed

lemma bag_unmarshal_live: "bag_unmarshal t = Inr b \<Longrightarrow> bag_current b \<noteq> None \<Longrightarrow> bag_live b"
  by (auto simp: bag_live_def bag_wf_def dest: bag_unmarshal_ok)

text \<open>
  C38: what \<open>Push\<close>, \<open>Pop\<close> and \<open>NextToken\<close> do to a bag is what the operations of a stack do:
  a push adds a top, a pop takes it off, the next token replaces the top's token, or drops
  the top when the token is empty.
\<close>

theorem bag_refines_stack:
  assumes "bag_wf b"
  shows "bag_stack (bag_push s b) = s # bag_stack b \<and>
    (\<exists>b'. bag_pop b = (case bag_stack b of [] \<Rightarrow> None | x # _ \<Rightarrow> Some x, b') \<and>
       bag_stack b' = tl (bag_stack b)) \<and>
    (\<exists>b'. bag_next_token t b = (bag_marshal b', b') \<and> bag_stack b' = stack_next t (bag_stack b))"
proof (intro conjI)
  show "bag_stack (bag_push s b) = s # bag_stack b" using bag_push_stack [OF assms] by blast
  obtain r b1 where p: "bag_pop b = (r, b1)" by fastforce
  from bag_pop_stack [OF assms p] p
  show "\<exists>b'. bag_pop b = (case bag_stack b of [] \<Rightarrow> None | x # _ \<Rightarrow> Some x, b') \<and>
       bag_stack b' = tl (bag_stack b)" by auto
  obtain tok b2 where n: "bag_next_token t b = (tok, b2)" by fastforce
  from bag_next_token_stack [OF assms n] n
  show "\<exists>b'. bag_next_token t b = (bag_marshal b', b') \<and> bag_stack b' = stack_next t (bag_stack b)"
    by auto
qed

definition two_pages :: bag where
  "two_pages = bag_push \<lparr>ps_token = ''m'', ps_resource_type_id = ''members'', ps_resource_id = []\<rparr>
     (bag_push \<lparr>ps_token = ''o'', ps_resource_type_id = ''owners'', ps_resource_id = []\<rparr> empty_bag)"

theorem bag_refines_stack_witness:
  "map ps_token (bag_stack (snd (bag_next_token [] two_pages))) = [''o'']"
proof -
  have wf: "bag_wf two_pages" by code_simp
  have "map ps_token (bag_stack two_pages) = [''m'', ''o'']" by code_simp
  then have "map ps_token (stack_next [] (bag_stack two_pages)) = [''o'']"
    by (auto simp: stack_next_def)
  with bag_refines_stack [OF wf, of zero_page_state "[]"] show ?thesis by auto
qed

text \<open>
  C39: the token a method returns after reading a page parses back to exactly the bag it
  stands for, from whatever token the method was called with and for every next link that
  is valid UTF-8 (decoding only gives such).
\<close>

theorem next_token_round_trip:
  assumes "parse_page_token t rid = Inr b" and "valid_utf8 (rid_type rid)" and "valid_utf8 (rid_resource rid)"
    and "valid_utf8 link" and "bag_next_token link b = (tok, b')" and "tok \<noteq> []"
  shows "parse_page_token tok rid' = Inr b'"
proof -
  obtain b0 where b0: "bag_unmarshal t = Inr b0"
      "b = (if bag_current b0 = None then bag_push \<lparr>ps_token = [], ps_resource_type_id = rid_type rid,
          ps_resource_id = rid_resource rid\<rparr> b0 else b0)"
    using assms(1) by (cases "bag_unmarshal t") (auto simp: parse_page_token_def)
  have "bag_ok b" using bag_unmarshal_ok [OF b0(1)] b0(2) assms(2,3)
    by (auto simp: page_state_ok_def intro: bag_push_ok)
  moreover have cur: "bag_current b \<noteq> None" by (rule parse_page_token_current [OF assms(1)])
  ultimately have "bag_live b" by (auto simp: bag_live_def bag_wf_def)
  from bag_next_token_live [OF this assms(4,5)] assms(6)
  have "bag_live b'" "tok = bag_marshal b'" by (auto split: if_splits)
  then show ?thesis
    using parse_page_token_marshal by (auto simp: bag_live_def simp del: not_None_eq)
qed

theorem next_token_round_trip_witness:
  "\<exists>tok b'. tok \<noteq> [] \<and> parse_page_token tok \<lparr>rid_type = ''group'', rid_resource = []\<rparr> = Inr b'"
proof -
  let ?r = "\<lparr>rid_type = ''user'', rid_resource = []\<rparr>"
  obtain b where b: "parse_page_token [] ?r = Inr b"
    by (simp add: parse_page_token_def bag_unmarshal_def)
  obtain tok b' where n: "bag_next_token ''n'' b = (tok, b')" by fastforce
  have "tok \<noteq> []"
    using b n by (auto simp: parse_page_token_def bag_unmarshal_def bag_next_token_def bag_pop_def
        bag_push_def bag_marshal_def bag_json_def empty_bag_def states_of_def Let_def)
  moreover have "parse_page_token tok \<lparr>rid_type = ''group'', rid_resource = []\<rparr> = Inr b'"
    by (rule next_token_round_trip [OF b _ _ _ n \<open>tok \<noteq> []\<close>]) simp_all
  ultimately show ?thesis by blast
qed

end
