(* ===== verification/Group_Laws.thy ===== *)
theory Group_Laws
  imports Http_Laws Entra_Groups Paging
begin

text \<open>
  What is proved of groups: listing grants over all calls gives the pages of both relations
  up to the first small one, small pages end a relation, a missing group is an error, and \<open>Grant\<close>
  and \<open>Revoke\<close> address the group, relation and member of their arguments, though the
  body of the request is empty.
\<close>

section \<open>Grants as a method on page states\<close>

definition next_state :: "bag \<Rightarrow> bag option" where
  "next_state b = (if bag_current b = None then None else Some b)"

text \<open>\<open>Grants\<close> behind its token: one page of the relation on top of the bag.\<close>

definition groups_step ::
  "env \<times> connector \<times> resource \<Rightarrow> bag \<Rightarrow> ('z world_scheme, grant list \<times> bag option) io"
where
  "groups_step c b =
     (case c of (env, conn, r) \<Rightarrow>
      bind_io (lift_io (deref (bag_current b))) (\<lambda>ps w.
       case query env graph_read_scopes ''GET'' (ps_token ps) NoBody
              (Some dec_membership_list) zero_graph_list w of
         ((Some e, resp), w1) \<Rightarrow> if errors_is e ErrNotFound then (Ok ([], None), w1) else (Err e, w1)
       | ((None, resp), w1) \<Rightarrow>
           (bind_outcome (get_group_grants (gl_value resp) r ps) (\<lambda>gs.
              Ok (gs, next_state (snd (bag_next_token (trusted_next_link resp) b)))), w1)))"

definition groups_call ::
  "env \<times> connector \<times> resource \<Rightarrow> string \<Rightarrow> ('z world_scheme, grant list \<times> string) io" where
  "groups_call c token = (case c of (env, conn, r) \<Rightarrow> groups_grants env conn r token)"

lemma token_of_next_state:
  "bag_next_token t b = (tok, b') \<Longrightarrow> token_of bag_marshal (next_state b') = tok"
  by (auto simp: token_of_def next_state_def bag_next_token_def bag_marshal_def Let_def
      split: option.splits if_splits prod.splits)

lemma trusted_next_link_valid: "valid_utf8 (gl_next_link l) \<Longrightarrow> valid_utf8 (trusted_next_link l)"
  by (simp add: trusted_next_link_def)

interpretation group_pages: paged_method bag_marshal bag_unmarshal bag_live groups_step groups_call
proof
  fix t :: string and s and c :: "env \<times> connector \<times> resource" and w :: "'z world_scheme"
  assume u: "bag_unmarshal t = Inr s" and l: "bag_live s"
  obtain env conn r where c: "c = (env, conn, r)" by (cases c)
  obtain ps where ps: "bag_current s = Some ps" using l by (auto simp: bag_live_def)
  then have st: "groups_start conn r s = s" by (simp add: groups_start_def)
  obtain e resp w1 where q: "query env graph_read_scopes ''GET'' (ps_token ps) NoBody
      (Some dec_membership_list) zero_graph_list w = ((e, resp), w1)" by (metis prod.collapse)
  obtain tok b' where n: "bag_next_token (trusted_next_link resp) s = (tok, b')" by fastforce
  show "groups_call c t w = bind_io (groups_step c s) (\<lambda>(xs, n). return_io (xs, token_of bag_marshal n)) w"
    using token_of_next_state [OF n]
    by (cases e; cases "get_group_grants (gl_value resp) r ps")
      (simp_all add: groups_call_def groups_step_def groups_grants_def c u ps st q n bind_io_def
        lift_io_def return_io_def Let_def token_of_def)
next
  fix s and c :: "env \<times> connector \<times> resource" and w w' :: "'z world_scheme" and xs s'
  assume l: "bag_live s" and st: "groups_step c s w = (Ok (xs, Some s'), w')"
  obtain env conn r where c: "c = (env, conn, r)" by (cases c)
  obtain ps where ps: "bag_current s = Some ps" using l by (auto simp: bag_live_def)
  obtain e resp w1 where q: "query env graph_read_scopes ''GET'' (ps_token ps) NoBody
      (Some dec_membership_list) zero_graph_list w = ((e, resp), w1)" by (metis prod.collapse)
  obtain tok b' where n: "bag_next_token (trusted_next_link resp) s = (tok, b')" by fastforce
  have "next_state b' = Some s'"
    using st by (cases e) (auto simp: groups_step_def c ps q n bind_io_def lift_io_def split: if_splits)
  then have "bag_current b' \<noteq> None" "b' = s'" by (auto simp: next_state_def split: if_splits)
  with bag_next_token_live [OF l trusted_next_link_valid [OF query_membership_link [OF q]] n]
  show "bag_live s'" by (auto split: if_splits)
qed

section \<open>The grants of a page\<close>

text \<open>
  The type under which a member is synced, and the grant of the membership.
\<close>

definition member_kind :: "membership \<Rightarrow> string option" where
  "member_kind gm =
     (if mem_type gm = ''#microsoft.graph.servicePrincipal''
      then map_of [(''Application'', ''enterprise_application''), (''ManagedIdentity'', ''managed_identity'')]
             (mem_service_principal_type gm)
      else map_of [(''#microsoft.graph.user'', ''user''), (''#microsoft.graph.group'', ''group'')] (mem_type gm))"

definition member_grant :: "resource \<Rightarrow> string \<Rightarrow> membership \<Rightarrow> grant option" where
  "member_grant r relation gm =
     map_option (\<lambda>ty.
       \<lparr>grant_id = rid_type (res_id r) @ ''-grant:'' @ rid_resource (res_id r) @ '':'' @ ty @ '':'' @ mem_id gm
          @ '':'' @ rid_resource (res_id r) @ '':'' @ relation,
        grant_entitlement = bare_entitlement (''group:'' @ rid_resource (res_id r) @ '':'' @ relation) r,
        grant_principal = bare_resource \<lparr>rid_type = ty, rid_resource = mem_id gm\<rparr>,
        grant_annotations =
          (if ty = ''group'' then [GrantExpandable [''group:'' @ mem_id gm @ '':members''] False []] else [])\<rparr>)
     (member_kind gm)"

lemma group_grant_member: "group_grant r relation gm = member_grant r relation gm"
  by (simp add: group_grant_def member_principal_def member_grant_def member_kind_def fmt_resource_grant_def Let_def
      type_constants annos_update_def members_entitlement_def)

text \<open>The grants a page stands for; null entries have none.\<close>

definition page_grants :: "resource \<Rightarrow> string \<Rightarrow> membership graph_list \<Rightarrow> grant list" where
  "page_grants r relation p = List.map_filter (\<lambda>m. Option.bind m (member_grant r relation)) (gl_value p)"

lemma page_grants_code: "page_grants r relation p = List.map_filter (\<lambda>m. Option.bind m (group_grant r relation)) (gl_value p)"
  by (simp add: page_grants_def group_grant_member [abs_def])

definition no_nulls :: "'a graph_list \<Rightarrow> bool" where
  "no_nulls p \<longleftrightarrow> None \<notin> set (gl_value p)"

lemma get_group_grants_page:
  assumes "no_nulls p" and "ps_resource_type_id ps = relation"
  shows "get_group_grants (gl_value p) r ps = Ok (page_grants r relation p)"
proof -
  have "convert_err (\<lambda>m. bind_outcome (deref m) (\<lambda>gm. Ok (group_grant r (ps_resource_type_id ps) gm)))
      (gl_value p) = Ok (convert (\<lambda>m. Option.bind m (group_grant r relation)) (gl_value p))"
  proof (rule convert_err_total)
    fix t
    assume "t \<in> set (gl_value p)"
    then obtain gm where "t = Some gm" using assms(1) unfolding no_nulls_def by (metis option.exhaust)
    then show "bind_outcome (deref t) (\<lambda>gm. Ok (group_grant r (ps_resource_type_id ps) gm)) =
        Ok (Option.bind t (group_grant r relation))" by (simp add: assms(2))
  qed
  then show ?thesis by (simp add: get_group_grants_def page_grants_code convert_map_filter)
qed

text \<open>
  The pages of a list as the service has them: each answers without error, and has a next
  link exactly when there is another, which the link names.
\<close>

fun list_chain ::
  "env \<Rightarrow> (string \<Rightarrow> response) \<Rightarrow> string \<Rightarrow> 'a graph_list decoder \<Rightarrow> string \<Rightarrow> 'a graph_list list \<Rightarrow> bool"
where
  "list_chain env site tok dec u [] \<longleftrightarrow> False"
| "list_chain env site tok dec u (p # ps) \<longleftrightarrow>
     expected_answer env site tok u (Some dec) zero_graph_list = (None, p) \<and> no_nulls p \<and>
     (if ps = [] then gl_next_link p = []
      else gl_next_link p \<noteq> [] \<and> list_chain env site tok dec (gl_next_link p) ps)"

text \<open>
  \<open>Grants\<close> takes a page of at most 50 entries for the last one: the pages it gets to are
  those up to the first such page.
\<close>

fun read_pages :: "'a graph_list list \<Rightarrow> 'a graph_list list" where
  "read_pages [] = []"
| "read_pages (p # ps) = p # (if length (gl_value p) \<le> 50 then [] else read_pages ps)"

lemma read_pages_all: "\<forall>p\<in>set (butlast ps). 50 < length (gl_value p) \<Longrightarrow> read_pages ps = ps"
  by (induction ps) (auto split: if_splits)

lemma read_pages_length: "length (read_pages ps) \<le> length ps"
  by (induction ps) auto

lemma read_pages_nil [simp]: "read_pages ps = [] \<longleftrightarrow> ps = []"
  by (cases ps) auto

text \<open>The same pages by the links \<open>Grants\<close> follows.\<close>

fun membership_chain ::
  "env \<Rightarrow> (string \<Rightarrow> response) \<Rightarrow> string \<Rightarrow> string \<Rightarrow> membership graph_list list \<Rightarrow> bool"
where
  "membership_chain env site tok u [] \<longleftrightarrow> False"
| "membership_chain env site tok u (p # ps) \<longleftrightarrow>
     expected_answer env site tok u (Some dec_membership_list) zero_graph_list = (None, p) \<and>
     no_nulls p \<and>
     (if ps = [] then trusted_next_link p = []
      else trusted_next_link p \<noteq> [] \<and> membership_chain env site tok (trusted_next_link p) ps)"

lemma list_chain_read:
  "list_chain env site tok dec_membership_list u ps \<Longrightarrow> membership_chain env site tok u (read_pages ps)"
  by (induction ps arbitrary: u) (auto simp: trusted_next_link_def small_page_cutoff_def split: if_splits)

lemma groups_step_page:
  assumes "stable_env env site tok" and "cache_agrees site w" and "bag_live b"
    and st: "bag_stack b = group_page relation u # rest"
    and ans: "expected_answer env site tok u (Some dec_membership_list) zero_graph_list = (None, p)"
    and "no_nulls p"
  shows "\<exists>b' w'. groups_step (env, conn, r) b w = (Ok (page_grants r relation p, next_state b'), w') \<and>
    cache_agrees site w' \<and>
    bag_stack b' = (if trusted_next_link p = [] then rest
                    else group_page relation (trusted_next_link p) # rest) \<and>
    (bag_stack b' \<noteq> [] \<longrightarrow> bag_live b' \<and> next_state b' = Some b') \<and>
    (bag_stack b' = [] \<longrightarrow> next_state b' = None)"
proof -
  have wf: "bag_wf b" using assms(3) by (simp add: bag_live_def)
  have cur: "bag_current b = Some (group_page relation u)"
    using st by (auto simp: bag_stack_def split: option.splits)
  obtain w' where q: "query env graph_read_scopes ''GET'' u NoBody (Some dec_membership_list)
      zero_graph_list w = ((None, p), w')" and w': "cache_agrees site w'"
    using query_answered [OF assms(1,2)] ans by metis
  obtain tk b' where n: "bag_next_token (trusted_next_link p) b = (tk, b')" by fastforce
  have v: "valid_utf8 (trusted_next_link p)"
    by (rule trusted_next_link_valid [OF query_membership_link [OF q]])
  have s: "bag_stack b' = stack_next (trusted_next_link p) (bag_stack b)" "bag_wf b'"
    using bag_next_token_stack [OF wf n] by simp_all
  have "groups_step (env, conn, r) b w = (Ok (page_grants r relation p, next_state b'), w')"
    using get_group_grants_page [OF assms(6), of "group_page relation u" relation r] q n cur
    by (simp add: groups_step_def bind_io_def lift_io_def group_page_def)
  moreover have "bag_stack b' \<noteq> [] \<longrightarrow> bag_live b' \<and> next_state b' = Some b'"
    using bag_next_token_live [OF assms(3) v n] bag_wf_stack [OF s(2)]
    by (auto simp: next_state_def)
  moreover have "bag_stack b' = [] \<longrightarrow> next_state b' = None"
    using bag_wf_stack [OF s(2)] by (simp add: next_state_def)
  moreover have "bag_stack b' = (if trusted_next_link p = [] then rest
      else group_page relation (trusted_next_link p) # rest)"
    using s(1) st by (simp add: stack_next_def group_page_def)
  ultimately show ?thesis using w' by blast
qed

text \<open>A whole relation: its pages are read in order, then the rest of the stack.\<close>

lemma groups_chain:
  assumes "stable_env env site tok"
  shows "cache_agrees site w \<Longrightarrow> bag_live b \<Longrightarrow> bag_stack b = group_page relation u # rest \<Longrightarrow>
    membership_chain env site tok u ps \<Longrightarrow>
    \<exists>b' w'. cache_agrees site w' \<and> bag_stack b' = rest \<and> (rest \<noteq> [] \<longrightarrow> bag_live b') \<and>
      state_pages (length ps + n) (groups_step (env, conn, r)) b w =
        (if rest = [] then (Ok (concat (map (page_grants r relation) ps)), w')
         else bind_io (state_pages n (groups_step (env, conn, r)) b')
           (\<lambda>ys. return_io (concat (map (page_grants r relation) ps) @ ys)) w')"
proof (induction ps arbitrary: u b w)
  case (Cons p ps)
  let ?step = "groups_step (env, conn, r)"
  obtain b1 w1 where st: "?step b w = (Ok (page_grants r relation p, next_state b1), w1)"
    and w1: "cache_agrees site w1"
    and s1: "bag_stack b1 = (if trusted_next_link p = [] then rest
                    else group_page relation (trusted_next_link p) # rest)"
    and l1: "bag_stack b1 \<noteq> [] \<longrightarrow> bag_live b1 \<and> next_state b1 = Some b1"
    and n1: "bag_stack b1 = [] \<longrightarrow> next_state b1 = None"
    using groups_step_page [OF assms Cons.prems(1-3), of p conn r] Cons.prems(4)
    by (metis membership_chain.simps(2))
  show ?case
  proof (cases "ps = []")
    case True
    then have t: "trusted_next_link p = []" using Cons.prems(4) by simp
    show ?thesis
    proof (cases "rest = []")
      case r: True
      with t s1 n1 have "next_state b1 = None" by simp
      with st r t s1 w1 True show ?thesis
        by (intro exI [of _ b1] exI [of _ w1]) (simp add: bind_io_def return_io_def)
    next
      case r: False
      with t s1 l1 have "bag_live b1" "next_state b1 = Some b1" by simp_all
      with st r t s1 w1 True show ?thesis
        by (intro exI [of _ b1] exI [of _ w1]) (simp add: bind_io_def)
    qed
  next
    case False
    then have t: "trusted_next_link p \<noteq> []"
      and ch: "membership_chain env site tok (trusted_next_link p) ps"
      using Cons.prems(4) by auto
    then have s: "bag_stack b1 = group_page relation (trusted_next_link p) # rest" using s1 by simp
    then have l: "bag_live b1" "next_state b1 = Some b1" using l1 by simp_all
    from Cons.IH [OF w1 l(1) s ch] obtain b' w' where
      IH: "cache_agrees site w'" "bag_stack b' = rest" "rest \<noteq> [] \<longrightarrow> bag_live b'"
        "state_pages (length ps + n) ?step b1 w1 =
          (if rest = [] then (Ok (concat (map (page_grants r relation) ps)), w')
           else bind_io (state_pages n ?step b')
             (\<lambda>ys. return_io (concat (map (page_grants r relation) ps) @ ys)) w')" by blast
    have "state_pages (length (p # ps) + n) ?step b w =
        (if rest = [] then (Ok (concat (map (page_grants r relation) (p # ps))), w')
         else bind_io (state_pages n ?step b')
           (\<lambda>ys. return_io (concat (map (page_grants r relation) (p # ps)) @ ys)) w')"
      using st l(2) IH(4)
      by (auto simp: bind_io_def return_io_def split: prod.splits outcome.splits)
    with IH show ?thesis by blast
  qed
qed simp

text \<open>The first call starts from the two relations, the members on top.\<close>

lemma groups_fresh:
  "bag_live (groups_start conn r empty_bag)"
  "bag_stack (groups_start conn r empty_bag) =
    [group_page type_members (members_url conn r), group_page type_owners (owners_url r)]"
  "sync_pages n (groups_grants env conn r) [] w = state_pages n (groups_step (env, conn, r)) (groups_start conn r empty_bag) w"
proof -
  define b where "b = groups_start conn r empty_bag"
  have b: "bag_stack b = [group_page type_members (members_url conn r), group_page type_owners (owners_url r)]"
    and wf: "bag_wf b" and cur: "bag_current b \<noteq> None"
    by (simp_all add: b_def groups_start_def empty_bag_def bag_push_def bag_stack_def states_of_def bag_wf_def)
  have "bag_ok b"
    by (simp add: b_def groups_start_def empty_bag_def bag_push_def states_of_def bag_ok_def
        page_state_ok_def group_page_def members_url_def owners_url_def type_constants)
  with wf cur have live: "bag_live b" by (simp add: bag_live_def)
  have fresh: "groups_call (env, conn, r) [] v = groups_call (env, conn, r) (bag_marshal b) v" for v :: "'a world_scheme"
  proof -
    have "groups_start conn r b = b" using cur by (auto simp: groups_start_def)
    then show ?thesis
      using bag_token.dec_enc [OF live]
      by (simp add: groups_call_def groups_grants_def bag_unmarshal_def [of "[]"] b_def)
  qed
  have "sync_pages n (groups_grants env conn r) [] w = state_pages n (groups_step (env, conn, r)) b w"
    using group_pages.sync_fresh [OF live, of "(env, conn, r)" "[]" n w, OF fresh]
    by (simp add: groups_call_def [abs_def])
  with b live show "bag_live (groups_start conn r empty_bag)"
    "bag_stack (groups_start conn r empty_bag) =
      [group_page type_members (members_url conn r), group_page type_owners (owners_url r)]"
    "sync_pages n (groups_grants env conn r) [] w = state_pages n (groups_step (env, conn, r)) (groups_start conn r empty_bag) w"
    by (simp_all add: b_def)
qed

text \<open>
  C1: listing the grants of a group, call after call until the token is empty, returns
  exactly the grants of the members and then of the owners, in the order of the service's
  pages, whatever the HTTP cache keeps. The pages of a relation are those the service links,
  one after the other; of them \<open>Grants\<close> reads up to the first that has at most 50 entries,
  so its result is complete when every page but the last of each relation has more. Each
  grant is spelled out: the entitlement of the relation, the member under its own type, and
  the nested members entitlement to expand when the member is a group; members of other
  kinds have none.
\<close>

theorem groups_grants_complete:
  assumes "stable_env env site tok" and "cache_agrees site w"
    and "list_chain env site tok dec_membership_list (members_url conn r) ms"
    and "list_chain env site tok dec_membership_list (owners_url r) os"
    and "length ms + length os \<le> n"
  shows "\<exists>w' gs. sync_pages n (groups_grants env conn r) [] w = (Ok gs, w') \<and>
    gs = concat (map (page_grants r ''members'') (read_pages ms)) @ concat (map (page_grants r ''owners'') (read_pages os)) \<and>
    ((\<forall>p\<in>set (butlast ms @ butlast os). 50 < length (gl_value p)) \<longrightarrow>
      gs = concat (map (page_grants r ''members'') ms) @ concat (map (page_grants r ''owners'') os))"
proof -
  let ?step = "groups_step (env, conn, r)" and ?b = "groups_start conn r empty_bag"
    and ?ms = "read_pages ms" and ?os = "read_pages os"
  note chains = assms(3,4) [THEN list_chain_read]
  define k where "k = n - (length ?ms + length ?os)"
  then have k: "n = length ?ms + (length ?os + k)"
    using assms(5) read_pages_length [of ms] read_pages_length [of os] by simp
  obtain b' w1 where s1: "cache_agrees site w1" "bag_stack b' = [group_page type_owners (owners_url r)]" "bag_live b'"
    "state_pages (length ?ms + (length ?os + k)) ?step ?b w =
       bind_io (state_pages (length ?os + k) ?step b')
         (\<lambda>ys. return_io (concat (map (page_grants r type_members) ?ms) @ ys)) w1"
    using groups_chain [OF assms(1,2) groups_fresh(1,2) chains(1), of "length ?os + k" conn r] by auto
  obtain w2 where "state_pages (length ?os + k) ?step b' w1 = (Ok (concat (map (page_grants r type_owners) ?os)), w2)"
    using groups_chain [OF assms(1) s1(1,3,2) chains(2), of k conn r] by auto
  with s1(4) have "state_pages n ?step ?b w = (Ok (concat (map (page_grants r ''members'') ?ms)
      @ concat (map (page_grants r ''owners'') ?os)), w2)"
    by (simp add: k bind_io_def return_io_def type_constants)
  then show ?thesis using read_pages_all [of ms] read_pages_all [of os] by (simp add: groups_fresh(3) ball_Un)
qed

definition member_json :: "string \<Rightarrow> string \<Rightarrow> json" where
  "member_json i t = JObj [(''id'', JStr i), (''@odata.type'', JStr t)]"

definition demo_conn :: connector where
  "demo_conn = \<lparr>conn_mailbox_settings = False, conn_skip_ad_groups = False, conn_organization_ids = [''org'']\<rparr>"

definition demo_group :: resource where
  "demo_group = bare_resource \<lparr>rid_type = ''group'', rid_resource = ''g''\<rparr>"

definition demo_user :: resource where
  "demo_user = bare_resource \<lparr>rid_type = ''user'', rid_resource = ''u''\<rparr>"

text \<open>
  A group of 52 members on two pages, the first of them full (most of it objects of no
  kind), and of two owners on two pages: the second page of owners is not read.
\<close>

definition many_members :: "json list" where
  "many_members = member_json ''u'' odata_type_user # replicate 50 (JObj [])"

definition linked_body :: "string \<Rightarrow> json list \<Rightarrow> json" where
  "linked_body u ms = JObj [(''@odata.nextLink'', JStr u), (''value'', JArr ms)]"

definition paged_site :: "string \<Rightarrow> response" where
  "paged_site key = json_response 200 (json_print
     (if has_prefix key ''/beta/groups/g/members'' then linked_body ''https://graph.microsoft.com/beta/m'' many_members
      else if has_prefix key ''/beta/m'' then linked_body [] [member_json ''v'' odata_type_group]
      else if has_prefix key ''/beta/groups/g/owners'' then linked_body ''https://graph.microsoft.com/beta/o'' [member_json ''o'' odata_type_user]
      else linked_body [] [member_json ''p'' odata_type_user]))"

definition paged_env :: env where
  "paged_env = quiet_env (\<lambda>req. Received (paged_site (cache_key req)))"

definition linked_members :: "string \<Rightarrow> (string \<times> string) list \<Rightarrow> membership graph_list" where
  "linked_members u ms = zero_graph_list\<lparr>gl_next_link := u,
     gl_value := map (\<lambda>(i, t). Some (zero_membership\<lparr>mem_id := i, mem_type := t\<rparr>)) ms\<rparr>"

definition member_pages :: "membership graph_list list" where
  "member_pages = [linked_members ''https://graph.microsoft.com/beta/m'' ((''u'', odata_type_user) # replicate 50 ([], [])),
     linked_members [] [(''v'', odata_type_group)]]"

definition owner_pages :: "membership graph_list list" where
  "owner_pages = [linked_members ''https://graph.microsoft.com/beta/o'' [(''o'', odata_type_user)],
     linked_members [] [(''p'', odata_type_user)]]"

text \<open>What a GET of a Graph URL gives when the answers go by the path.\<close>

lemma keyed_expected:
  assumes "url_parse u = Inr (graph_address p q)" and "json_ok v" and "dec cur v = (r, None)"
    and "\<And>rest. site (CHR ''/'' # to_lower p @ ''?'' @ rest) = json_response 200 (json_print v)"
  shows "expected_answer env site tok u (Some dec) cur = (None, r)"
proof -
  have ct: "is_json_content_type ''application/json''" by code_simp
  have "with_response env (Some dec) (json_response 200 (json_print v)) cur = (r, None)"
    using assms(3) ct json_parse_print [OF assms(2)]
    by (simp add: with_response_def with_json_response_def json_response_def json_unmarshal_def Let_def)
  moreover have "\<exists>rest. cache_key \<lparr>req_method = ''GET'', req_url = graph_address p q, req_headers = graph_headers tok, req_body = json_body NoBody\<rparr>
      = CHR ''/'' # to_lower p @ ''?'' @ rest"
    by (simp add: cache_key_def graph_address_def empty_url_def to_lower_def lower_char_def byte_of_def Let_def)
  ultimately show ?thesis
    using assms(1,4) by (auto simp: expected_answer_def new_request_address error_list_def status_result_def
        check_response_def json_response_def Let_def)
qed

lemma full_page_decoded:
  "json_ok (linked_body ''https://graph.microsoft.com/beta/m'' many_members)"
  "dec_membership_list zero_graph_list (linked_body ''https://graph.microsoft.com/beta/m'' many_members) = (hd member_pages, None)"
  by code_simp+

lemma members_address:
  "url_parse (members_url demo_conn demo_group) = Inr (graph_address ''beta/groups/g/members'' (skip_ad_filter demo_conn set_member_query))"
  using graph_url_plain [of beta_version "[''groups'', ''g'', ''members'']" "skip_ad_filter demo_conn set_member_query"]
  by (simp add: members_url_def build_beta_url_def plain_segment_def beta_version_def demo_group_def bare_resource_def)

lemma paged_members: "list_chain paged_env paged_site ''t'' dec_membership_list (members_url demo_conn demo_group) member_pages"
proof -
  have k: "paged_site (CHR ''/'' # to_lower ''beta/groups/g/members'' @ ''?'' @ rest) =
      json_response 200 (json_print (linked_body ''https://graph.microsoft.com/beta/m'' many_members))" for rest
    by (simp add: paged_site_def has_prefix_def to_lower_def lower_char_def byte_of_def)
  have "expected_answer paged_env paged_site ''t'' (members_url demo_conn demo_group) (Some dec_membership_list) zero_graph_list
      = (None, hd member_pages)"
    by (rule keyed_expected [where dec = dec_membership_list and site = paged_site, OF members_address full_page_decoded k])
  moreover have "list_chain paged_env paged_site ''t'' dec_membership_list ''https://graph.microsoft.com/beta/m'' (tl member_pages)"
    by code_simp
  ultimately show ?thesis by (simp add: member_pages_def linked_members_def no_nulls_def)
qed
lemma paged_owners: "list_chain paged_env paged_site ''t'' dec_membership_list (owners_url demo_group) owner_pages"
  by code_simp
lemma paged_env_stable: "cache_agrees paged_site start_world" "stable_env paged_env paged_site ''t''"
  by (simp_all add: cache_agrees_def start_world_def stable_env_def paged_env_def quiet_env_def)

definition some_grant :: "string \<Rightarrow> string \<Rightarrow> string \<Rightarrow> grant" where
  "some_grant relation ty i = the (member_grant demo_group relation
     (zero_membership\<lparr>mem_id := i, mem_type := ''#microsoft.graph.'' @ ty\<rparr>))"

lemma paged_grants: "concat (map (page_grants demo_group ''members'') (read_pages member_pages)) =
    [some_grant ''members'' ''user'' ''u'', some_grant ''members'' ''group'' ''v'']"
  "concat (map (page_grants demo_group ''owners'') (read_pages owner_pages)) = [some_grant ''owners'' ''user'' ''o'']"
  by code_simp+

theorem groups_grants_complete_witness:
  "\<exists>w'. sync_pages 4 (groups_grants paged_env demo_conn demo_group) [] start_world =
    (Ok [some_grant ''members'' ''user'' ''u'', some_grant ''members'' ''group'' ''v'', some_grant ''owners'' ''user'' ''o''], w')"
proof -
  have "length member_pages + length owner_pages \<le> 4" by (simp add: member_pages_def owner_pages_def)
  from groups_grants_complete [OF paged_env_stable(2,1) paged_members paged_owners this]
  show ?thesis unfolding paged_grants by (elim exE conjE) (rule exI, simp)
qed

text \<open>
  C8: whatever it is asked to grant, the body of the request \<open>Grant\<close> sends is the empty
  JSON object: the reference to the member that Graph needs, which \<open>MarshalToReader\<close> put
  into the reader, is not in it.
\<close>

theorem groups_grant_sends_empty_object:
  assumes "groups_grant env p e w = (x, w')" and "req \<in> set (sent w w')"
  shows "req_method req = ''POST'' \<and> req_body req = ''{}'' @ [CHR 0x0A]"
proof -
  obtain u where "\<exists>y. query_unit env ''POST'' u (marshal_to_reader \<lparr>asg_object_ref = get_group_grant_url p\<rparr>) w = (y, w')"
    using assms by (auto simp: groups_grant_def Let_def split: if_splits option.splits prod.splits)
  then show ?thesis
    using query_unit_events assms(2)
    by (fastforce simp: marshal_to_reader_def json_body_def)
qed

definition demo_write_env :: env where
  "demo_write_env = answering 204 []"

definition owners_entitlement :: entitlement where
  "owners_entitlement = bare_entitlement ''group:g:owners'' demo_group"

theorem groups_grant_sends_empty_object_witness:
  "map (\<lambda>req. (req_method req, req_body req))
      (sent start_world (snd (groups_grant demo_write_env demo_user owners_entitlement start_world))) =
    [(''POST'', ''{}'' @ [CHR 0x0A])]"
proof -
  let ?rs = "sent start_world (snd (groups_grant demo_write_env demo_user owners_entitlement start_world))"
  have "length ?rs = 1" by code_simp
  then obtain req where req: "?rs = [req]" by (auto simp: length_Suc_conv)
  then have "req_method req = ''POST'' \<and> req_body req = ''{}'' @ [CHR 0x0A]"
    using groups_grant_sends_empty_object [OF surjective_pairing, of req start_world demo_write_env demo_user
      owners_entitlement] by simp
  with req show ?thesis by simp
qed

definition member_query ::
  "env \<Rightarrow> string \<Rightarrow> 'z world_scheme \<Rightarrow> (error option \<times> membership graph_list) \<times> 'z world_scheme" where
  "member_query env u w =
     query env graph_read_scopes ''GET'' u NoBody (Some dec_membership_list) zero_graph_list w"

definition delete_query ::
  "env \<Rightarrow> string \<Rightarrow> 'z world_scheme \<Rightarrow> (error option \<times> unit) \<times> 'z world_scheme" where
  "delete_query env u w = (case query_unit env ''DELETE'' u NoBody w of (e, w1) \<Rightarrow> ((e, ()), w1))"

interpretation member_query: missing_never_reported foreign_env member_query
  by unfold_locales (auto simp: member_query_def dest: query_error [rotated 2])

interpretation delete_query: missing_never_reported foreign_env delete_query
  by unfold_locales (auto simp: delete_query_def dest: query_unit_error split: prod.splits)

lemma groups_grants_query:
  assumes "bag_unmarshal token = Inr b" and "bag_current (groups_start conn r b) = Some ps"
  shows "groups_grants env conn r token w =
    (case member_query env (ps_token ps) w of
       ((Some e, resp), w1) \<Rightarrow> if errors_is e ErrNotFound then (Ok ([], []), w1) else (Err e, w1)
     | ((None, resp), w1) \<Rightarrow>
         (bind_outcome (get_group_grants (gl_value resp) r ps)
           (\<lambda>gs. Ok (gs, fst (bag_next_token (trusted_next_link resp) (groups_start conn r b)))), w1))"
  unfolding groups_grants_def member_query_def Let_def by (simp add: assms)

text \<open>
  C7: the tolerance for missing groups never applies. \<open>Grants\<close> succeeds only when Graph
  answered the page, and \<open>Revoke\<close> only when Graph accepted the deletion: a membership that
  is already gone is reported as a failure.
\<close>

theorem groups_tolerance_is_dead:
  assumes "foreign_env env"
  shows "(groups_grants env conn r token w = (Ok x, w1) \<longrightarrow>
      (\<exists>u p. member_query env u w = ((None, p), w1))) \<and>
    (groups_revoke env g w = (Ok (), w2) \<longrightarrow> (\<exists>u. delete_query env u w = ((None, ()), w2)))"
proof (intro conjI impI)
  assume g: "groups_grants env conn r token w = (Ok x, w1)"
  obtain b where b: "bag_unmarshal token = Inr b"
    using g by (cases "bag_unmarshal token") (auto simp: groups_grants_def)
  let ?b = "groups_start conn r b"
  obtain ps where ps: "bag_current ?b = Some ps"
    using g b by (cases "bag_current ?b") (auto simp: groups_grants_def Let_def)
  with g show "\<exists>u p. member_query env u w = ((None, p), w1)"
    unfolding groups_grants_query [OF b ps] member_query.tolerance_dead [OF assms]
    by (auto split: prod.splits option.splits)
next
  assume "groups_revoke env g w = (Ok (), w2)"
  then obtain u where "rid_type (res_id (grant_principal g)) = ''user''"
    "relation_address (grant_entitlement g) [rid_resource (res_id (grant_principal g)), ''$ref''] = Some u"
    unfolding groups_revoke_def Let_def by (auto split: if_splits option.splits)
  then have "groups_revoke env g w =
      (case query_unit env ''DELETE'' u NoBody w of
         (Some err, w1) \<Rightarrow> if errors_is err ErrNotFound then (Ok (), w1) else (Err err, w1)
       | (None, w1) \<Rightarrow> (Ok (), w1))"
    by (simp add: groups_revoke_def)
  then have "groups_revoke env g w =
      (case delete_query env u w of
         ((Some err, r), w1) \<Rightarrow> if errors_is err ErrNotFound then (Ok (), w1) else (Err err, w1)
       | ((None, r), w1) \<Rightarrow> (Ok (), w1))"
    by (auto simp: delete_query_def split: prod.splits option.splits)
  with \<open>groups_revoke env g w = (Ok (), w2)\<close> show "\<exists>u. delete_query env u w = ((None, ()), w2)"
    unfolding delete_query.tolerance_dead [OF assms]
    by (auto split: prod.splits option.splits)
qed

definition demo_grant :: grant where
  "demo_grant = \<lparr>grant_id = [], grant_entitlement = owners_entitlement, grant_principal = demo_user,
     grant_annotations = []\<rparr>"

theorem groups_tolerance_is_dead_witness:
  "\<exists>u w2. delete_query demo_write_env u start_world = ((None, ()), w2)"
proof -
  have "fst (groups_revoke demo_write_env demo_grant start_world) = Ok ()" by code_simp
  then have g: "groups_revoke demo_write_env demo_grant start_world =
      (Ok (), snd (groups_revoke demo_write_env demo_grant start_world))" by (metis prod.collapse)
  have f: "foreign_env demo_write_env" by (simp add: demo_write_env_def)
  from groups_tolerance_is_dead [OF f, of demo_conn demo_group "[]" start_world "([], [])" start_world
      demo_grant "snd (groups_revoke demo_write_env demo_grant start_world)"] g
  show ?thesis by blast
qed

section \<open>Small pages\<close>

text \<open>
  C27: a page of at most 50 entries ends its relation even when Graph names a next page:
  the token that comes back stands for the stack without that relation, so what is behind
  the link is never read.
\<close>

theorem small_page_drops_next_link:
  assumes "bag_unmarshal token = Inr b" and "bag_current (groups_start conn r b) = Some ps"
    and "member_query env (ps_token ps) w = ((None, p), w1)" and "length (gl_value p) \<le> 50"
    and "groups_grants env conn r token w = (Ok (gs, tok), w')"
  shows "\<exists>b'. tok = bag_marshal b' \<and> bag_stack b' = tl (bag_stack (groups_start conn r b))"
proof -
  let ?b = "groups_start conn r b"
  have "tok = fst (bag_next_token [] ?b)"
    using assms groups_grants_query [OF assms(1,2), of env w]
    by (auto simp: trusted_next_link_def small_page_cutoff_def)
  moreover have wf: "bag_wf ?b" using assms(2) by (simp add: bag_wf_def)
  obtain tk b' where n: "bag_next_token [] ?b = (tk, b')" by fastforce
  have "bag_stack ?b \<noteq> []" using assms(2) by (simp add: bag_stack_def)
  then have "bag_stack b' = tl (bag_stack ?b)"
    using bag_next_token_stack [OF wf n] by (auto simp: stack_next_def split: list.splits)
  ultimately show ?thesis using bag_next_token_stack [OF wf n] n by auto
qed

text \<open>What a GET of a Graph URL gives when every answer is the same JSON value.\<close>

lemma json_expected:
  assumes "url_parse u = Inr (graph_address p q)" and "json_ok v" and "dec cur v = (r, None)"
  shows "expected_answer (answering 200 (json_print v)) (\<lambda>_. json_response 200 (json_print v)) ''t'' u (Some dec) cur = (None, r)"
proof -
  have ct: "is_json_content_type ''application/json''" by code_simp
  have "with_response (answering 200 (json_print v)) (Some dec) (json_response 200 (json_print v)) cur = (r, None)"
    using assms(3) ct json_parse_print [OF assms(2)]
    by (simp add: with_response_def with_json_response_def json_response_def json_unmarshal_def Let_def)
  then show ?thesis
    using assms(1) by (simp add: expected_answer_def new_request_address error_list_def status_result_def
        check_response_def json_response_def Let_def)
qed

lemma answering_stable:
  "stable_env (answering 200 b) (\<lambda>_. json_response 200 b) ''t''"
  "cache_agrees (\<lambda>_. json_response 200 b) start_world"
  by (simp_all add: stable_env_def answering_def quiet_env_def cache_agrees_def start_world_def)

lemma json_answer:
  assumes "url_parse u = Inr (graph_address p q)" and "json_ok v" and "dec cur v = (r, None)"
  shows "\<exists>w'. query (answering 200 (json_print v)) scopes ''GET'' u NoBody (Some dec) cur start_world = ((None, r), w')"
  using query_answered [OF answering_stable [of "json_print v"], of scopes u "Some dec" cur]
  unfolding json_expected [where dec = dec and cur = cur, OF assms] by (elim exE conjE) (rule exI)

definition linked_json :: json where
  "linked_json = JObj [(''@odata.nextLink'', JStr ''https://graph.microsoft.com/beta/x''),
     (''value'', JArr [member_json ''u'' odata_type_user])]"

definition linked_page :: "membership graph_list" where
  "linked_page = zero_graph_list\<lparr>gl_next_link := ''https://graph.microsoft.com/beta/x'',
     gl_value := [Some (zero_membership\<lparr>mem_id := ''u'', mem_type := odata_type_user\<rparr>)]\<rparr>"

lemma linked_page_decoded: "dec_membership_list zero_graph_list linked_json = (linked_page, None)" "json_ok linked_json"
  by code_simp+

definition linked_env :: env where
  "linked_env = answering 200 (json_print linked_json)"

theorem small_page_drops_next_link_witness:
  "\<exists>gs tok b'. fst (groups_grants linked_env demo_conn demo_group [] start_world) = Ok (gs, tok) \<and>
    tok = bag_marshal b' \<and> map ps_resource_type_id (bag_stack b') = [''owners'']"
proof -
  let ?ps = "group_page type_members (members_url demo_conn demo_group)"
  have u: "bag_unmarshal [] = Inr empty_bag" by (simp add: bag_unmarshal_def)
  have c: "bag_current (groups_start demo_conn demo_group empty_bag) = Some ?ps"
    by (simp add: groups_start_def empty_bag_def bag_push_def)
  obtain w1 where "query linked_env graph_read_scopes ''GET'' (members_url demo_conn demo_group) NoBody
      (Some dec_membership_list) zero_graph_list start_world = ((None, linked_page), w1)"
    using json_answer [where dec = dec_membership_list and scopes = graph_read_scopes, OF members_address linked_page_decoded(2,1)]
    unfolding linked_env_def [symmetric] by (elim exE) (rule that)
  then have q: "member_query linked_env (ps_token ?ps) start_world = ((None, linked_page), w1)"
    by (simp add: member_query_def group_page_def)
  have l: "length (gl_value linked_page) \<le> 50" and n: "no_nulls linked_page"
    by (simp_all add: linked_page_def no_nulls_def)
  obtain gs tok w' where g: "groups_grants linked_env demo_conn demo_group [] start_world = (Ok (gs, tok), w')"
    using groups_grants_query [OF u c, of linked_env start_world] get_group_grants_page [OF n refl] by (simp add: q)
  obtain b' where b': "tok = bag_marshal b'" "bag_stack b' = tl (bag_stack (groups_start demo_conn demo_group empty_bag))"
    using small_page_drops_next_link [OF u c q l g] by blast
  have "map ps_resource_type_id (tl (bag_stack (groups_start demo_conn demo_group empty_bag))) = [''owners'']"
    by (simp add: groups_start_def empty_bag_def bag_push_def bag_stack_def states_of_def group_page_def type_constants)
  with b' g show ?thesis by auto
qed

section \<open>Guards of Grant and Revoke\<close>

text \<open>
  Nothing is sent to Graph for a principal that is not a user, or for an entitlement
  that is neither an owners nor a members entitlement: both operations return an error and
  leave the world as it was.
\<close>

theorem groups_provisioning_refuses:
  assumes "rid_type (res_id p) \<noteq> ''user'' \<or>
      \<not> has_suffix (ent_id e) '':owners'' \<and> \<not> has_suffix (ent_id e) '':members''"
  shows "(\<exists>err. groups_grant env p e w = (Err err, w)) \<and>
    (\<exists>err. groups_revoke env \<lparr>grant_id = i, grant_entitlement = e, grant_principal = p,
                              grant_annotations = as\<rparr> w = (Err err, w))"
  using assms by (auto simp: groups_grant_def groups_revoke_def relation_address_def Let_def)

theorem groups_provisioning_refuses_witness:
  "(\<exists>err. groups_grant demo_write_env demo_group owners_entitlement start_world = (Err err, start_world)) \<and>
   (\<exists>err. groups_revoke demo_write_env \<lparr>grant_id = [], grant_entitlement = owners_entitlement,
      grant_principal = demo_group, grant_annotations = []\<rparr> start_world = (Err err, start_world))"
  by (rule groups_provisioning_refuses) (simp add: demo_group_def bare_resource_def)

section \<open>Entitlements, grants and addresses fit together\<close>

lemma graph_address_fields [simp]:
  "url_path (graph_address q v) = CHR ''/'' # q" "url_host (graph_address q v) = api_domain"
  by (simp_all add: graph_address_def)

lemma new_request_path:
  "url_parse u = Inr (graph_address q v) \<Longrightarrow> url_parse u = Inr a \<Longrightarrow> new_request m a tok b = Inr req \<Longrightarrow>
    url_path (req_url req) = CHR ''/'' # q \<and> url_host (req_url req) = api_domain"
  by (auto simp: new_request_address)

lemma suffix_owners: "has_suffix (a @ '':owners'') '':owners''" "\<not> has_suffix (a @ '':members'') '':owners''"
  "has_suffix (a @ '':members'') '':members''"
  by (auto simp: has_suffix_iff)

text \<open>
  C9: granting an entitlement that \<open>Entitlements\<close> lists for a group posts to that group and
  to the relation the entitlement is about, and nowhere else.
\<close>

theorem groups_grant_addresses_its_group:
  assumes "groups_entitlements r token w0 = (Ok (es, t), w0)" and "e \<in> set es"
    and "rid_type (res_id r) = ''group''" and "plain_segment (rid_resource (res_id r))"
    and "groups_grant env p e w = (x, w')" and "req \<in> set (sent w w')"
  shows "rid_type (res_id p) = ''user'' \<and> req_method req = ''POST'' \<and>
    url_host (req_url req) = ''graph.microsoft.com'' \<and>
    url_path (req_url req) = ''/v1.0/groups/'' @ rid_resource (res_id r) @ ''/'' @ ent_slug e @ ''/$ref''"
proof -
  let ?g = "rid_resource (res_id r)"
  have e: "ent_resource e = r" "ent_id e = (''group:'' @ ?g) @ '':'' @ ent_slug e"
      "ent_slug e \<in> {''owners'', ''members''}"
    using assms(1,2,3) by (auto simp: groups_entitlements_def return_io_def new_permission_entitlement_def
        new_assignment_entitlement_def new_entitlement_id_def type_constants)
  have seg: "\<forall>s\<in>set [''groups'', ?g, ent_slug e, ''$ref'']. plain_segment s"
    using assms(4) e(3) by (auto simp: plain_segment_def)
  define u where "u = build_url (path_join [''groups'', ?g, ent_slug e, ''$ref'']) []"
  have u: "url_parse u = Inr (graph_address (''v1.0/groups/'' @ ?g @ ''/'' @ ent_slug e @ ''/$ref'') [])"
    unfolding u_def build_url_def
    using graph_url_plain [OF _ _ seg, of api_version "[]"] by (simp add: api_version_def)
  have user: "rid_type (res_id p) = ''user''"
  proof (rule ccontr)
    assume "rid_type (res_id p) \<noteq> ''user''"
    with assms(5) have "w' = w" by (simp add: groups_grant_def)
    with assms(6) show False by simp
  qed
  have sel: "relation_address e [''$ref''] = Some u"
    using e(3) suffix_owners [of "''group:'' @ ?g"] by (auto simp: relation_address_def Let_def e(1,2) u_def)
  have "\<exists>y. query_unit env ''POST'' u (marshal_to_reader \<lparr>asg_object_ref = get_group_grant_url p\<rparr>) w = (y, w')"
    using assms(5) unfolding groups_grant_def sel
    by (auto simp: user split: prod.splits option.splits if_splits)
  then obtain y where "query_unit env ''POST'' u (marshal_to_reader \<lparr>asg_object_ref = get_group_grant_url p\<rparr>) w = (y, w')" ..
  from query_unit_events [OF this assms(6)] obtain a tok where
    "req_method req = ''POST''" "url_parse u = Inr a" "new_request ''POST'' a tok (marshal_to_reader \<lparr>asg_object_ref = get_group_grant_url p\<rparr>) = Inr req"
    by blast
  with new_request_path [OF u] user show ?thesis by (auto simp: api_domain_def)
qed

text \<open>
  C10: revoking a grant that \<open>Grants\<close> returned for a user deletes exactly that user's
  membership of the relation the grant came from.
\<close>

theorem groups_revoke_addresses_its_member:
  assumes "group_grant r relation gm = Some g" and "relation \<in> {type_owners, type_members}"
    and "mem_type gm = odata_type_user"
    and "plain_segment (rid_resource (res_id r))" and "plain_segment (mem_id gm)"
    and "groups_revoke env g w = (x, w')" and "req \<in> set (sent w w')"
  shows "req_method req = ''DELETE'' \<and> url_host (req_url req) = ''graph.microsoft.com'' \<and>
    url_path (req_url req) =
      ''/v1.0/groups/'' @ rid_resource (res_id r) @ ''/'' @ relation @ ''/'' @ mem_id gm @ ''/$ref''"
proof -
  let ?g = "rid_resource (res_id r)"
  have rel: "relation \<in> {''owners'', ''members''}" using assms(2) by (simp add: type_constants)
  have g: "ent_id (grant_entitlement g) = (''group:'' @ ?g) @ '':'' @ relation"
      "ent_resource (grant_entitlement g) = r" "rid_type (res_id (grant_principal g)) = ''user''"
      "rid_resource (res_id (grant_principal g)) = mem_id gm"
    using assms(1,3) by (auto simp: group_grant_def member_principal_def Let_def type_constants
        bare_entitlement_def bare_resource_def split: if_splits)
  have seg: "\<forall>s\<in>set [''groups'', ?g, relation, mem_id gm, ''$ref'']. plain_segment s"
    using assms(4,5) rel by (auto simp: plain_segment_def)
  define u where "u = build_url (path_join [''groups'', ?g, relation, mem_id gm, ''$ref'']) []"
  have u: "url_parse u = Inr (graph_address (''v1.0/groups/'' @ ?g @ ''/'' @ relation @ ''/'' @ mem_id gm @ ''/$ref'') [])"
    unfolding u_def build_url_def
    using graph_url_plain [OF _ _ seg, of api_version "[]"] by (simp add: api_version_def)
  have sel: "relation_address (grant_entitlement g) [mem_id gm, ''$ref''] = Some u"
    using rel suffix_owners [of "''group:'' @ ?g"] by (auto simp: relation_address_def Let_def g(1,2) u_def)
  have "\<exists>y. query_unit env ''DELETE'' u NoBody w = (y, w')"
    using assms(6) unfolding groups_revoke_def Let_def g(4) sel
    by (auto simp: g(3) split: prod.splits option.splits if_splits)
  then obtain y where "query_unit env ''DELETE'' u NoBody w = (y, w')" ..
  from query_unit_events [OF this assms(7)] obtain a tok where
    "req_method req = ''DELETE''" "url_parse u = Inr a" "new_request ''DELETE'' a tok NoBody = Inr req"
    by blast
  with new_request_path [OF u] show ?thesis by (auto simp: api_domain_def)
qed

theorem groups_grant_addresses_its_group_witness:
  "map (\<lambda>req. (req_method req, url_path (req_url req))) (sent start_world (snd (groups_grant demo_write_env demo_user
      (hd (fst (case fst (groups_entitlements demo_group [] start_world) of Ok x \<Rightarrow> x))) start_world))) =
    [(''POST'', ''/v1.0/groups/g/owners/$ref'')]"
proof -
  let ?es = "fst (case fst (groups_entitlements demo_group [] start_world) of Ok x \<Rightarrow> x)"
  have es: "groups_entitlements demo_group [] start_world = (Ok (?es, []), start_world)"
    by (simp add: groups_entitlements_def return_io_def)
  have e: "hd ?es \<in> set ?es" "ent_slug (hd ?es) = ''owners''"
    by (simp_all add: groups_entitlements_def return_io_def new_permission_entitlement_def type_owners_def)
  let ?rs = "sent start_world (snd (groups_grant demo_write_env demo_user (hd ?es) start_world))"
  have "length ?rs = 1" by code_simp
  then obtain req where req: "?rs = [req]" by (auto simp: length_Suc_conv)
  then have m: "req \<in> set ?rs" by simp
  have "rid_type (res_id demo_user) = ''user'' \<and> req_method req = ''POST'' \<and> url_host (req_url req) = ''graph.microsoft.com'' \<and>
    url_path (req_url req) = ''/v1.0/groups/'' @ rid_resource (res_id demo_group) @ ''/'' @ ent_slug (hd ?es) @ ''/$ref''"
    by (rule groups_grant_addresses_its_group [OF es e(1) _ _ surjective_pairing m])
      (simp_all add: demo_group_def bare_resource_def plain_segment_def)
  moreover have "rid_resource (res_id demo_group) = ''g''" by (simp add: demo_group_def bare_resource_def)
  ultimately have "req_method req = ''POST'' \<and> url_path (req_url req) = ''/v1.0/groups/g/owners/$ref''" by (simp only: e(2)) simp
  with req show ?thesis by simp
qed

definition demo_membership :: membership where
  "demo_membership = zero_membership\<lparr>mem_id := ''u'', mem_type := odata_type_user\<rparr>"

theorem groups_revoke_addresses_its_member_witness:
  "map (\<lambda>req. (req_method req, url_path (req_url req))) (sent start_world (snd (groups_revoke demo_write_env
      (the (group_grant demo_group type_members demo_membership)) start_world))) =
    [(''DELETE'', ''/v1.0/groups/g/members/u/$ref'')]"
proof -
  let ?g = "the (group_grant demo_group type_members demo_membership)"
  have g: "group_grant demo_group type_members demo_membership = Some ?g"
    by (simp add: group_grant_def member_principal_def demo_membership_def type_constants)
  let ?rs = "sent start_world (snd (groups_revoke demo_write_env ?g start_world))"
  have "length ?rs = 1" by code_simp
  then obtain req where req: "?rs = [req]" by (auto simp: length_Suc_conv)
  then have m: "req \<in> set ?rs" by simp
  have "req_method req = ''DELETE'' \<and> url_host (req_url req) = ''graph.microsoft.com'' \<and>
    url_path (req_url req) = ''/v1.0/groups/'' @ rid_resource (res_id demo_group) @ ''/'' @ type_members @ ''/''
      @ mem_id demo_membership @ ''/$ref''"
    by (rule groups_revoke_addresses_its_member [OF g _ _ _ _ surjective_pairing m])
      (simp_all add: demo_group_def bare_resource_def demo_membership_def plain_segment_def)
  with req show ?thesis
    by (simp add: demo_group_def bare_resource_def demo_membership_def type_members_def)
qed

end
