(* ===== verification/Config.thy ===== *)
theory Config
  imports Prelude
begin

text \<open>
  The configuration of the command: the fields and their relationships of \<open>config.go\<close>, the
  SDK's validation of them (\<open>field/validation.go\<close>), and \<open>ValidateConfig\<close>. The viper store
  is a function from the names of fields to their values.
\<close>

section \<open>Fields\<close>

datatype field_kind = BoolKind | StringKind

record schema_field =
  fld_name :: string
  fld_kind :: field_kind
  fld_required :: bool

datatype relation_kind = InvalidRelation | RequiredTogether | MutuallyExclusive | AtLeastOne | Dependents

record relationship =
  rel_kind :: relation_kind
  rel_fields :: "schema_field list"
  rel_expected :: "schema_field list"

record viper =
  get_bool :: "string \<Rightarrow> bool"
  get_string :: "string \<Rightarrow> string"

definition bool_field :: "string \<Rightarrow> schema_field" where
  "bool_field n = \<lparr>fld_name = n, fld_kind = BoolKind, fld_required = False\<rparr>"

definition string_field :: "string \<Rightarrow> schema_field" where
  "string_field n = \<lparr>fld_name = n, fld_kind = StringKind, fld_required = False\<rparr>"

definition use_cli_credentials :: schema_field where
  "use_cli_credentials = bool_field ''use-cli-credentials''"
definition azure_client_secret :: schema_field where
  "azure_client_secret = string_field ''azure-client-secret''"
definition azure_tenant_id :: schema_field where "azure_tenant_id = string_field ''azure-tenant-id''"
definition azure_client_id :: schema_field where "azure_client_id = string_field ''azure-client-id''"
definition mailbox_settings_field :: schema_field where
  "mailbox_settings_field = bool_field ''mailboxSettings''"
definition skip_ad_groups :: schema_field where "skip_ad_groups = bool_field ''skip-ad-groups''"

definition configuration_fields :: "schema_field list" where
  "configuration_fields =
     [use_cli_credentials, azure_client_secret, azure_tenant_id, azure_client_id,
      mailbox_settings_field, skip_ad_groups]"

definition invalid_relation :: relationship where
  "invalid_relation = \<lparr>rel_kind = InvalidRelation, rel_fields = [], rel_expected = []\<rparr>"

definition fields_mutually_exclusive :: "schema_field list \<Rightarrow> relationship" where
  "fields_mutually_exclusive fs =
     (let seen = card (set (map fld_name fs)) in
      if list_ex fld_required fs then invalid_relation
      else if seen < length fs \<or> seen \<le> 1 then invalid_relation
      else \<lparr>rel_kind = MutuallyExclusive, rel_fields = fs, rel_expected = []\<rparr>)"

definition field_relationships :: "relationship list" where
  "field_relationships =
     [fields_mutually_exclusive [use_cli_credentials, azure_client_id],
      fields_mutually_exclusive [use_cli_credentials, azure_client_secret]]"

section \<open>Validation of the fields\<close>

definition is_non_zero :: "viper \<Rightarrow> schema_field \<Rightarrow> bool" where
  "is_non_zero v f =
     (case fld_kind f of
        BoolKind \<Rightarrow> get_bool v (fld_name f)
      | StringKind \<Rightarrow> get_string v (fld_name f) \<noteq> [])"

definition present_fields :: "viper \<Rightarrow> schema_field list \<Rightarrow> string \<Rightarrow> nat" where
  "present_fields v fs n = (if list_ex (\<lambda>f. fld_name f = n \<and> is_non_zero v f) fs then 1 else 0)"

definition count_present :: "(string \<Rightarrow> nat) \<Rightarrow> schema_field list \<Rightarrow> nat" where
  "count_present present fs = sum_list (map (\<lambda>f. present (fld_name f)) fs)"

definition quoted :: "string \<Rightarrow> string" where
  "quoted s = [CHR 0x27] @ s @ [CHR 0x27]"

definition nice :: "string list \<Rightarrow> string" where
  "nice elements =
     ''('' @ (case map quoted elements of
        [] \<Rightarrow> []
      | [a] \<Rightarrow> a
      | [a, b] \<Rightarrow> a @ '' and '' @ b
      | ws \<Rightarrow> join_with '', '' (butlast ws @ [''and '' @ last ws])) @ '')''"

definition names_where :: "(nat \<Rightarrow> bool) \<Rightarrow> (string \<Rightarrow> nat) \<Rightarrow> schema_field list \<Rightarrow> string list" where
  "names_where p present fs = filter (\<lambda>n. p (present n)) (map fld_name fs)"

definition relationship_error :: "(string \<Rightarrow> nat) \<Rightarrow> relationship \<Rightarrow> error option" where
  "relationship_error present r =
     (let here = count_present present (rel_fields r);
          expected = count_present present (rel_expected r) in
      case rel_kind r of
        MutuallyExclusive \<Rightarrow>
          if 1 < here then Some (ErrText (''fields marked as mutually exclusive were set: ''
            @ nice (names_where (\<lambda>k. k = 1) present (rel_fields r)))) else None
      | RequiredTogether \<Rightarrow>
          if 0 < here \<and> here < length (rel_fields r)
          then Some (ErrText (''fields marked as needed together are missing: ''
            @ nice (names_where (\<lambda>k. k = 0) present (rel_fields r)))) else None
      | AtLeastOne \<Rightarrow>
          if here = 0 then Some (ErrText (''at least one field was expected, any of: ''
            @ nice (names_where (\<lambda>k. k = 0) present (rel_fields r)))) else None
      | Dependents \<Rightarrow>
          if 0 < here \<and> expected \<noteq> length (rel_expected r)
          then Some (ErrText (''set fields '' @ nice (names_where (\<lambda>k. k = 1) present (rel_fields r))
            @ '' are dependent on '' @ nice (names_where (\<lambda>k. k = 0) present (rel_expected r))
            @ '' being set'')) else None
      | InvalidRelation \<Rightarrow> Some (ErrText ''invalid relationship constraint''))"

fun validate_constraints :: "(string \<Rightarrow> nat) \<Rightarrow> relationship list \<Rightarrow> error option" where
  "validate_constraints present [] = None"
| "validate_constraints present (r # rs) =
     (case relationship_error present r of
        Some e \<Rightarrow> Some e
      | None \<Rightarrow> validate_constraints present rs)"

definition missing_text :: "schema_field \<Rightarrow> string" where
  "missing_text f = ''field '' @ fld_name f @ '' of type ''
     @ (case fld_kind f of BoolKind \<Rightarrow> ''bool'' | StringKind \<Rightarrow> ''string'')
     @ '' is marked as required but it has a zero-value''"

definition validate_fields :: "schema_field list \<Rightarrow> relationship list \<Rightarrow> viper \<Rightarrow> error option" where
  "validate_fields fs rels v =
     (let missing = filter (\<lambda>f. fld_required f \<and> \<not> is_non_zero v f) fs in
      if missing \<noteq> [] then
        Some (ErrText (''errors found:'' @ [CHR 0x0A] @ join_with [CHR 0x0A] (map missing_text missing)))
      else validate_constraints (present_fields v fs) rels)"

section \<open>ValidateConfig\<close>

definition validate_config :: "viper \<Rightarrow> error option" where
  "validate_config v =
     (let use_cli = get_bool v (fld_name use_cli_credentials);
          secret = get_string v (fld_name azure_client_secret);
          client = get_string v (fld_name azure_client_id) in
      if use_cli \<and> (secret \<noteq> [] \<or> client \<noteq> [])
      then Some (ErrText ''use-cli-credentials and azure-client-secret/azure-client-id are mutually exclusive'')
      else None)"

lemmas field_defs = use_cli_credentials_def azure_client_secret_def azure_tenant_id_def
  azure_client_id_def mailbox_settings_field_def skip_ad_groups_def bool_field_def string_field_def

lemma field_relationships_kinds:
  "field_relationships =
     [\<lparr>rel_kind = MutuallyExclusive, rel_fields = [use_cli_credentials, azure_client_id], rel_expected = []\<rparr>,
      \<lparr>rel_kind = MutuallyExclusive, rel_fields = [use_cli_credentials, azure_client_secret], rel_expected = []\<rparr>]"
  by (simp add: field_relationships_def fields_mutually_exclusive_def field_defs)

lemma present_fields_own:
  "present_fields v configuration_fields (fld_name use_cli_credentials) =
     (if get_bool v (fld_name use_cli_credentials) then 1 else 0)"
  "present_fields v configuration_fields (fld_name azure_client_id) =
     (if get_string v (fld_name azure_client_id) \<noteq> [] then 1 else 0)"
  "present_fields v configuration_fields (fld_name azure_client_secret) =
     (if get_string v (fld_name azure_client_secret) \<noteq> [] then 1 else 0)"
  by (simp_all add: present_fields_def configuration_fields_def is_non_zero_def field_defs)

text \<open>
  C40: the declared field relationships, checked by the SDK, and the command's own
  \<open>ValidateConfig\<close> accept exactly the same configurations.
\<close>

theorem validate_fields_iff_validate_config:
  "validate_fields configuration_fields field_relationships v = None \<longleftrightarrow> validate_config v = None"
proof -
  have "filter (\<lambda>f. fld_required f \<and> \<not> is_non_zero v f) configuration_fields = []"
    by (simp add: configuration_fields_def field_defs)
  then show ?thesis
    by (simp add: validate_fields_def field_relationships_kinds relationship_error_def
        count_present_def present_fields_own validate_config_def)
qed

end
