(* ===== verification/Entra_Users.thy ===== *)
theory Entra_Users
  imports Connector_Model
begin

text \<open>
  Users: \<open>users.go\<close> and its helpers of \<open>helper.go\<close>. A user becomes a resource with a
  user trait; \<open>List\<close> asks for one page of users and, when the mailbox settings are
  enabled, for the settings of every user of the page.
\<close>

section \<open>Users as resources\<close>

definition fetch_email_addresses :: "env \<Rightarrow> string \<Rightarrow> string \<Rightarrow> string" where
  "fetch_email_addresses env email upn =
     (let upn_email = (case env_parse_address env upn of Some a \<Rightarrow> a | None \<Rightarrow> [])
      in if is_empty email \<and> \<not> is_empty upn_email then upn_email else email)"

definition user_url :: "user \<Rightarrow> string" where
  "user_url u = entra_link
     (path_join [''view/Microsoft_AAD_UsersAndTenants/UserProfileMenuBlade/~/overview/userId'', usr_id u])"

definition manager_profile :: "manager option \<Rightarrow> profile \<Rightarrow> profile" where
  "manager_profile m p =
     (case m of
        None \<Rightarrow> p
      | Some g \<Rightarrow>
          profile_set ''supervisor'' (PStr (mgr_display_name g))
            (profile_set ''supervisorEmail'' (PStr (mgr_email g))
              (profile_set ''supervisorEId'' (PStr (mgr_employee_id g))
                (profile_set ''managerEmail'' (PStr (mgr_email g))
                  (profile_set ''managerId'' (PStr (mgr_id g)) p)))))"

definition user_profile :: "env \<Rightarrow> user \<Rightarrow> profile" where
  "user_profile env u =
     manager_profile (usr_manager u)
       [(''id'', PStr (usr_id u)),
        (''mail'', PStr (fetch_email_addresses env (usr_email u) (usr_user_principal_name u))),
        (''displayName'', PStr (usr_display_name u)),
        (''title'', PStr (usr_job_title u)),
        (''jobTitle'', PStr (usr_job_title u)),
        (''userPrincipalName'', PStr (usr_user_principal_name u)),
        (''accountEnabled'', PBool (usr_account_enabled u)),
        (''employeeId'', PStr (usr_employee_id u)),
        (''employeeNumber'', PStr (usr_employee_id u)),
        (''department'', PStr (usr_department u))]"

definition user_resource ::
  "env \<Rightarrow> user \<Rightarrow> resource_id option \<Rightarrow> user_trait_option list \<Rightarrow> resource outcome"
where
  "user_resource env u parent user_trait_options =
     (let primary_email = fetch_email_addresses env (usr_email u) (usr_user_principal_name u);
          options =
            [with_email primary_email True, with_user_profile (user_profile env u)]
            @ user_trait_options
            @ (if is_empty (usr_user_principal_name u) then []
               else [with_user_login (usr_user_principal_name u)])
            @ [with_status (if usr_account_enabled u then StatusEnabled else StatusDisabled)]
      in new_user_resource (usr_display_name u) user_resource_type (usr_id u) options
           [with_parent_resource_id parent, with_annotation [ExternalLink (user_url u)]])"

section \<open>Queries\<close>

definition set_user_keys :: url_values where
  "set_user_keys =
     values_set ''$top'' ''999''
       (values_set ''$expand'' ''manager($select=id,employeeId,mail,displayName)''
         (values_set ''$select''
           (join_with '','' [''id'', ''displayName'', ''mail'', ''userPrincipalName'', ''jobTitle'',
              ''manager'', ''accountEnabled'', ''employeeType'', ''employeeHireDate'',
              ''employeeId'', ''department'']) []))"

definition set_user_response_keys :: url_values where
  "set_user_response_keys = values_set ''$select'' (join_with '','' [''userPurpose'']) []"

section \<open>The builder\<close>

definition users_resource_type :: resource_type where
  "users_resource_type = user_resource_type"

definition user_account_type :: "string \<Rightarrow> account_type" where
  "user_account_type purpose =
     (if to_lower purpose \<in> {''room'', ''equipment'', ''shared''} then AccountService else AccountHuman)"

text \<open>An error of the mailbox query is only logged; what was decoded is used.\<close>

definition mailbox_purpose :: "env \<Rightarrow> user \<Rightarrow> ('z world_scheme, string) io" where
  "mailbox_purpose env u w =
     (case query env graph_read_scopes ''GET''
             (build_url (path_join [''users'', usr_id u, ''mailboxSettings'']) set_user_response_keys)
             NoBody (Some (dec_struct mailbox_settings_fields)) zero_mailbox_settings w of
        ((err, resp), w1) \<Rightarrow> (Ok (mbx_user_purpose resp), w1))"

fun users_with_mailboxes ::
  "env \<Rightarrow> resource_id option \<Rightarrow> user option list \<Rightarrow> ('z world_scheme, resource list) io"
where
  "users_with_mailboxes env parent [] = return_io []"
| "users_with_mailboxes env parent (p # ps) =
     bind_io (lift_io (deref p)) (\<lambda>u.
     bind_io (mailbox_purpose env u) (\<lambda>purpose.
     bind_io (lift_io (user_resource env u parent [with_account_type (user_account_type purpose)])) (\<lambda>r.
     bind_io (users_with_mailboxes env parent ps) (\<lambda>rs. return_io (r # rs)))))"

definition users_list ::
  "env \<Rightarrow> connector \<Rightarrow> resource_id option \<Rightarrow> string \<Rightarrow> ('z world_scheme, resource list \<times> string) io"
where
  "users_list env conn parent token =
     bind_io (lift_io (of_sum (parse_page_token token
       \<lparr>rid_type = rty_id user_resource_type, rid_resource = []\<rparr>))) (\<lambda>bag.
     bind_io (query_list env (first_url (build_url ''users'' set_user_keys) bag) dec_users_list) (\<lambda>resp.
     let page_token = fst (bag_next_token (gl_next_link resp) bag) in
     if \<not> conn_mailbox_settings conn then
       bind_io (lift_io (convert_all
         (\<lambda>p. bind_outcome (deref p) (\<lambda>u. user_resource env u parent [])) (gl_value resp)))
         (\<lambda>users. return_io (users, page_token))
     else
       bind_io (users_with_mailboxes env parent (gl_value resp))
         (\<lambda>users. return_io (users, page_token))))"

text \<open>Users have neither entitlements nor grants.\<close>

definition users_entitlements :: "resource \<Rightarrow> string \<Rightarrow> ('w, entitlement list \<times> string) io" where
  "users_entitlements r token = return_io ([], [])"

definition users_grants :: "resource \<Rightarrow> string \<Rightarrow> ('w, grant list \<times> string) io" where
  "users_grants r token = return_io ([], [])"

end
