(* ===== verification/Service_Principals.thy ===== *)
theory Service_Principals
  imports Connector_Model
begin

text \<open>
  Service principals: the helpers of \<open>service_principals_helper.go\<close> and \<open>helper.go\<close> shared
  by managed identities and enterprise applications, and the whole of
  \<open>managed_identities.go\<close>.
\<close>

section \<open>Helpers\<close>

definition owners_str :: string where "owners_str = ''owners''"
definition assignment_str :: string where "assignment_str = ''assignment''"

definition service_principal_select :: "string list" where
  "service_principal_select =
     [''accountEnabled'', ''appDisplayName'', ''appRoles'', ''appId'', ''appOwnerOrganizationId'',
      ''description'', ''displayName'', ''homepage'', ''id'', ''info'', ''tags'']"

definition get_display_name :: "service_principal \<Rightarrow> string" where
  "get_display_name sp =
     (if spn_display_name sp \<noteq> [] then spn_display_name sp else spn_app_display_name sp)"

definition external_url :: "service_principal \<Rightarrow> string" where
  "external_url sp = entra_link
     (''view/Microsoft_AAD_IAM/ManagedAppMenuBlade/~/Overview/objectId/'' @ spn_id sp
      @ ''/appId/'' @ spn_app_id sp
      @ ''/preferredSingleSignOnMode~/null/servicePrincipalType/'' @ spn_service_principal_type sp)"

section \<open>Managed identities\<close>

definition managed_identity_resource ::
  "service_principal \<Rightarrow> resource_id option \<Rightarrow> resource outcome"
where
  "managed_identity_resource sp parent =
     (let profile = [(''id'', PStr (spn_id sp)), (''app_id'', PStr (spn_app_id sp))];
          logo = inf_logo_url (spn_info sp);
          options =
            [with_user_profile profile, with_account_type AccountService]
            @ (if is_empty logo then [] else [with_user_icon logo])
            @ [with_status (if spn_account_enabled sp then StatusEnabled else StatusDisabled)]
      in new_user_resource (get_display_name sp) managed_identity_resource_type (spn_id sp) options
           [with_parent_resource_id parent, with_annotation [ExternalLink (external_url sp)]])"

definition set_managed_identity_keys :: url_values where
  "set_managed_identity_keys =
     values_set ''$top'' ''999''
       (values_set ''$filter''
         (''servicePrincipalType eq '' @ [CHR 0x27] @ ''ManagedIdentity'' @ [CHR 0x27])
         (values_set ''$select'' (join_with '','' service_principal_select) []))"

definition managed_identities_resource_type :: resource_type where
  "managed_identities_resource_type = managed_identity_resource_type"

definition managed_identities_list ::
  "env \<Rightarrow> resource_id option \<Rightarrow> string \<Rightarrow> ('z world_scheme, resource list \<times> string) io"
where
  "managed_identities_list env parent token =
     bind_io (lift_io (of_sum (parse_page_token token
       \<lparr>rid_type = rty_id user_resource_type, rid_resource = []\<rparr>))) (\<lambda>bag.
     bind_io (query_list env
       (first_url (build_url ''servicePrincipals'' set_managed_identity_keys) bag)
       dec_service_principals_list) (\<lambda>resp.
     bind_io (lift_io (convert_all
       (\<lambda>p. bind_outcome (deref p) (\<lambda>mi. managed_identity_resource mi parent)) (gl_value resp)))
       (\<lambda>users. return_io (users, fst (bag_next_token (gl_next_link resp) bag)))))"

definition managed_identities_entitlements ::
  "resource \<Rightarrow> string \<Rightarrow> ('w, entitlement list \<times> string) io" where
  "managed_identities_entitlements r token = return_io ([], [])"

definition managed_identities_grants :: "resource \<Rightarrow> string \<Rightarrow> ('w, grant list \<times> string) io" where
  "managed_identities_grants r token = return_io ([], [])"

end
