(* ===== verification/Enterprise_Apps.thy ===== *)
theory Enterprise_Apps
  imports Service_Principals Entra_Groups
begin

text \<open>
  Enterprise applications: \<open>enterprise_applications.go\<close>. \<open>List\<close> keeps the applications that
  one of the connector's organizations owns and stores them in the builder's cache;
  \<open>Entitlements\<close> and \<open>Grants\<close> read the cache; \<open>Grant\<close> and \<open>Revoke\<close> go by the
  entitlement's id. The mutex of the cache only makes each access atomic.
\<close>

section \<open>The cache\<close>

definition app_cache_set :: "string \<Rightarrow> service_principal \<Rightarrow> 'z builders_scheme \<Rightarrow> 'z builders_scheme" where
  "app_cache_set i sp w = w\<lparr>app_cache := (app_cache w)(i \<mapsto> sp)\<rparr>"

definition app_cache_get :: "string \<Rightarrow> 'z builders_scheme \<Rightarrow> service_principal option" where
  "app_cache_get i w = app_cache w i"

section \<open>List\<close>

definition enterprise_application_resource ::
  "service_principal \<Rightarrow> resource_id option \<Rightarrow> resource outcome"
where
  "enterprise_application_resource app parent =
     (let p0 = [(''id'', PStr (spn_id app)), (''app_id'', PStr (spn_app_id app))];
          p1 = (if ''WindowsAzureActiveDirectoryIntegratedApp'' \<in> set (spn_tags app)
                then profile_set ''is_integrated'' (PBool True) p0 else p0);
          p2 = (if ''HideApp'' \<in> set (spn_tags app)
                then profile_set ''hidden_app'' (PBool True) p1 else p1);
          logo = inf_logo_url (spn_info app);
          options =
            [with_app_profile p2]
            @ (if is_empty logo then [] else [with_app_logo logo])
            @ (if is_empty (spn_homepage app) then [] else [with_app_help_url (spn_homepage app)])
      in new_app_resource (get_display_name app) enterprise_application_resource_type (spn_id app)
           options
           [with_parent_resource_id parent, with_annotation [ExternalLink (external_url app)]])"

definition set_enterprise_applications_keys :: url_values where
  "set_enterprise_applications_keys =
     values_set ''$top'' ''999''
       (values_set ''$filter''
         (''servicePrincipalType eq '' @ [CHR 0x27] @ ''Application'' @ [CHR 0x27]
          @ '' AND accountEnabled eq true'')
         (values_set ''$select'' (join_with '','' service_principal_select) []))"

definition enterprise_apps_resource_type :: resource_type where
  "enterprise_apps_resource_type = enterprise_application_resource_type"

text \<open>The loop over a page: the owned applications, cached on the way.\<close>

fun collect_owned ::
  "string list \<Rightarrow> service_principal option list \<Rightarrow> ('z builders_scheme, service_principal list) io"
where
  "collect_owned orgs [] = return_io []"
| "collect_owned orgs (p # ps) =
     bind_io (lift_io (deref p)) (\<lambda>sp w.
       if spn_app_owner_organization_id sp \<in> set orgs then
         bind_io (collect_owned orgs ps) (\<lambda>rest. return_io (sp # rest)) (app_cache_set (spn_id sp) sp w)
       else collect_owned orgs ps w)"

definition enterprise_apps_url :: string where
  "enterprise_apps_url = build_beta_url ''servicePrincipals''
     (values_set ''$expand'' ''appRoleAssignedTo'' set_enterprise_applications_keys)"

definition enterprise_apps_list ::
  "env \<Rightarrow> connector \<Rightarrow> resource_id option \<Rightarrow> string \<Rightarrow> ('z builders_scheme, resource list \<times> string) io"
where
  "enterprise_apps_list env conn parent token =
     bind_io (lift_io (of_sum (parse_page_token token
       \<lparr>rid_type = rty_id user_resource_type, rid_resource = []\<rparr>))) (\<lambda>bag.
     bind_io (query_list env (first_url enterprise_apps_url bag) dec_service_principals_list) (\<lambda>resp.
     bind_io (collect_owned (conn_organization_ids conn) (gl_value resp)) (\<lambda>owned.
     bind_io (lift_io (convert_all (\<lambda>app. enterprise_application_resource app parent) owned)) (\<lambda>apps.
     return_io (apps, fst (bag_next_token (gl_next_link resp) bag))))))"

section \<open>Entitlement ids\<close>

record app_entitlement_id =
  eid_type :: string
  eid_resource :: string
  eid_app_role_id :: string

definition app_role_str :: string where "app_role_str = ''appRole''"

definition default_app_role_assignment_id :: string where
  "default_app_role_assignment_id = ''00000000-0000-0000-0000-000000000000''"

definition marshal_entitlement_id :: "app_entitlement_id \<Rightarrow> error + string" where
  "marshal_entitlement_id i =
     (if eid_type i = app_role_str then
        Inr (join_with '':''
          [''enterprise_application'', eid_resource i, assignment_str, eid_app_role_id i])
      else if eid_type i = owners_str then
        Inr (join_with '':'' [''enterprise_application'', eid_resource i, owners_str])
      else Inl (ErrText (''unknown entitlement type: '' @ eid_type i)))"

definition unmarshal_entitlement_id :: "string \<Rightarrow> error + app_entitlement_id" where
  "unmarshal_entitlement_id input =
     (let parts = split_at (CHR '':'') input in
      if length parts < 3 then Inl (ErrText ''baton-microsoft-entra: invalid entitlement id'')
      else
        (let ty = parts ! 2; r = parts ! 1 in
         if ty = assignment_str then
           (if length parts < 4
            then Inl (ErrText ''baton-microsoft-entra: invalid entitlement id: missing approle id'')
            else Inr \<lparr>eid_type = ty, eid_resource = r, eid_app_role_id = parts ! 3\<rparr>)
         else Inr \<lparr>eid_type = ty, eid_resource = r, eid_app_role_id = []\<rparr>))"

section \<open>Entitlements\<close>

definition app_entitlement ::
  "resource \<Rightarrow> string \<Rightarrow> string \<Rightarrow> string \<Rightarrow> resource_type list \<Rightarrow> purpose \<Rightarrow> string \<Rightarrow> entitlement"
where
  "app_entitlement r i display description grantable purpose slug =
     \<lparr>ent_id = i, ent_resource = r, ent_display_name = display, ent_description = description,
      ent_grantable_to = map rty_id grantable, ent_purpose = Some purpose, ent_slug = slug\<rparr>"

definition app_role_entitlement_id :: "resource \<Rightarrow> string \<Rightarrow> error + string" where
  "app_role_entitlement_id r role_id = marshal_entitlement_id
     \<lparr>eid_type = app_role_str, eid_resource = rid_resource (res_id r), eid_app_role_id = role_id\<rparr>"

text \<open>The entitlement of one app role: None when users are not allowed.\<close>

definition app_role_entitlement :: "resource \<Rightarrow> app_role \<Rightarrow> entitlement option outcome" where
  "app_role_entitlement r rl =
     (if ''User'' \<notin> set (arl_allowed_member_types rl) then Ok None
      else
        (let slug = (if arl_value rl = [] then arl_display_name rl else arl_value rl) in
         bind_outcome (of_sum (app_role_entitlement_id r (arl_id rl))) (\<lambda>i.
           Ok (Some (app_entitlement r i (arl_display_name rl @ '' Role Assignment'')
             (''Assigned to '' @ res_display_name r @ '' Application with '' @ arl_description rl @ '' Role'')
             [user_resource_type, group_resource_type] PurposeAssignment slug)))))"

definition enterprise_apps_entitlements ::
  "resource \<Rightarrow> string \<Rightarrow> ('z builders_scheme, entitlement list \<times> string) io"
where
  "enterprise_apps_entitlements r token w =
     (bind_outcome (of_sum (marshal_entitlement_id
         \<lparr>eid_type = owners_str, eid_resource = rid_resource (res_id r), eid_app_role_id = []\<rparr>)) (\<lambda>owners_id.
      bind_outcome (of_sum (app_role_entitlement_id r default_app_role_assignment_id)) (\<lambda>default_id.
      bind_outcome (deref (app_cache_get (rid_resource (res_id r)) w)) (\<lambda>sp.
      bind_outcome (convert_err (\<lambda>p. bind_outcome (deref p) (app_role_entitlement r))
          (spn_app_roles sp)) (\<lambda>roles.
      Ok ([app_entitlement r owners_id (res_display_name r @ '' Application Owner'')
             (''Owner of '' @ res_display_name r @ '' Application'') [user_resource_type]
             PurposePermission ''owner'',
           app_entitlement r default_id (res_display_name r @ '' Application Assignment'')
             (''Assigned to '' @ res_display_name r @ '' Application'')
             [user_resource_type, group_resource_type] PurposeAssignment ''assigned'']
          @ roles, []))))), w)"

section \<open>Grants\<close>

definition app_owners_url :: "connector \<Rightarrow> resource \<Rightarrow> string" where
  "app_owners_url conn r =
     build_beta_url (path_join [''servicePrincipals'', rid_resource (res_id r), owners_str])
       (skip_ad_filter conn (values_set ''$select'' (join_with '','' [''id'']) []))"

definition app_assigned_url :: "resource \<Rightarrow> string" where
  "app_assigned_url r =
     build_beta_url (path_join [''servicePrincipals'', rid_resource (res_id r), ''appRoleAssignedTo'']) []"

text \<open>At the start the prefix \<open>applications/\<close> is cut from the id of the resource itself.\<close>

definition trim_application :: "resource \<Rightarrow> resource" where
  "trim_application r =
     r\<lparr>res_id := (res_id r)\<lparr>rid_resource := trim_prefix (rid_resource (res_id r)) ''applications/''\<rparr>\<rparr>"

definition enterprise_apps_start :: "connector \<Rightarrow> resource \<Rightarrow> bag \<Rightarrow> resource \<times> bag" where
  "enterprise_apps_start conn r b =
     (if bag_current b = None then
        (let r1 = trim_application r in
         (r1, bag_push (group_page assignment_str (app_assigned_url r1))
                (bag_push (group_page owners_str (app_owners_url conn r1)) b)))
      else (r, b))"

definition assigned_principal :: "app_role_assignment \<Rightarrow> resource_id \<times> annotation list" where
  "assigned_principal a =
     (let rid = (\<lambda>t. \<lparr>rid_type = t, rid_resource = ara_principal_id a\<rparr>) in
      if ara_principal_type a = ''User'' then (rid (rty_id user_resource_type), [])
      else if ara_principal_type a = ''Group'' then
        (rid (rty_id group_resource_type),
         annos_update (GrantExpandable [members_entitlement (ara_principal_id a)] True
           [rty_id user_resource_type]) [])
      else if ara_principal_type a = ''ServicePrincipal'' then
        (rid (rty_id managed_identity_resource_type), [])
      else (rid [], []))"

definition assignment_grant :: "resource \<Rightarrow> app_role_assignment \<Rightarrow> grant" where
  "assignment_grant r a =
     \<lparr>grant_id = ara_id a,
      grant_entitlement =
        bare_entitlement (''enterprise_application:'' @ rid_resource (res_id r) @ '':assignment:''
          @ ara_app_role_id a) r,
      grant_principal = bare_resource (fst (assigned_principal a)),
      grant_annotations = snd (assigned_principal a)\<rparr>"

definition bool_text :: "bool \<Rightarrow> string" where
  "bool_text b = (if b then ''true'' else ''false'')"

definition membership_text :: "membership \<Rightarrow> string" where
  "membership_text m =
     ''&{Id:'' @ mem_id m @ '' Type:'' @ mem_type m @ '' ServicePrincipalType:''
     @ mem_service_principal_type m @ '' AppOwnerOrganizationId:'' @ mem_app_owner_organization_id m
     @ '' OnPremisesSyncEnabled:'' @ bool_text (mem_on_premises_sync_enabled m) @ ''}''"

definition owner_grant :: "resource \<Rightarrow> membership \<Rightarrow> grant option outcome" where
  "owner_grant r gm =
     (let give = (\<lambda>t. Ok (Some
            \<lparr>grant_id = mem_id gm,
             grant_entitlement =
               bare_entitlement (''enterprise_application:'' @ rid_resource (res_id r) @ '':owners'') r,
             grant_principal = bare_resource \<lparr>rid_type = rty_id t, rid_resource = mem_id gm\<rparr>,
             grant_annotations = []\<rparr>)) in
      if mem_type gm = odata_type_user then give user_resource_type
      else if mem_type gm = odata_type_service_principal then
        (if mem_service_principal_type gm = sp_type_application
         then give enterprise_application_resource_type
         else if mem_service_principal_type gm = sp_type_managed_identity
         then give managed_identity_resource_type
         else Ok None)
      else Err (ErrText (''unknown membership type '' @ membership_text gm
             @ '' for application owner (id='' @ rid_resource (res_id r) @ '')'')))"

definition assignment_grants ::
  "resource \<Rightarrow> ('z builders_scheme, grant list \<times> string) io" where
  "assignment_grants r w =
     (bind_outcome (deref (app_cache_get (rid_resource (res_id r)) w)) (\<lambda>sp.
        bind_outcome (convert_all (\<lambda>p. bind_outcome (deref p) (\<lambda>a. Ok (assignment_grant r a)))
            (spn_app_roles_assigned_to sp)) (\<lambda>gs. Ok (gs, []))), w)"

definition owner_grants ::
  "env \<Rightarrow> resource \<Rightarrow> bag \<Rightarrow> page_state \<Rightarrow> ('z builders_scheme, grant list \<times> string) io" where
  "owner_grants env r b ps w =
     (case query env graph_read_scopes ''GET'' (ps_token ps) NoBody
            (Some dec_membership_list) zero_graph_list w of
        ((Some e, resp), w1) \<Rightarrow> if errors_is e ErrNotFound then (Ok ([], []), w1) else (Err e, w1)
      | ((None, resp), w1) \<Rightarrow>
          (bind_outcome (convert_err (\<lambda>p. bind_outcome (deref p) (owner_grant r)) (gl_value resp)) (\<lambda>gs.
             Ok (gs, fst (bag_next_token (gl_next_link resp) b))), w1))"

definition enterprise_apps_grants ::
  "env \<Rightarrow> connector \<Rightarrow> resource \<Rightarrow> string \<Rightarrow> ('z builders_scheme, grant list \<times> string) io"
where
  "enterprise_apps_grants env conn r0 token =
     bind_io (lift_io (of_sum (bag_unmarshal token))) (\<lambda>b0.
     case enterprise_apps_start conn r0 b0 of (r, b) \<Rightarrow>
     bind_io (lift_io (deref (bag_current b))) (\<lambda>ps.
       if ps_resource_type_id ps = assignment_str then assignment_grants r
       else if ps_resource_type_id ps = owners_str then owner_grants env r b ps
       else fail_io (ErrText (''unknown resource type: '' @ ps_resource_type_id ps))))"

section \<open>Grant and Revoke\<close>

definition enterprise_apps_grant ::
  "env \<Rightarrow> resource \<Rightarrow> entitlement \<Rightarrow> ('z world_scheme, unit) io" where
  "enterprise_apps_grant env p e w =
     (case unmarshal_entitlement_id (ent_id e) of
        Inl err \<Rightarrow> (Err err, w)
      | Inr i \<Rightarrow>
          if rid_type (res_id p) \<noteq> rty_id user_resource_type then
            (Err (ErrText ''baton-microsoft-entra: only users can be granted enterprise app entitlements''), w)
          else
            (let rid = rid_resource (res_id (ent_resource e));
                 call = (\<lambda>u b.
                   (case query_unit env ''POST'' u b w of
                      (Some err, w1) \<Rightarrow> (Err (wrap_error ''failed to grant entitlement'' err), w1)
                    | (None, w1) \<Rightarrow> (Ok (), w1)))
             in if eid_type i = owners_str then
                  call (build_url (path_join [''servicePrincipals'', rid, ''owners'', ''$ref'']) [])
                    (marshal_to_reader \<lparr>asg_object_ref = get_group_grant_url p\<rparr>)
                else if eid_type i = assignment_str then
                  call (build_beta_url (path_join [''servicePrincipals'', rid, ''appRoleAssignedTo'']) [])
                    (MapBody [(''appRoleId'', JStr (eid_app_role_id i)),
                              (''principalId'', JStr (rid_resource (res_id p))),
                              (''resourceId'', JStr rid)])
                else (Err (ErrText ''baton-microsoft-entra: only can provision app roles or owners entitlements to an enterprise application''), w)))"

definition enterprise_apps_revoke :: "env \<Rightarrow> grant \<Rightarrow> ('z world_scheme, unit) io" where
  "enterprise_apps_revoke env g w =
     (case unmarshal_entitlement_id (ent_id (grant_entitlement g)) of
        Inl err \<Rightarrow> (Err err, w)
      | Inr i \<Rightarrow>
          (let rid = rid_resource (res_id (ent_resource (grant_entitlement g)));
               address =
                 (if eid_type i = owners_str then
                    Some (build_url (path_join [''servicePrincipals'', rid, ''owners'',
                      rid_resource (res_id (grant_principal g)), ''$ref'']) [])
                  else if eid_type i = assignment_str then
                    Some (build_url (path_join [''servicePrincipals'', rid, ''appRoleAssignedTo'', grant_id g]) [])
                  else None)
           in case address of
                None \<Rightarrow> (Err (ErrText ''baton-microsoft-entra: only can revoke app roles or owners entitlements to an enterprise application''), w)
              | Some u \<Rightarrow>
                  (case query_unit env ''DELETE'' u NoBody w of
                     (Some err, w1) \<Rightarrow> (Err (wrap_error ''failed to revoke grant'' err), w1)
                   | (None, w1) \<Rightarrow> (Ok (), w1))))"

end
