(* ===== verification/Arm_Resources.thy ===== *)
theory Arm_Resources
  imports Connector_Model
begin

text \<open>
  Subscriptions, tenants and resource groups (\<open>subscription.go\<close>, \<open>tenant.go\<close>,
  \<open>resource_group.go\<close> and their helpers of \<open>helper.go\<close>): every \<open>List\<close> reads all the pages
  of an ARM pager in one call and turns each value into a resource.
\<close>

section \<open>Loops that collect resources\<close>

definition collect_body ::
  "('a \<Rightarrow> 'r outcome) \<Rightarrow> 'r list \<Rightarrow> 'a list \<Rightarrow> ('w, ('r list, 'r list) flow) io" where
  "collect_body f rv vs =
     lift_io (bind_outcome (convert_all f vs) (\<lambda>rs. Ok (Continue (rv @ rs))))"

definition arm_collect ::
  "env \<Rightarrow> arm_list \<Rightarrow> (history \<Rightarrow> string option \<Rightarrow> error + 'a arm_page) \<Rightarrow> ('a \<Rightarrow> 'r outcome)
    \<Rightarrow> ('z world_scheme, 'r list) io"
where
  "arm_collect env l serve f =
     pager_loop (env_max_pages env) (arm_fetch l serve) (collect_body f) (\<lambda>rv. rv) None []"

section \<open>Subscriptions\<close>

definition subscription_resource :: "subscription \<Rightarrow> resource outcome" where
  "subscription_resource s =
     (let profile = [(''subscriptionId'', PStr (string_value (sub_id s))),
                     (''displayName'', PStr (string_value (sub_display_name s))),
                     (''state'', PStr (string_value (sub_state s)))]
      in new_app_resource (string_value (sub_display_name s)) subscriptions_resource_type
           (string_value (sub_id s)) [with_app_profile profile]
           [with_annotation [V1Identifier (string_value (sub_id s))],
            with_annotation [ChildResourceType (rty_id resource_group_resource_type),
                             ChildResourceType (rty_id role_resource_type)]])"

definition subscription_builder_type :: resource_type where
  "subscription_builder_type = subscriptions_resource_type"

definition subscriptions_list ::
  "env \<Rightarrow> resource_id option \<Rightarrow> string \<Rightarrow> ('z world_scheme, resource list \<times> string) io"
where
  "subscriptions_list env parent token =
     bind_io (arm_collect env ListSubscriptions (env_subscriptions env) subscription_resource)
       (\<lambda>rv. return_io (rv, []))"

definition subscriptions_entitlements :: "resource \<Rightarrow> string \<Rightarrow> ('w, entitlement list \<times> string) io" where
  "subscriptions_entitlements r token = return_io
     ([new_permission_entitlement r type_owners (res_display_name r @ '' Subscription Owner'')
         (''Owner of '' @ res_display_name r @ '' subscription'') [user_resource_type],
       new_assignment_entitlement r type_members (res_display_name r @ '' Subscription Member'')
         (''Member of '' @ res_display_name r @ '' subscription'')
         [user_resource_type, group_resource_type]],
      [])"

definition subscriptions_grants :: "resource \<Rightarrow> string \<Rightarrow> ('w, grant list \<times> string) io" where
  "subscriptions_grants r token = return_io ([], [])"

section \<open>Tenants\<close>

definition tenant_resource :: "tenant_description \<Rightarrow> resource outcome" where
  "tenant_resource t =
     (let profile = [(''tenantId'', PStr (string_value (td_id t))),
                     (''tenantCategory'', PStr (string_value (td_tenant_id t)))]
      in new_resource (string_value (td_tenant_id t)) tenant_resource_type
           (string_value (td_tenant_id t)) [with_app_trait [with_app_profile profile]])"

definition tenant_builder_type :: resource_type where
  "tenant_builder_type = tenant_resource_type"

definition tenants_list ::
  "env \<Rightarrow> resource_id option \<Rightarrow> string \<Rightarrow> ('z world_scheme, resource list \<times> string) io"
where
  "tenants_list env parent token =
     bind_io (arm_collect env ListTenants (env_tenants env) tenant_resource)
       (\<lambda>rv. return_io (rv, []))"

definition tenants_entitlements :: "resource \<Rightarrow> string \<Rightarrow> ('w, entitlement list \<times> string) io" where
  "tenants_entitlements r token = return_io ([], [])"

definition tenants_grants :: "resource \<Rightarrow> string \<Rightarrow> ('w, grant list \<times> string) io" where
  "tenants_grants r token = return_io ([], [])"

section \<open>Resource groups\<close>

definition subscription_id :: "string \<Rightarrow> resource_id" where
  "subscription_id s = \<lparr>rid_type = rty_id subscriptions_resource_type, rid_resource = s\<rparr>"

definition resource_group_profile :: "resource_group \<Rightarrow> profile" where
  "resource_group_profile rg =
     [(''id'', PStr (string_value (rg_id rg))), (''name'', PStr (string_value (rg_name rg))),
      (''type'', PStr (string_value (rg_type rg))),
      (''location'', PStr (string_value (rg_location rg)))]"

definition resource_group_resource ::
  "resource_group \<Rightarrow> resource_id option \<Rightarrow> resource outcome" where
  "resource_group_resource rg parent =
     new_resource (string_value (rg_name rg)) resource_group_resource_type
       (string_value (rg_name rg))
       [with_group_trait [with_group_profile (resource_group_profile rg)],
        with_parent_resource_id parent]"

definition resource_group_builder_type :: resource_type where
  "resource_group_builder_type = resource_group_resource_type"

definition resource_groups_list ::
  "env \<Rightarrow> resource_id option \<Rightarrow> string \<Rightarrow> ('z world_scheme, resource list \<times> string) io"
where
  "resource_groups_list env parent token =
     (case parent of
        None \<Rightarrow> return_io ([], [])
      | Some p \<Rightarrow>
          bind_io (new_arm_client env) (\<lambda>_.
          bind_io (arm_collect env (ListResourceGroups (rid_resource p))
            (env_resource_groups env (rid_resource p))
            (\<lambda>rg. resource_group_resource rg (Some (subscription_id (rid_resource p)))))
          (\<lambda>rv. return_io (rv, []))))"

definition resource_groups_entitlements ::
  "resource \<Rightarrow> string \<Rightarrow> ('w, entitlement list \<times> string) io" where
  "resource_groups_entitlements r token = return_io ([], [])"

definition resource_groups_grants :: "resource \<Rightarrow> string \<Rightarrow> ('w, grant list \<times> string) io" where
  "resource_groups_grants r token = return_io ([], [])"

text \<open>\<open>getResourceGroups\<close>: the names of the groups of all subscriptions.\<close>

definition get_resource_groups :: "env \<Rightarrow> ('z world_scheme, string list) io" where
  "get_resource_groups env =
     pager_loop (env_max_pages env) (arm_fetch ListSubscriptions (env_subscriptions env))
       (\<lambda>rv subs. bind_io
          (fold_io (\<lambda>names s.
             bind_io (lift_io (deref (sub_id s))) (\<lambda>sid.
             bind_io (new_arm_client env) (\<lambda>_.
             bind_io (arm_collect env (ListResourceGroups sid) (env_resource_groups env sid)
               (\<lambda>g. deref (rg_name g))) (\<lambda>new. return_io (names @ new))))) rv subs)
          (\<lambda>rv'. return_io (Continue rv')))
       (\<lambda>rv. rv) None []"

section \<open>A service with finitely many pages is read completely\<close>

lemma collect_body_Ok:
  "convert_all g vs = Ok rs \<Longrightarrow> collect_body g acc vs w = (Ok (Continue (acc @ rs)), w)"
  by (simp add: collect_body_def lift_io_def)

lemma arm_collect_Ok:
  assumes "serves_from f cur ps" and "length ps \<le> n"
    and "convert_all g (concat (map page_value ps)) = Ok rs"
  shows "pager_loop n (arm_fetch l f) (collect_body g) (\<lambda>rv. rv) cur acc w =
    (Ok (acc @ rs), log_events (page_events l cur ps) w)"
  using assms
proof (induction ps arbitrary: n cur acc rs w)
  case (Cons p ps)
  then obtain m where n: "n = Suc m" by (cases n) auto
  obtain as bs where ab: "convert_all g (page_value p) = Ok as"
      "convert_all g (concat (map page_value ps)) = Ok bs" "rs = as @ bs"
    using Cons.prems(3) by (auto simp: convert_all_Ok list_all2_append1)
  show ?case
  proof (cases ps)
    case Nil
    with Cons.prems have "\<forall>h. f h cur = Inr p" "\<not> page_more p" by auto
    then show ?thesis
      using ab by (simp add: n Nil bind_io_def arm_fetch_serves collect_body_Ok return_io_def)
  next
    case (Cons q qs)
    with Cons.prems have f: "\<forall>h. f h cur = Inr p" "page_more p"
      and rest: "serves_from f (page_next p) ps" by auto
    have "pager_loop m (arm_fetch l f) (collect_body g) (\<lambda>rv. rv) (page_next p) (acc @ as)
            (log_events [ArmPage l cur] w) =
          (Ok ((acc @ as) @ bs), log_events (page_events l (page_next p) ps) (log_events [ArmPage l cur] w))"
      using Cons.IH [OF rest _ ab(2)] Cons.prems(2) n by simp
    with f ab show ?thesis
      by (simp add: n bind_io_def arm_fetch_serves collect_body_Ok [OF ab(1)])
  qed
qed simp

text \<open>A loop that returns has a bound that was large enough, and returns what it collected.\<close>

lemma arm_collect_complete:
  assumes "serves_from f None ps" and "length ps \<le> env_max_pages env"
    and "convert_all g (concat (map page_value ps)) = Ok rs"
  shows "arm_collect env l f g w = (Ok rs, log_events (page_events l None ps) w)"
  using arm_collect_Ok [OF assms, of l "[]"] by (simp add: arm_collect_def)

end
