(* ===== verification/Principals.thy ===== *)
theory Principals
  imports Arm_Resources
begin

text \<open>
  The helpers of \<open>helper.go\<close> behind role assignments: what a principal is
  (\<open>getPrincipalType\<close> asks Graph up to four times), the resource a grant gives it to, the
  ids of roles, the roles of a subscription and the assignment to delete.
\<close>

section \<open>Principals\<close>

definition principal_endpoints :: "string list" where
  "principal_endpoints = [''directoryObjects'', ''users'', ''groups'', ''servicePrincipals'']"

definition string_member :: "string \<Rightarrow> json_map \<Rightarrow> string option" where
  "string_member k m = (case map_of m k of Some (JStr s) \<Rightarrow> Some s | _ \<Rightarrow> None)"

text \<open>The answer a decoded object gives, None to ask the next endpoint.\<close>

definition principal_answer :: "json_map \<Rightarrow> string option" where
  "principal_answer m =
     (case string_member ''@odata.type'' m of
        None \<Rightarrow> None
      | Some t \<Rightarrow>
          if t = ''#microsoft.graph.servicePrincipal''
          then string_member ''servicePrincipalType'' m
          else Some t)"

text \<open>The map the answers are decoded into is one for all the requests.\<close>

fun principal_type_loop ::
  "env \<Rightarrow> string \<Rightarrow> json_map \<Rightarrow> string list \<Rightarrow> ('z world_scheme, string) io"
where
  "principal_type_loop env pid data [] w = (Ok [], w)"
| "principal_type_loop env pid data (ep # eps) w =
     (case query env graph_read_scopes ''GET'' (build_url (ep @ ''/'' @ pid) []) NoBody
             (Some dec_map) data w of
        ((Some e, data'), w1) \<Rightarrow> (Err e, w1)
      | ((None, data'), w1) \<Rightarrow>
          (case principal_answer data' of
             Some t \<Rightarrow> (Ok t, w1)
           | None \<Rightarrow> principal_type_loop env pid data' eps w1))"

definition get_principal_type :: "env \<Rightarrow> string \<Rightarrow> ('z world_scheme, string) io" where
  "get_principal_type env pid = principal_type_loop env pid [] principal_endpoints"

definition principal_resource_type :: "string \<Rightarrow> resource_type option" where
  "principal_resource_type t =
     (if t = ''#microsoft.graph.user'' then Some user_resource_type
      else if t = ''#microsoft.graph.group'' then Some resource_group_resource_type
      else if t = ''Application'' then Some enterprise_application_resource_type
      else if t = ''ManagedIdentity'' then Some managed_identity_resource_type
      else None)"

definition get_principal_id_resource :: "string \<Rightarrow> string \<Rightarrow> resource_id option" where
  "get_principal_id_resource t pid =
     map_option (\<lambda>rt. \<lparr>rid_type = rty_id rt, rid_resource = pid\<rparr>) (principal_resource_type t)"

section \<open>Roles\<close>

text \<open>\<open>getRoleId\<close> indexes the pieces of the id at 2, which panics when there are only two.\<close>

definition get_role_id :: "string option \<Rightarrow> string outcome" where
  "get_role_id p =
     (if str_contains (string_value p) ''/'' then
        (let arr = split_at (CHR ''/'') (string_value p) in
         if 2 < length arr then Ok (last arr @ '':'' @ arr ! 2) else Panic IndexOutOfRange)
      else Ok [])"

definition role_profile :: "string \<Rightarrow> role_definition \<Rightarrow> role_properties \<Rightarrow> profile" where
  "role_profile i role ps =
     [(''id'', PStr i), (''name'', PStr (string_value (rp_role_name ps))),
      (''description'', PStr (string_value (rp_description ps))),
      (''type'', PStr (string_value (rp_role_type ps))),
      (''role-definition-id'', PStr (string_value (rd_id role)))]"

definition role_resource :: "role_definition \<Rightarrow> resource_id option \<Rightarrow> resource outcome" where
  "role_resource role parent =
     bind_outcome (get_role_id (rd_id role)) (\<lambda>i.
     bind_outcome (deref (rd_properties role)) (\<lambda>ps.
     new_role_resource (string_value (rp_role_name ps)) role_resource_type i
       [with_role_profile (role_profile i role ps)]
       [with_role_trait [with_role_profile (role_profile i role ps)],
        with_parent_resource_id parent]))"

definition subscription_scope :: "string \<Rightarrow> string" where
  "subscription_scope s = ''/subscriptions/'' @ s"

definition resource_group_scope :: "string \<Rightarrow> string \<Rightarrow> string" where
  "resource_group_scope s g = ''/subscriptions/'' @ s @ ''/resourceGroups/'' @ g"

definition role_definition_id :: "string \<Rightarrow> string \<Rightarrow> string" where
  "role_definition_id s role =
     ''/subscriptions/'' @ s @ ''/providers/Microsoft.Authorization/roleDefinitions/'' @ role"

definition get_all_roles :: "env \<Rightarrow> string \<Rightarrow> ('z world_scheme, string list) io" where
  "get_all_roles env s =
     bind_io (new_arm_client env) (\<lambda>_.
       arm_collect env (ListRoleDefinitions (subscription_scope s))
         (env_role_definitions env (subscription_scope s)) (\<lambda>role. deref (rd_name role)))"

section \<open>Role assignments\<close>

definition assignment_principal :: "role_assignment \<Rightarrow> string outcome" where
  "assignment_principal a =
     bind_outcome (deref (ra_properties a)) (\<lambda>ps. deref (ap_principal_id ps))"

definition assignment_role :: "role_assignment \<Rightarrow> string outcome" where
  "assignment_role a =
     bind_outcome (deref (ra_properties a)) (\<lambda>ps. deref (ap_role_definition_id ps))"

text \<open>
  The loop of \<open>getAssignmentID\<close> over a page: the name of the first assignment of the role
  to the principal. The role is only looked at when the principal matches.
\<close>

fun find_assignment :: "string \<Rightarrow> string \<Rightarrow> role_assignment list \<Rightarrow> string option outcome" where
  "find_assignment pid role_def [] = Ok None"
| "find_assignment pid role_def (a # as) =
     bind_outcome (assignment_principal a) (\<lambda>p.
       if p = pid then
         bind_outcome (assignment_role a) (\<lambda>r.
           if r = role_def then bind_outcome (deref (ra_name a)) (\<lambda>n. Ok (Some n))
           else find_assignment pid role_def as)
       else find_assignment pid role_def as)"

definition assignment_not_found :: error where
  "assignment_not_found = ErrText ''role assignment not found''"

definition get_assignment_id ::
  "env \<Rightarrow> string \<Rightarrow> string \<Rightarrow> string \<Rightarrow> string \<Rightarrow> ('z world_scheme, string) io"
where
  "get_assignment_id env scope s role pid =
     bind_io (new_arm_client env) (\<lambda>_.
     bind_io
       (pager_loop (env_max_pages env)
         (arm_fetch (ListAssignmentsForScope s scope) (env_assignments_for_scope env s scope))
         (\<lambda>_ as. lift_io (bind_outcome (find_assignment pid (role_definition_id s role) as) (\<lambda>r.
            Ok (case r of None \<Rightarrow> Continue () | Some n \<Rightarrow> Return (Some n)))))
         (\<lambda>_. None) None ())
       (\<lambda>r. case r of None \<Rightarrow> fail_io assignment_not_found | Some n \<Rightarrow> return_io n))"

section \<open>Creating and deleting an assignment\<close>

text \<open>Logging the created assignment dereferences all its fields once it has an id.\<close>

definition log_created :: "role_assignment \<Rightarrow> unit outcome" where
  "log_created a =
     (if ra_id a = None then Ok ()
      else bind_outcome (deref (ra_type a)) (\<lambda>_.
           bind_outcome (deref (ra_name a)) (\<lambda>_.
           bind_outcome (deref (ra_properties a)) (\<lambda>ps.
           bind_outcome (deref (ap_principal_id ps)) (\<lambda>_.
           bind_outcome (deref (ap_role_definition_id ps)) (\<lambda>_.
           bind_outcome (deref (ap_scope ps)) (\<lambda>_. Ok ())))))))"

text \<open>
  The common end of the two \<open>Grant\<close> methods. Every \<open>ResponseError\<close> leaves the switch, and
  the zero response that comes with an error has no id.
\<close>

definition create_role_assignment ::
  "env \<Rightarrow> string \<Rightarrow> string \<Rightarrow> string \<Rightarrow> string \<Rightarrow> ('z world_scheme, unit) io"
where
  "create_role_assignment env s scope role pid =
     bind_io (new_arm_client env) (\<lambda>_ w.
       case create_assignment env s scope (env_uuid env (history w)) pid (role_definition_id s role) w of
         (Inl e, w1) \<Rightarrow>
           (case as_response_error e of
              Some code \<Rightarrow> (Ok (), w1)
            | None \<Rightarrow> (Err e, w1))
       | (Inr a, w1) \<Rightarrow> (log_created a, w1))"

text \<open>The common end of the two \<open>Revoke\<close> methods.\<close>

definition delete_role_assignment ::
  "env \<Rightarrow> string \<Rightarrow> string \<Rightarrow> string \<Rightarrow> string \<Rightarrow> ('z world_scheme, unit) io"
where
  "delete_role_assignment env s scope role pid =
     bind_io (get_assignment_id env scope s role pid) (\<lambda>name.
     bind_io (new_arm_client env) (\<lambda>_.
     bind_io (delete_assignment env s scope name) (\<lambda>a.
       if ra_id a = None
       then fail_io (ErrText (''failed to revoke role assignment '' @ role @ '' scope: '' @ scope))
       else return_io ())))"

end
