(* ===== verification/Roles.thy ===== *)
theory Roles
  imports Principals
begin

text \<open>
  Roles: \<open>role.go\<close>. A role is listed once for every subscription; its grants are the
  subscription's role assignments of that role, which are read once and cached by
  subscription; \<open>Grant\<close> creates an assignment and \<open>Revoke\<close> finds and deletes one.
\<close>

section \<open>The cache of role assignments\<close>

definition role_cache_get :: "string \<Rightarrow> 'z builders_scheme \<Rightarrow> role_assignment list option" where
  "role_cache_get s w = role_cache w s"

definition role_cache_set ::
  "string \<Rightarrow> role_assignment list \<Rightarrow> 'z builders_scheme \<Rightarrow> 'z builders_scheme" where
  "role_cache_set s as w = w\<lparr>role_cache := (role_cache w)(s \<mapsto> as)\<rparr>"

text \<open>One page: read what is cached, store it with the values of the page appended.\<close>

definition cache_page ::
  "string \<Rightarrow> unit \<Rightarrow> role_assignment list \<Rightarrow> ('z builders_scheme, (unit, unit) flow) io" where
  "cache_page s u vs w =
     (let assignments = (case role_cache_get s w of None \<Rightarrow> [] | Some as \<Rightarrow> as)
      in (Ok (Continue ()), role_cache_set s (assignments @ vs) w))"

definition cache_role_assignments :: "env \<Rightarrow> string \<Rightarrow> ('z builders_scheme, unit) io" where
  "cache_role_assignments env s w =
     (if role_cache_get s w \<noteq> None then (Ok (), w)
      else bind_io (new_arm_client env) (\<lambda>_.
             pager_loop (env_max_pages env)
               (arm_fetch (ListRoleAssignments s) (env_role_assignments env s))
               (cache_page s) (\<lambda>u. u) None ()) w)"

section \<open>List and Entitlements\<close>

definition roles_resource_type :: resource_type where
  "roles_resource_type = role_resource_type"

definition roles_list ::
  "env \<Rightarrow> resource_id option \<Rightarrow> string \<Rightarrow> ('z world_scheme, resource list \<times> string) io"
where
  "roles_list env parent token =
     (case parent of
        None \<Rightarrow> return_io ([], [])
      | Some p \<Rightarrow>
          (let scope = subscription_scope (rid_resource p) in
           bind_io (arm_collect env (ListRoleDefinitions scope) (env_role_definitions env scope)
             (\<lambda>role. role_resource role (Some (subscription_id (rid_resource p)))))
           (\<lambda>rv. return_io (rv, []))))"

definition roles_entitlements :: "resource \<Rightarrow> string \<Rightarrow> ('w, entitlement list \<times> string) io" where
  "roles_entitlements r token = return_io
     ([new_permission_entitlement r type_owners (res_display_name r @ '' Role Owner'')
         (''Owner of '' @ res_display_name r @ '' role'') [user_resource_type],
       new_assignment_entitlement r type_assigned (res_display_name r @ '' Role Member'')
         (''Member of '' @ res_display_name r @ '' role'') [user_resource_type, group_resource_type]],
      [])"

section \<open>Grants\<close>

text \<open>The id of a role resource is the role and its subscription; any other id gives two empty texts.\<close>

definition role_key :: "resource \<Rightarrow> string \<times> string" where
  "role_key r =
     (let arr = split_at (CHR '':'') (rid_resource (res_id r))
      in if length arr = 2 then (arr ! 1, arr ! 0) else ([], []))"

text \<open>
  One assignment: skipped when it is of another role or its principal cannot be
  determined; a principal of an unknown kind has no resource id, which \<open>NewGrant\<close> rejects
  with a panic.
\<close>

definition grant_of_assignment ::
  "env \<Rightarrow> resource \<Rightarrow> string \<Rightarrow> role_assignment \<Rightarrow> ('z world_scheme, grant option) io"
where
  "grant_of_assignment env r role_def a =
     bind_io (lift_io (assignment_role a)) (\<lambda>rd.
       if role_def \<noteq> rd then return_io None
       else bind_io (lift_io (assignment_principal a)) (\<lambda>pid w.
         case get_principal_type env pid w of
           (Ok t, w1) \<Rightarrow>
             (bind_outcome (new_grant r type_assigned (get_principal_id_resource t pid))
                (\<lambda>g. Ok (Some g)), w1)
         | (Err e, w1) \<Rightarrow> (Ok None, w1)
         | (Panic p, w1) \<Rightarrow> (Panic p, w1)
         | (Diverged, w1) \<Rightarrow> (Diverged, w1)))"

definition grants_of_assignments ::
  "env \<Rightarrow> resource \<Rightarrow> string \<Rightarrow> grant list \<Rightarrow> role_assignment list \<Rightarrow> ('z world_scheme, grant list) io"
where
  "grants_of_assignments env r role_def =
     fold_io (\<lambda>rv a. bind_io (grant_of_assignment env r role_def a)
       (\<lambda>g. return_io (case g of None \<Rightarrow> rv | Some x \<Rightarrow> rv @ [x])))"

definition roles_grants ::
  "env \<Rightarrow> resource \<Rightarrow> string \<Rightarrow> ('z builders_scheme, grant list \<times> string) io"
where
  "roles_grants env r token =
     (case role_key r of (s, role) \<Rightarrow>
      bind_io (cache_role_assignments env s) (\<lambda>_ w.
        let assignments = (case role_cache_get s w of None \<Rightarrow> [] | Some as \<Rightarrow> as) in
        bind_io (grants_of_assignments env r (role_definition_id s role) [] assignments)
          (\<lambda>rv. return_io (rv, [])) w))"

section \<open>Grant and Revoke\<close>

definition grant_users_only :: error where
  "grant_users_only =
     ErrText ''azure-infrastructure-connector: only users can be granted role membership''"

definition revoke_users_only :: error where
  "revoke_users_only =
     ErrText ''azure-infrastructure-connector: only users can have role membership revoked''"

definition invalid_role_id :: error where
  "invalid_role_id = ErrText ''invalid role id''"

definition roles_grant :: "env \<Rightarrow> resource \<Rightarrow> entitlement \<Rightarrow> ('z world_scheme, unit) io" where
  "roles_grant env p e =
     (let r = rid_resource (res_id (ent_resource e)); ids = split_at (CHR '':'') r in
      if rid_type (res_id p) \<noteq> rty_id user_resource_type then fail_io grant_users_only
      else if \<not> str_contains r '':'' then fail_io invalid_role_id
      else if length ids \<noteq> 2 then fail_io invalid_role_id
      else create_role_assignment env (ids ! 1) (subscription_scope (ids ! 1)) (ids ! 0)
             (rid_resource (res_id p)))"

definition roles_revoke :: "env \<Rightarrow> grant \<Rightarrow> ('z world_scheme, unit) io" where
  "roles_revoke env g =
     (let p = grant_principal g; r = rid_resource (res_id (ent_resource (grant_entitlement g)));
          ids = split_at (CHR '':'') r in
      if rid_type (res_id p) \<noteq> rty_id user_resource_type then fail_io revoke_users_only
      else if \<not> str_contains r '':'' then fail_io invalid_role_id
      else if length ids \<noteq> 2 then fail_io invalid_role_id
      else delete_role_assignment env (ids ! 1) (subscription_scope (ids ! 1)) (ids ! 0)
             (rid_resource (res_id p)))"

end
