(* ===== verification/Role_Assignments.thy ===== *)
theory Role_Assignments
  imports Roles
begin

text \<open>
  Role assignments of resource groups: \<open>resource_group_role_assignment.go\<close>. A resource is a
  pair of a resource group and a role of its subscription; its grants are the assignments
  at the group's scope, read without a cache.
\<close>

section \<open>List and Entitlements\<close>

definition get_resource_group_id :: "string \<Rightarrow> string \<Rightarrow> string \<Rightarrow> string" where
  "get_resource_group_id name s role = name @ '':'' @ s @ '':'' @ role"

definition role_assignment_resource_group_resource ::
  "string \<Rightarrow> string \<Rightarrow> resource_group \<Rightarrow> resource_id option \<Rightarrow> resource outcome"
where
  "role_assignment_resource_group_resource s role rg parent =
     new_resource (string_value (rg_name rg)) role_assignment_resource_group_type
       (get_resource_group_id (string_value (rg_name rg)) s role)
       [with_group_trait [with_group_profile (resource_group_profile rg)],
        with_parent_resource_id parent]"

definition role_assignments_resource_type :: resource_type where
  "role_assignments_resource_type = role_assignment_resource_group_type"

text \<open>A resource group with every role, in the order of the roles.\<close>

definition group_role_resources ::
  "string \<Rightarrow> string list \<Rightarrow> resource_group \<Rightarrow> resource list outcome" where
  "group_role_resources s roles rg =
     convert_all (\<lambda>role. role_assignment_resource_group_resource s role rg (Some (subscription_id s)))
       roles"

definition subscription_role_resources ::
  "env \<Rightarrow> resource list \<Rightarrow> subscription \<Rightarrow> ('z world_scheme, resource list) io"
where
  "subscription_role_resources env rv sub =
     bind_io (lift_io (deref (sub_id sub))) (\<lambda>s.
     bind_io (get_all_roles env s) (\<lambda>roles.
     bind_io (new_arm_client env) (\<lambda>_.
     bind_io (arm_collect env (ListResourceGroups s) (env_resource_groups env s)
       (group_role_resources s roles)) (\<lambda>rss.
     return_io (rv @ concat rss)))))"

definition role_assignments_list ::
  "env \<Rightarrow> resource_id option \<Rightarrow> string \<Rightarrow> ('z world_scheme, resource list \<times> string) io"
where
  "role_assignments_list env parent token =
     bind_io
       (pager_loop (env_max_pages env) (arm_fetch ListSubscriptions (env_subscriptions env))
         (\<lambda>rv subs. bind_io (fold_io (subscription_role_resources env) rv subs)
            (\<lambda>rv'. return_io (Continue rv')))
         (\<lambda>rv. rv) None [])
       (\<lambda>rv. return_io (rv, []))"

definition role_assignments_entitlements ::
  "resource \<Rightarrow> string \<Rightarrow> ('w, entitlement list \<times> string) io" where
  "role_assignments_entitlements r token = return_io
     ([new_permission_entitlement r type_owners (res_display_name r @ '' Resource Group Owner'')
         (''Owner of '' @ res_display_name r @ '' resource group'') [user_resource_type],
       new_assignment_entitlement r type_assigned (res_display_name r @ '' Resource Group Member'')
         (''Assigned to '' @ res_display_name r @ '' resource group'')
         [user_resource_type, group_resource_type]],
      [])"

section \<open>Grants\<close>

definition group_role_key :: "resource \<Rightarrow> string \<times> string \<times> string" where
  "group_role_key r =
     (let arr = split_at (CHR '':'') (rid_resource (res_id r))
      in if length arr = 3 then (arr ! 1, arr ! 0, arr ! 2) else ([], [], []))"

definition role_assignments_grants ::
  "env \<Rightarrow> resource \<Rightarrow> string \<Rightarrow> ('z world_scheme, grant list \<times> string) io"
where
  "role_assignments_grants env r token =
     (case group_role_key r of (s, g, role) \<Rightarrow>
      bind_io (new_arm_client env) (\<lambda>_.
      bind_io
        (pager_loop (env_max_pages env)
          (arm_fetch (ListAssignmentsForScope s (resource_group_scope s g))
            (env_assignments_for_scope env s (resource_group_scope s g)))
          (\<lambda>rv as. bind_io (grants_of_assignments env r (role_definition_id s role) rv as)
             (\<lambda>rv'. return_io (Continue rv')))
          (\<lambda>rv. rv) None [])
        (\<lambda>rv. return_io (rv, []))))"

section \<open>Grant and Revoke\<close>

definition role_assignments_grant ::
  "env \<Rightarrow> resource \<Rightarrow> entitlement \<Rightarrow> ('z world_scheme, unit) io" where
  "role_assignments_grant env p e =
     (let r = rid_resource (res_id (ent_resource e)); ids = split_at (CHR '':'') r in
      if rid_type (res_id p) \<noteq> rty_id user_resource_type then fail_io grant_users_only
      else if \<not> str_contains r '':'' then fail_io invalid_role_id
      else if length ids \<noteq> 3 then fail_io invalid_role_id
      else create_role_assignment env (ids ! 1) (resource_group_scope (ids ! 1) (ids ! 0)) (ids ! 2)
             (rid_resource (res_id p)))"

definition role_assignments_revoke :: "env \<Rightarrow> grant \<Rightarrow> ('z world_scheme, unit) io" where
  "role_assignments_revoke env g =
     (let p = grant_principal g; r = rid_resource (res_id (ent_resource (grant_entitlement g)));
          ids = split_at (CHR '':'') r in
      if rid_type (res_id p) \<noteq> rty_id user_resource_type then fail_io revoke_users_only
      else if \<not> str_contains r '':'' then fail_io invalid_role_id
      else if length ids \<noteq> 3 then fail_io invalid_role_id
      else delete_role_assignment env (ids ! 1) (resource_group_scope (ids ! 1) (ids ! 0)) (ids ! 2)
             (rid_resource (res_id p)))"

end
