(* ===== verification/Connector_Core.thy ===== *)
theory Connector_Core
  imports Config Entra_Users Enterprise_Apps Role_Assignments Paging
begin

text \<open>
  \<open>connector.go\<close> and \<open>main.go\<close>: the choice of the credential, the construction of the
  connector with the organizations it reads from Graph, and its resource syncers; then the
  SDK's \<open>connectorbuilder\<close>, which registers the syncers by resource type and serves
  their methods.
\<close>

section \<open>Credentials\<close>

datatype credential =
    CliCredential
  | ClientSecretCredential string string string
  | DefaultCredential string

definition choose_credential :: "bool \<Rightarrow> string \<Rightarrow> string \<Rightarrow> string \<Rightarrow> credential" where
  "choose_credential use_cli tenant client secret =
     (if use_cli then CliCredential
      else if \<not> is_empty tenant \<and> \<not> is_empty client \<and> \<not> is_empty secret
      then ClientSecretCredential tenant client secret
      else DefaultCredential tenant)"

text \<open>
  What starting up calls outside the repository: making the HTTP client, the credential
  and the caching HTTP client may fail, and the credential decides the environment.
\<close>

record startup =
  su_http_client :: "error option"
  su_credential :: "credential \<Rightarrow> error option"
  su_base_client :: "error option"
  su_env :: "credential \<Rightarrow> env"

definition check :: "error option \<Rightarrow> ('w, unit) io" where
  "check e = (case e of None \<Rightarrow> return_io () | Some x \<Rightarrow> fail_io x)"

section \<open>Building the connector\<close>

definition organization_ids :: "organizations \<Rightarrow> string list outcome" where
  "organization_ids resp =
     convert_all (\<lambda>p. bind_outcome (deref p) (\<lambda>org. Ok (org_id org))) (orgs_value resp)"

definition get_organization_ids :: "env \<Rightarrow> ('z world_scheme, string list) io" where
  "get_organization_ids env w =
     (case query_value env ''GET'' (build_beta_url ''organization'' []) NoBody dec_organizations
             \<lparr>orgs_value = []\<rparr> w of
        (Ok resp, w1) \<Rightarrow> (organization_ids resp, w1)
      | (Err e, w1) \<Rightarrow> (Err (wrap_error ''baton-microsoft-entra: failed to get organization ID'' e), w1)
      | (Panic p, w1) \<Rightarrow> (Panic p, w1)
      | (Diverged, w1) \<Rightarrow> (Diverged, w1))"

definition get_role_definitions_client :: "env \<Rightarrow> ('w, unit) io" where
  "get_role_definitions_client env = new_arm_client env"

definition new_connector_from_token ::
  "startup \<Rightarrow> env \<Rightarrow> bool \<Rightarrow> bool \<Rightarrow> ('z world_scheme, connector) io"
where
  "new_connector_from_token su env mailbox skip =
     bind_io (check (su_base_client su)) (\<lambda>_.
     bind_io (new_arm_client env) (\<lambda>_.
     bind_io (get_organization_ids env) (\<lambda>orgs.
     bind_io (get_role_definitions_client env) (\<lambda>_.
       return_io \<lparr>conn_mailbox_settings = mailbox, conn_skip_ad_groups = skip,
                  conn_organization_ids = orgs\<rparr>))))"

definition new_connector ::
  "startup \<Rightarrow> bool \<Rightarrow> string \<Rightarrow> string \<Rightarrow> string \<Rightarrow> bool \<Rightarrow> bool
    \<Rightarrow> ('z world_scheme, connector \<times> env) io"
where
  "new_connector su use_cli tenant client secret mailbox skip =
     bind_io (check (su_http_client su)) (\<lambda>_.
     let cred = choose_credential use_cli tenant client secret in
     bind_io (check (su_credential su cred)) (\<lambda>_.
     bind_io (new_connector_from_token su (su_env su cred) mailbox skip)
       (\<lambda>c. return_io (c, su_env su cred))))"

text \<open>
  The connector's own methods: there are no assets, and validation accepts every
  configuration without asking the services.
\<close>

record metadata_message =
  md_display_name :: string
  md_description :: string

definition connector_metadata :: "metadata_message outcome" where
  "connector_metadata = Ok \<lparr>md_display_name = ''Microsoft Azure'', md_description = ''Connector for Microsoft Azure''\<rparr>"

definition connector_asset :: "(string \<times> string option) outcome" where
  "connector_asset = Ok ([], None)"

definition connector_validate :: "annotation list outcome" where
  "connector_validate = Ok []"

section \<open>The resource syncers\<close>

text \<open>The builders of a new connector have empty caches.\<close>

definition new_builders :: "world \<Rightarrow> builders" where
  "new_builders w = \<lparr>history = history w, http_cache = http_cache w, app_cache = Map.empty, role_cache = Map.empty\<rparr>"

datatype builder =
    UserBuilder | GroupBuilder | SubscriptionBuilder | TenantBuilder | ResourceGroupBuilder
  | ManagedIdentityBuilder | EnterpriseApplicationsBuilder | RoleBuilder
  | RoleAssignmentResourceGroupBuilder

definition resource_syncers :: "builder list" where
  "resource_syncers =
     [UserBuilder, GroupBuilder, SubscriptionBuilder, TenantBuilder, ResourceGroupBuilder,
      ManagedIdentityBuilder, EnterpriseApplicationsBuilder, RoleBuilder]"

fun builder_type :: "builder \<Rightarrow> resource_type" where
  "builder_type UserBuilder = users_resource_type"
| "builder_type GroupBuilder = groups_resource_type"
| "builder_type SubscriptionBuilder = subscription_builder_type"
| "builder_type TenantBuilder = tenant_builder_type"
| "builder_type ResourceGroupBuilder = resource_group_builder_type"
| "builder_type ManagedIdentityBuilder = managed_identities_resource_type"
| "builder_type EnterpriseApplicationsBuilder = enterprise_apps_resource_type"
| "builder_type RoleBuilder = roles_resource_type"
| "builder_type RoleAssignmentResourceGroupBuilder = role_assignments_resource_type"

lemmas builder_type_defs =
  users_resource_type_def groups_resource_type_def subscription_builder_type_def
  tenant_builder_type_def resource_group_builder_type_def managed_identities_resource_type_def
  enterprise_apps_resource_type_def roles_resource_type_def role_assignments_resource_type_def

fun builder_list ::
  "env \<Rightarrow> connector \<Rightarrow> builder \<Rightarrow> resource_id option \<Rightarrow> string
    \<Rightarrow> ('z builders_scheme, resource list \<times> string) io"
where
  "builder_list env conn UserBuilder = users_list env conn"
| "builder_list env conn GroupBuilder = groups_list env conn"
| "builder_list env conn SubscriptionBuilder = subscriptions_list env"
| "builder_list env conn TenantBuilder = tenants_list env"
| "builder_list env conn ResourceGroupBuilder = resource_groups_list env"
| "builder_list env conn ManagedIdentityBuilder = managed_identities_list env"
| "builder_list env conn EnterpriseApplicationsBuilder = enterprise_apps_list env conn"
| "builder_list env conn RoleBuilder = roles_list env"
| "builder_list env conn RoleAssignmentResourceGroupBuilder = role_assignments_list env"

fun builder_entitlements ::
  "builder \<Rightarrow> resource \<Rightarrow> string \<Rightarrow> ('z builders_scheme, entitlement list \<times> string) io"
where
  "builder_entitlements UserBuilder = users_entitlements"
| "builder_entitlements GroupBuilder = groups_entitlements"
| "builder_entitlements SubscriptionBuilder = subscriptions_entitlements"
| "builder_entitlements TenantBuilder = tenants_entitlements"
| "builder_entitlements ResourceGroupBuilder = resource_groups_entitlements"
| "builder_entitlements ManagedIdentityBuilder = managed_identities_entitlements"
| "builder_entitlements EnterpriseApplicationsBuilder = enterprise_apps_entitlements"
| "builder_entitlements RoleBuilder = roles_entitlements"
| "builder_entitlements RoleAssignmentResourceGroupBuilder = role_assignments_entitlements"

fun builder_grants ::
  "env \<Rightarrow> connector \<Rightarrow> builder \<Rightarrow> resource \<Rightarrow> string
    \<Rightarrow> ('z builders_scheme, grant list \<times> string) io"
where
  "builder_grants env conn UserBuilder = users_grants"
| "builder_grants env conn GroupBuilder = groups_grants env conn"
| "builder_grants env conn SubscriptionBuilder = subscriptions_grants"
| "builder_grants env conn TenantBuilder = tenants_grants"
| "builder_grants env conn ResourceGroupBuilder = resource_groups_grants"
| "builder_grants env conn ManagedIdentityBuilder = managed_identities_grants"
| "builder_grants env conn EnterpriseApplicationsBuilder = enterprise_apps_grants env conn"
| "builder_grants env conn RoleBuilder = roles_grants env"
| "builder_grants env conn RoleAssignmentResourceGroupBuilder = role_assignments_grants env"

text \<open>The builders that also provision, and the two operations where they have them.\<close>

fun builder_provisioner ::
  "env \<Rightarrow> builder \<Rightarrow>
    ((resource \<Rightarrow> entitlement \<Rightarrow> ('z builders_scheme, unit) io)
      \<times> (grant \<Rightarrow> ('z builders_scheme, unit) io)) option"
where
  "builder_provisioner env GroupBuilder = Some (groups_grant env, groups_revoke env)"
| "builder_provisioner env EnterpriseApplicationsBuilder =
     Some (enterprise_apps_grant env, enterprise_apps_revoke env)"
| "builder_provisioner env RoleBuilder = Some (roles_grant env, roles_revoke env)"
| "builder_provisioner env RoleAssignmentResourceGroupBuilder =
     Some (role_assignments_grant env, role_assignments_revoke env)"
| "builder_provisioner env _ = None"

section \<open>The SDK's server\<close>

type_synonym server = "string \<rightharpoonup> builder"

fun register_builders :: "server \<Rightarrow> builder list \<Rightarrow> error + server" where
  "register_builders srv [] = Inr srv"
| "register_builders srv (b # bs) =
     (let i = rty_id (builder_type b) in
      if srv i \<noteq> None
      then Inl (ErrText (''error: duplicate resource type found for resource builder '' @ i))
      else register_builders (srv(i \<mapsto> b)) bs)"

definition connector_server :: "error + server" where
  "connector_server = register_builders Map.empty resource_syncers"

definition same_token_error :: "string \<Rightarrow> error" where
  "same_token_error what = ErrText (''error: listing '' @ what
     @ '' failed: next page token is the same as the current page token. this is most likely a connector bug'')"

text \<open>The checks around a method: its error is wrapped, and a token that does not move is one.\<close>

definition serve_page ::
  "string \<Rightarrow> string \<Rightarrow> ('w, 'a list \<times> string) io \<Rightarrow> ('w, 'a list \<times> string) io" where
  "serve_page what token call w =
     (case call w of
        (Ok (xs, next_token), w1) \<Rightarrow>
          if token \<noteq> [] \<and> token = next_token then (Err (same_token_error what), w1)
          else (Ok (xs, next_token), w1)
      | (Err e, w1) \<Rightarrow> (Err (wrap_error (''error: listing '' @ what @ '' failed'') e), w1)
      | (Panic p, w1) \<Rightarrow> (Panic p, w1)
      | (Diverged, w1) \<Rightarrow> (Diverged, w1))"

definition serve_resources ::
  "env \<Rightarrow> connector \<Rightarrow> server \<Rightarrow> string \<Rightarrow> resource_id option \<Rightarrow> string
    \<Rightarrow> ('z builders_scheme, resource list \<times> string) io"
where
  "serve_resources env conn srv ty parent token =
     (case srv ty of
        None \<Rightarrow> fail_io (ErrText (''error: list resources with unknown resource type '' @ ty))
      | Some b \<Rightarrow> serve_page ''resources'' token (builder_list env conn b parent token))"

definition serve_entitlements ::
  "server \<Rightarrow> resource \<Rightarrow> string \<Rightarrow> ('z builders_scheme, entitlement list \<times> string) io"
where
  "serve_entitlements srv r token =
     (case srv (rid_type (res_id r)) of
        None \<Rightarrow> fail_io (ErrText (''error: list entitlements with unknown resource type ''
                  @ rid_type (res_id r)))
      | Some b \<Rightarrow> serve_page ''entitlements'' token (builder_entitlements b r token))"

definition serve_grants ::
  "env \<Rightarrow> connector \<Rightarrow> server \<Rightarrow> resource \<Rightarrow> string
    \<Rightarrow> ('z builders_scheme, grant list \<times> string) io"
where
  "serve_grants env conn srv r token =
     (case srv (rid_type (res_id r)) of
        None \<Rightarrow> fail_io (ErrText (''error: list entitlements with unknown resource type ''
                  @ rid_type (res_id r)))
      | Some b \<Rightarrow> serve_page (''grants for resource '' @ rid_type (res_id r) @ ''/''
                    @ rid_resource (res_id r)) token (builder_grants env conn b r token))"

text \<open>Every builder that is registered is also a provisioner if it has the two methods.\<close>

definition serve_grant ::
  "env \<Rightarrow> server \<Rightarrow> resource \<Rightarrow> entitlement \<Rightarrow> ('z builders_scheme, unit) io" where
  "serve_grant env srv p e w =
     (case Option.bind (srv (rid_type (res_id (ent_resource e)))) (builder_provisioner env) of
        None \<Rightarrow> (Err (ErrText ''error: resource type does not have provisioner configured''), w)
      | Some (give, take_back) \<Rightarrow>
          (case give p e w of
             (Err err, w1) \<Rightarrow> (Err (wrap_error ''error: grant failed'' err), w1)
           | r \<Rightarrow> r))"

definition serve_revoke :: "env \<Rightarrow> server \<Rightarrow> grant \<Rightarrow> ('z builders_scheme, unit) io" where
  "serve_revoke env srv g w =
     (case Option.bind (srv (rid_type (res_id (ent_resource (grant_entitlement g)))))
             (builder_provisioner env) of
        None \<Rightarrow> (Err (ErrStatus Unimplemented ''resource type does not have provisioner configured''), w)
      | Some (give, take_back) \<Rightarrow>
          (case take_back g w of
             (Err err, w1) \<Rightarrow> (Err (wrap_error ''error: revoke failed'' err), w1)
           | r \<Rightarrow> r))"

section \<open>The command\<close>

definition get_connector :: "startup \<Rightarrow> viper \<Rightarrow> ('z world_scheme, connector \<times> env \<times> server) io" where
  "get_connector su v =
     bind_io (check (validate_config v)) (\<lambda>_.
     bind_io (new_connector su (get_bool v (fld_name use_cli_credentials))
         (get_string v (fld_name azure_tenant_id)) (get_string v (fld_name azure_client_id))
         (get_string v (fld_name azure_client_secret)) (get_bool v (fld_name mailbox_settings_field))
         (get_bool v (fld_name skip_ad_groups))) (\<lambda>(c, env).
     bind_io (lift_io (of_sum connector_server)) (\<lambda>srv. return_io (c, env, srv))))"

end
