(* ===== verification/Syncer.thy ===== *)
theory Syncer
  imports Connector_Core
begin

text \<open>
  What the SDK's syncer (\<open>sync/syncer.go\<close>) does with the resources a builder lists: it
  checks that they carry the traits their type declares, asks for the resources of the
  child types they announce, and skips entitlements and grants of types that say so. The
  store the syncer keeps the resource types in is a function of their ids.
\<close>

definition trait_message :: "resource_trait \<Rightarrow> msg_kind" where
  "trait_message t =
     (case t of TraitApp \<Rightarrow> KApp | TraitGroup \<Rightarrow> KGroup | TraitUser \<Rightarrow> KUser | TraitRole \<Rightarrow> KRole)"

definition trait_name :: "resource_trait \<Rightarrow> string" where
  "trait_name t =
     (case t of TraitApp \<Rightarrow> ''AppTrait'' | TraitGroup \<Rightarrow> ''GroupTrait'' | TraitUser \<Rightarrow> ''UserTrait''
      | TraitRole \<Rightarrow> ''RoleTrait'')"

text \<open>The loop over the declared traits: the first that is missing is the error.\<close>

fun missing_trait :: "annotation list \<Rightarrow> resource_trait list \<Rightarrow> error option" where
  "missing_trait annos [] = None"
| "missing_trait annos (t # ts) =
     (if \<not> annos_contains (trait_message t) annos
      then Some (ErrText (''resource was missing expected trait '' @ trait_name t))
      else missing_trait annos ts)"

definition validate_resource_traits :: "(string \<Rightarrow> error + resource_type) \<Rightarrow> resource \<Rightarrow> error option" where
  "validate_resource_traits store r =
     (case store (rid_type (res_id r)) of
        Inl e \<Rightarrow> Some e
      | Inr t \<Rightarrow> missing_trait (res_annotations r) (rty_traits t))"

text \<open>The actions pushed for a resource: its id as the parent of every child type.\<close>

fun sub_resources :: "resource_id \<Rightarrow> annotation list \<Rightarrow> (string \<times> resource_id) list" where
  "sub_resources i [] = []"
| "sub_resources i (ChildResourceType t # as) = (t, i) # sub_resources i as"
| "sub_resources i (a # as) = sub_resources i as"

definition get_sub_resources :: "resource \<Rightarrow> (string \<times> resource_id) list" where
  "get_sub_resources r = sub_resources (res_id r) (res_annotations r)"

definition should_skip_entitlements_and_grants :: "resource_type \<Rightarrow> bool" where
  "should_skip_entitlements_and_grants t = annos_contains KSkip (rty_annotations t)"

text \<open>The types the store holds after the types of a server's builders were synced.\<close>

definition synced_types :: "server \<Rightarrow> string \<Rightarrow> error + resource_type" where
  "synced_types srv i =
     (case srv i of None \<Rightarrow> Inl (ErrText ''sql: no rows in result set'') | Some b \<Rightarrow> Inr (builder_type b))"

lemma missing_trait_None:
  "missing_trait annos ts = None \<longleftrightarrow> (\<forall>t\<in>set ts. annos_contains (trait_message t) annos)"
  by (induction ts) auto

lemmas resource_type_defs = user_resource_type_def group_resource_type_def
  enterprise_application_resource_type_def managed_identity_resource_type_def
  subscriptions_resource_type_def tenant_resource_type_def resource_group_resource_type_def
  role_assignment_resource_group_type_def role_resource_type_def

lemma connector_server_eq:
  "connector_server = Inr
     [''user'' \<mapsto> UserBuilder, ''group'' \<mapsto> GroupBuilder, ''subscription'' \<mapsto> SubscriptionBuilder,
      ''tenant'' \<mapsto> TenantBuilder, ''resource_group'' \<mapsto> ResourceGroupBuilder,
      ''managed_identity'' \<mapsto> ManagedIdentityBuilder,
      ''enterprise_application'' \<mapsto> EnterpriseApplicationsBuilder, ''role'' \<mapsto> RoleBuilder]"
  unfolding connector_server_def resource_syncers_def
  by (simp add: builder_type_defs resource_type_defs Let_def)

end
