(* ===== verification/Resource_Laws.thy ===== *)
theory Resource_Laws
  imports Syncer Http_Laws
begin

text \<open>
  What is proved of the resources the builders list: their type is the builder's and they
  carry the traits it declares, so the syncer accepts all of them; the lists of the
  Resource Manager are complete, and every type that needs a parent is announced by the
  subscriptions.
\<close>

section \<open>Options keep ids and add annotations\<close>

definition kinds :: "resource \<Rightarrow> msg_kind set" where
  "kinds r = set (map message_kind (res_annotations r))"

definition steady :: "resource_option \<Rightarrow> bool" where
  "steady opt \<longleftrightarrow> (\<forall>r r'. opt r = Ok r' \<longrightarrow> res_id r' = res_id r \<and> kinds r \<subseteq> kinds r')"

definition gives :: "msg_kind \<Rightarrow> resource_option \<Rightarrow> bool" where
  "gives k opt \<longleftrightarrow> (\<forall>r r'. opt r = Ok r' \<longrightarrow> k \<in> kinds r')"

lemma kinds_put [simp]: "kinds (put_annotation a r) = insert (message_kind a) (kinds r)"
  unfolding kinds_def put_annotation_fields set_kinds_update ..

lemma steady_options [simp]:
  "steady (with_annotation msgs)" "steady (with_parent_resource_id p)"
  "steady (with_user_trait us)" "steady (with_group_trait gs)"
  "steady (with_role_trait rs)" "steady (with_app_trait as)"
  by (auto simp: steady_def with_annotation_def annos_append_def with_parent_resource_id_def kinds_def [symmetric]
      with_user_trait_def with_group_trait_def with_role_trait_def with_app_trait_def)
    (auto simp: kinds_def)

lemma gives_traits [simp]:
  "gives KUser (with_user_trait us)" "gives KGroup (with_group_trait gs)"
  "gives KRole (with_role_trait rs)" "gives KApp (with_app_trait as)"
  by (auto simp: gives_def with_user_trait_def with_group_trait_def with_role_trait_def with_app_trait_def)

lemma steady_apply:
  "list_all steady opts \<Longrightarrow> apply_options opts r = Ok r' \<Longrightarrow> res_id r' = res_id r \<and> kinds r \<subseteq> kinds r'"
proof (induction opts arbitrary: r)
  case (Cons opt opts)
  then obtain r1 where r1: "opt r = Ok r1" "apply_options opts r1 = Ok r'" by auto
  then have "res_id r1 = res_id r \<and> kinds r \<subseteq> kinds r1" using Cons.prems(1) by (simp add: steady_def)
  with Cons.IH [OF _ r1(2)] Cons.prems(1) show ?case by auto
qed simp

lemma gives_apply:
  assumes "list_all steady opts" and "opt \<in> set opts" and "gives k opt" and "apply_options opts r = Ok r'"
  shows "k \<in> kinds r'"
proof -
  obtain as bs where o: "opts = as @ opt # bs" using assms(2) by (auto simp: in_set_conv_decomp)
  then obtain r1 r2 where "apply_options as r = Ok r1" "opt r1 = Ok r2" "apply_options bs r2 = Ok r'"
    using assms(4) by (auto simp: apply_options_append)
  with assms(1,3) o steady_apply [of bs r2 r'] show ?thesis by (auto simp: gives_def)
qed

definition has_type :: "resource_type \<Rightarrow> resource \<Rightarrow> bool" where
  "has_type t r \<longleftrightarrow> rid_type (res_id r) = rty_id t \<and> trait_message ` set (rty_traits t) \<subseteq> kinds r"

lemma has_type_checked:
  assumes "has_type t r" and "store (rty_id t) = Inr t"
  shows "validate_resource_traits store r = None"
proof -
  have "\<forall>x\<in>set (rty_traits t). annos_contains (trait_message x) (res_annotations r)"
    using assms(1) unfolding has_type_def annos_contains_set kinds_def by blast
  then show ?thesis
    using assms by (simp add: validate_resource_traits_def has_type_def missing_trait_None)
qed

lemma new_resource_res_id:
  "new_resource name t obj opts = Ok r \<Longrightarrow> list_all steady opts \<Longrightarrow> res_id r = new_resource_id t obj"
  using steady_apply by (fastforce simp: new_resource_def)

lemma new_resource_type:
  assumes "new_resource name t obj opts = Ok r" and "list_all steady opts"
    and "\<forall>x\<in>set (rty_traits t). \<exists>opt\<in>set opts. gives (trait_message x) opt"
  shows "has_type t r"
proof -
  have "res_id r = new_resource_id t obj"
    by (rule new_resource_res_id [OF assms(1,2)])
  moreover have "trait_message x \<in> kinds r" if "x \<in> set (rty_traits t)" for x
    using that assms gives_apply by (auto simp: new_resource_def)
  ultimately show ?thesis by (auto simp: has_type_def new_resource_id_def)
qed

lemmas new_resources = new_user_resource_def new_group_resource_def new_role_resource_def new_app_resource_def

lemma resources_typed:
  "user_resource env u parent opts = Ok r \<Longrightarrow> has_type user_resource_type r"
  "group_resource g parent = Ok r \<Longrightarrow> has_type group_resource_type r"
  "managed_identity_resource sp parent = Ok r \<Longrightarrow> has_type managed_identity_resource_type r"
  "enterprise_application_resource sp parent = Ok r \<Longrightarrow> has_type enterprise_application_resource_type r"
  "subscription_resource s = Ok r \<Longrightarrow> has_type subscriptions_resource_type r"
  "tenant_resource t = Ok r \<Longrightarrow> has_type tenant_resource_type r"
  "resource_group_resource rg parent = Ok r \<Longrightarrow> has_type resource_group_resource_type r"
  "role_assignment_resource_group_resource sid role rg parent = Ok r \<Longrightarrow> has_type role_assignment_resource_group_type r"
  unfolding user_resource_def group_resource_def managed_identity_resource_def
    enterprise_application_resource_def subscription_resource_def tenant_resource_def
    resource_group_resource_def role_assignment_resource_group_resource_def Let_def new_resources
  by (erule new_resource_type; simp add: resource_type_defs trait_message_def)+

lemma role_resource_typed:
  assumes "role_resource role parent = Ok r"
  shows "has_type role_resource_type r"
proof -
  obtain i ps where "new_role_resource (string_value (rp_role_name ps)) role_resource_type i
       [with_role_profile (role_profile i role ps)]
       [with_role_trait [with_role_profile (role_profile i role ps)], with_parent_resource_id parent] = Ok r"
    using assms by (auto simp: role_resource_def)
  then show ?thesis
    unfolding new_resources by (rule new_resource_type) (simp_all add: resource_type_defs trait_message_def)
qed

section \<open>Where listed resources come from\<close>

lemma convert_all_origin: "convert_all f vs = Ok rs \<Longrightarrow> \<forall>r\<in>set rs. \<exists>v\<in>set vs. f v = Ok r"
  by (auto simp: convert_all_Ok list_all2_conv_all_nth in_set_conv_nth) (metis nth_mem)

lemma pager_origin:
  assumes "pager_loop n fetch (collect_body f) (\<lambda>rv. rv) cur acc w = (Ok rs, w')"
    and "r \<in> set rs"
  shows "r \<in> set acc \<or> (\<exists>v. f v = Ok r)"
  using assms(1)
proof (induction n arbitrary: cur acc w)
  case (Suc n)
  obtain p w1 where p: "fetch cur w = (Ok p, w1)"
    using Suc.prems by (auto elim: bind_io_Ok_E)
  obtain new where new: "convert_all f (page_value p) = Ok new"
    using Suc.prems p
    by (cases "convert_all f (page_value p)") (auto simp: bind_io_def collect_body_def lift_io_def)
  have "new_from": "\<exists>v. f v = Ok x" if "x \<in> set new" for x
    using convert_all_origin [OF new] that by blast
  show ?case
  proof (cases "page_more p")
    case True
    with Suc.prems p new have "pager_loop n fetch (collect_body f) (\<lambda>rv. rv) (page_next p) (acc @ new) w1 = (Ok rs, w')"
      by (simp add: bind_io_def collect_body_Ok [OF new])
    from Suc.IH [OF this] new_from show ?thesis by auto
  next
    case False
    with Suc.prems p new have "rs = acc @ new"
      by (simp add: bind_io_def collect_body_Ok [OF new] return_io_def)
    with assms(2) new_from show ?thesis by auto
  qed
qed (simp add: lift_io_def)

lemma arm_collect_origin:
  "arm_collect env l serve f w = (Ok rs, w') \<Longrightarrow> \<forall>r\<in>set rs. \<exists>v. f v = Ok r"
  using pager_origin [of "env_max_pages env" "arm_fetch l serve" f None "[]" w rs w']
  by (simp add: arm_collect_def)

lemma users_with_mailboxes_origin:
  "users_with_mailboxes env parent us w = (Ok rs, w') \<Longrightarrow>
    \<forall>r\<in>set rs. \<exists>u opts. user_resource env u parent opts = Ok r"
proof (induction us arbitrary: rs w)
  case (Cons p us)
  then show ?case by (fastforce elim!: bind_io_Ok_E simp: lift_io_def return_io_def)
qed (simp add: return_io_def)

lemma fold_origin:
  assumes "\<And>s x w s' w'. f s x w = (Ok s', w') \<Longrightarrow> set s' \<subseteq> set s \<union> A"
  shows "fold_io f s xs w = (Ok s', w') \<Longrightarrow> set s' \<subseteq> set s \<union> A"
proof (induction xs arbitrary: s w)
  case (Cons x xs)
  then obtain s1 w1 where "f s x w = (Ok s1, w1)" "fold_io f s1 xs w1 = (Ok s', w')"
    by (auto elim: bind_io_Ok_E)
  with Cons.IH assms show ?case by blast
qed (simp add: return_io_def)

lemma pager_fold_origin:
  assumes "\<And>s x w s' w'. f s x w = (Ok s', w') \<Longrightarrow> set s' \<subseteq> set s \<union> A"
    and "body = (\<lambda>rv xs. bind_io (fold_io f rv xs) (\<lambda>rv'. return_io (Continue rv')))"
  shows "pager_loop n fetch body (\<lambda>rv. rv) cur acc w = (Ok rs, w') \<Longrightarrow> set rs \<subseteq> set acc \<union> A"
proof (induction n arbitrary: cur acc w)
  case (Suc n)
  obtain p w1 where p: "fetch cur w = (Ok p, w1)" using Suc.prems by (auto elim: bind_io_Ok_E)
  obtain fl w2 where "body acc (page_value p) w1 = (Ok fl, w2)"
    using Suc.prems p by (auto simp: bind_io_def split: prod.splits outcome.splits)
  then obtain acc' where b: "body acc (page_value p) w1 = (Ok (Continue acc'), w2)"
    and f: "fold_io f acc (page_value p) w1 = (Ok acc', w2)"
    by (auto simp: assms(2) return_io_def elim!: bind_io_Ok_E)
  have "(if page_more p then pager_loop n fetch body (\<lambda>rv. rv) (page_next p) acc' w2
      else (Ok acc', w2)) = (Ok rs, w')"
    using Suc.prems by (simp add: bind_io_def return_io_def p b split: if_splits)
  moreover have "set acc' \<subseteq> set acc \<union> A" by (rule fold_origin [OF assms(1) f])
  ultimately show ?case using Suc.IH by (fastforce split: if_splits)
qed (simp add: lift_io_def)


lemma group_roles_origin:
  assumes "subscription_role_resources env s x v = (Ok s', v')"
  shows "set s' \<subseteq> set s \<union> {r. has_type role_assignment_resource_group_type r}"
proof -
  obtain sid roles v1 rss where rss: "arm_collect env (ListResourceGroups sid) (env_resource_groups env sid)
      (group_role_resources sid roles) v1 = (Ok rss, v')" "s' = s @ concat rss"
    using assms by (auto simp: subscription_role_resources_def return_io_def elim!: bind_io_Ok_E)
  have "has_type role_assignment_resource_group_type y" if ys: "ys \<in> set rss" and y: "y \<in> set ys" for y ys
  proof -
    obtain rg where "group_role_resources sid roles rg = Ok ys"
      using bspec [OF arm_collect_origin [OF rss(1)] ys] by blast
    then obtain role where "role_assignment_resource_group_resource sid role rg (Some (subscription_id sid)) = Ok y"
      using bspec [OF convert_all_origin y] unfolding group_role_resources_def by blast
    then show ?thesis by (rule resources_typed)
  qed
  with rss(2) show ?thesis by auto
qed

lemma builder_list_typed:
  assumes "builder_list env conn b parent token w = (Ok (rs, t), w')" and "r \<in> set rs"
  shows "has_type (builder_type b) r"
proof (cases b)
  case UserBuilder
  with assms show ?thesis
    by (auto simp: users_list_def Let_def builder_type_defs return_io_def lift_io_def
        elim!: bind_io_Ok_E split: if_splits
        dest!: convert_all_origin users_with_mailboxes_origin bspec [OF _ assms(2)])
      (erule resources_typed(1))+
next
  case GroupBuilder
  with assms show ?thesis
    by (auto simp: groups_list_def builder_type_defs return_io_def lift_io_def
        elim!: bind_io_Ok_E dest!: convert_all_origin bspec [OF _ assms(2)]) (erule resources_typed)+
next
  case ManagedIdentityBuilder
  with assms show ?thesis
    by (auto simp: managed_identities_list_def builder_type_defs return_io_def lift_io_def
        elim!: bind_io_Ok_E dest!: convert_all_origin bspec [OF _ assms(2)]) (erule resources_typed)+
next
  case EnterpriseApplicationsBuilder
  with assms show ?thesis
    by (auto simp: enterprise_apps_list_def builder_type_defs return_io_def lift_io_def
        elim!: bind_io_Ok_E dest!: convert_all_origin bspec [OF _ assms(2)]) (erule resources_typed)+
next
  case SubscriptionBuilder
  with assms show ?thesis
    by (auto simp: subscriptions_list_def builder_type_defs return_io_def
        elim!: bind_io_Ok_E dest!: arm_collect_origin bspec [OF _ assms(2)]) (erule resources_typed)+
next
  case TenantBuilder
  with assms show ?thesis
    by (auto simp: tenants_list_def builder_type_defs return_io_def
        elim!: bind_io_Ok_E dest!: arm_collect_origin bspec [OF _ assms(2)]) (erule resources_typed)+
next
  case ResourceGroupBuilder
  with assms show ?thesis
    by (auto simp: resource_groups_list_def builder_type_defs return_io_def
        elim!: bind_io_Ok_E dest!: arm_collect_origin bspec [OF _ assms(2)] split: option.splits) (erule resources_typed)+
next
  case RoleBuilder
  with assms show ?thesis
    by (auto simp: roles_list_def builder_type_defs return_io_def Let_def
        elim!: bind_io_Ok_E dest!: arm_collect_origin bspec [OF _ assms(2)] split: option.splits) (erule role_resource_typed)+
next
  case RoleAssignmentResourceGroupBuilder
  with assms(1) have "pager_loop (env_max_pages env) (arm_fetch ListSubscriptions (env_subscriptions env))
      (\<lambda>rv subs. bind_io (fold_io (subscription_role_resources env) rv subs) (\<lambda>rv'. return_io (Continue rv')))
      (\<lambda>rv. rv) None [] w = (Ok rs, w')"
    by (auto simp: role_assignments_list_def return_io_def elim!: bind_io_Ok_E)
  then have "set rs \<subseteq> set [] \<union> {r. has_type role_assignment_resource_group_type r}"
    by (rule pager_fold_origin [rotated 2]) (rule group_roles_origin, assumption, rule refl)
  with assms(2) RoleAssignmentResourceGroupBuilder show ?thesis
    by (auto simp: builder_type_defs)
qed

text \<open>
  C30: whatever a builder lists is of the builder's own type and carries every trait that
  type declares, so the syncer's check of the traits accepts all the resources of a server
  that serves the builder.
\<close>

theorem listed_resources_accepted:
  assumes "builder_list env conn b parent token w = (Ok (rs, t), w')" and "r \<in> set rs"
    and "srv (rty_id (builder_type b)) = Some b"
  shows "rid_type (res_id r) = rty_id (builder_type b) \<and>
    validate_resource_traits (synced_types srv) r = None"
proof -
  have "has_type (builder_type b) r" by (rule builder_list_typed [OF assms(1,2)])
  then show ?thesis
    using has_type_checked [of "builder_type b" r "synced_types srv"] assms(3)
    by (simp add: has_type_def synced_types_def)
qed

section \<open>An environment of the Resource Manager\<close>

definition one_page :: "'a list \<Rightarrow> 'a arm_page" where
  "one_page xs = \<lparr>page_value = xs, page_next = None\<rparr>"

definition demo_subscription :: subscription where
  "demo_subscription = \<lparr>sub_id = Some ''s1'', sub_display_name = Some ''Sub'', sub_state = Some ''Enabled''\<rparr>"

definition demo_resource_group :: resource_group where
  "demo_resource_group = \<lparr>rg_id = Some ''/g'', rg_name = Some ''g1'', rg_type = None, rg_location = None\<rparr>"

definition demo_role :: role_definition where
  "demo_role = \<lparr>rd_id = Some ''/subscriptions/s1/roles/r1'', rd_name = Some ''r1'',
     rd_properties = Some \<lparr>rp_role_name = Some ''Reader'', rp_description = None, rp_role_type = None\<rparr>\<rparr>"

definition arm_env :: env where
  "arm_env = (quiet_env (\<lambda>_. DeadlinePassed))\<lparr>
     env_subscriptions := \<lambda>_ _. Inr (one_page [demo_subscription]),
     env_resource_groups := \<lambda>_ _ _. Inr (one_page [demo_resource_group]),
     env_role_definitions := \<lambda>_ _ _. Inr (one_page [demo_role])\<rparr>"

definition plain_conn :: connector where
  "plain_conn = \<lparr>conn_mailbox_settings = False, conn_skip_ad_groups = False, conn_organization_ids = [''org'']\<rparr>"

theorem listed_resources_accepted_witness:
  "\<exists>r. fst (builder_list arm_env plain_conn SubscriptionBuilder None [] start_world) = Ok ([r], []) \<and>
    rid_type (res_id r) = ''subscription'' \<and>
    validate_resource_traits (synced_types [''subscription'' \<mapsto> SubscriptionBuilder]) r = None"
proof -
  obtain r w' where l: "builder_list arm_env plain_conn SubscriptionBuilder None [] start_world = (Ok ([r], []), w')"
    and t: "rid_type (res_id r) = ''subscription''"
  proof -
    let ?x = "builder_list arm_env plain_conn SubscriptionBuilder None [] start_world"
    have "case fst ?x of Ok (rs, t) \<Rightarrow> length rs = 1 \<and> t = [] \<and> rid_type (res_id (hd rs)) = ''subscription'' | _ \<Rightarrow> False"
      by code_simp
    then show ?thesis using that by (cases ?x; cases "fst ?x") (auto simp: length_Suc_conv)
  qed
  have "rty_id (builder_type SubscriptionBuilder) = ''subscription''" by code_simp
  with listed_resources_accepted [OF l, of r "[''subscription'' \<mapsto> SubscriptionBuilder]"] l t
  show ?thesis by (intro exI [of _ r]) simp
qed

section \<open>Subscriptions and their children\<close>

lemma subscription_annotations:
  assumes "subscription_resource s = Ok r"
  shows "res_id r = subscription_id (string_value (sub_id s)) \<and>
    get_sub_resources r = [(''resource_group'', res_id r), (''role'', res_id r)]"
  using assms
  by (auto simp: subscription_resource_def new_app_resource_def new_resource_def new_resource_id_def
      with_annotation_def annos_append_def with_app_trait_def put_annotation_def annos_update_def
      get_sub_resources_def subscription_id_def Let_def subscriptions_resource_type_def
      resource_group_resource_type_def role_resource_type_def)

text \<open>
  C31: the tree of a subscription is synced completely. The resource of a subscription
  announces its resource groups and its roles; asking the server for the two child types
  with the parent the syncer passes gives exactly what the Resource Manager has in the
  subscription, over all its pages, with the subscription as the parent.
\<close>

theorem subscription_children_complete:
  assumes "subscription_resource s = Ok r" and "sub_id s = Some i"
    and "connector_server = Inr srv" and "env_arm_client env = None"
    and "serves_from (env_resource_groups env i) None gps" and "length gps \<le> env_max_pages env"
    and "serves_from (env_role_definitions env (subscription_scope i)) None rps" and "length rps \<le> env_max_pages env"
    and "convert_all (\<lambda>g. resource_group_resource g (Some (res_id r))) (concat (map page_value gps)) = Ok gs"
    and "convert_all (\<lambda>d. role_resource d (Some (res_id r))) (concat (map page_value rps)) = Ok rs"
  shows "map (\<lambda>(ty, parent). fst (serve_resources env conn srv ty (Some parent) [] w)) (get_sub_resources r) =
    [Ok (gs, []), Ok (rs, [])]"
proof -
  have r: "res_id r = subscription_id i" "get_sub_resources r = [(''resource_group'', res_id r), (''role'', res_id r)]"
    using subscription_annotations [OF assms(1)] assms(2) by simp_all
  have i: "rid_resource (subscription_id i) = i" by (simp add: subscription_id_def)
  have srv: "srv ''resource_group'' = Some ResourceGroupBuilder" "srv ''role'' = Some RoleBuilder"
    using assms(3) by (auto simp: connector_server_eq)
  note g = arm_collect_complete [OF assms(5,6) assms(9) [unfolded r], of "ListResourceGroups i" w]
  note d = arm_collect_complete [OF assms(7,8) assms(10) [unfolded r], of "ListRoleDefinitions (subscription_scope i)" w]
  have "fst (builder_list env conn ResourceGroupBuilder (Some (res_id r)) [] w) = Ok (gs, [])"
    using g assms(4) r i by (simp add: resource_groups_list_def new_arm_client_def bind_io_def return_io_def)
  moreover have "fst (builder_list env conn RoleBuilder (Some (res_id r)) [] w) = Ok (rs, [])"
    using d r i by (simp add: roles_list_def Let_def bind_io_def return_io_def)
  ultimately show ?thesis
    using r srv by (auto simp: serve_resources_def serve_page_def split: prod.splits)
qed

theorem subscription_children_complete_witness:
  "\<exists>r srv gs rs. subscription_resource demo_subscription = Ok r \<and> connector_server = Inr srv \<and>
    map (\<lambda>(ty, parent). fst (serve_resources arm_env plain_conn srv ty (Some parent) [] start_world))
      (get_sub_resources r) = [Ok ([gs], []), Ok ([rs], [])]"
proof -
  obtain r where r: "subscription_resource demo_subscription = Ok r"
  proof -
    have "is_Ok (subscription_resource demo_subscription)" by code_simp
    then show ?thesis using that by (cases "subscription_resource demo_subscription") auto
  qed
  obtain srv where srv: "connector_server = Inr srv" by (simp add: connector_server_eq)
  let ?i = "Some (subscription_id ''s1'')"
  have i: "res_id r = subscription_id ''s1''"
    using subscription_annotations [OF r] by (simp add: demo_subscription_def)
  obtain g where g: "resource_group_resource demo_resource_group ?i = Ok g"
  proof -
    have "is_Ok (resource_group_resource demo_resource_group ?i)" by code_simp
    then show ?thesis using that by (cases "resource_group_resource demo_resource_group ?i") auto
  qed
  obtain d where d: "role_resource demo_role ?i = Ok d"
  proof -
    have "is_Ok (role_resource demo_role ?i)" by code_simp
    then show ?thesis using that by (cases "role_resource demo_role ?i") auto
  qed
  have "map (\<lambda>(ty, parent). fst (serve_resources arm_env plain_conn srv ty (Some parent) [] start_world))
      (get_sub_resources r) = [Ok ([g], []), Ok ([d], [])]"
    by (rule subscription_children_complete [OF r _ srv, of "''s1''" _ "[one_page [demo_resource_group]]" "[one_page [demo_role]]"])
      (simp_all add: demo_subscription_def arm_env_def quiet_env_def one_page_def page_more_def g d i)
  with r srv show ?thesis by (intro exI conjI)
qed

end
