(* ===== verification/Effects.thy ===== *)
theory Effects
  imports Http_Laws Connector_Core
begin

text \<open>
  What an operation may do to the world, as a reflexive and transitive relation between the
  world before and after it: the rules follow the combinators the operations are written
  with. The interfaces of readers ask the relation for the steps that reading takes, a
  token, a GET, an entry of the HTTP cache, a page of the Resource Manager, an owned
  application, the role assignments of a subscription, and give it to every operation of the
  builders that reads. They are interpreted on relations for the events that happen (reads
  only, one service only) and for what the caches keep.
\<close>

section \<open>Operations that obey a relation\<close>

named_theorems effects \<open>rules for operations that obey a relation\<close>

definition obeys :: "('w \<Rightarrow> 'w \<Rightarrow> bool) \<Rightarrow> ('w, 'a) io \<Rightarrow> bool" where
  "obeys R m \<longleftrightarrow> (\<forall>w. R w (snd (m w)))"

lemma obeysI: "(\<And>w. R w (snd (m w))) \<Longrightarrow> obeys R m"
  by (simp add: obeys_def)

lemma obeysD: "obeys R m \<Longrightarrow> m w = (x, w') \<Longrightarrow> R w w'"
  by (metis obeys_def snd_conv)

locale step_relation =
  fixes R :: "'w \<Rightarrow> 'w \<Rightarrow> bool"
  assumes refl: "R w w" and trans: "R w w1 \<Longrightarrow> R w1 w2 \<Longrightarrow> R w w2"
begin

lemma pure [effects, simp]:
  "obeys R (return_io x)" "obeys R (fail_io e)" "obeys R (lift_io y)"
  by (simp_all add: obeys_def return_io_def fail_io_def lift_io_def refl)

lemma bind [effects]:
  assumes "obeys R m" and "\<And>x. obeys R (f x)"
  shows "obeys R (bind_io m f)"
proof (rule obeysI)
  fix w
  obtain y w1 where m: "m w = (y, w1)" by fastforce
  with assms(1) have g: "R w w1" by (rule obeysD)
  show "R w (snd (bind_io m f w))"
    using m g assms(2) by (cases y) (auto simp: bind_io_def obeys_def intro: trans)
qed

lemma fold [effects]:
  "(\<And>s x. obeys R (f s x)) \<Longrightarrow> obeys R (fold_io f s xs)"
  by (induction xs arbitrary: s) (auto intro!: effects)

lemma pager [effects]:
  assumes "\<And>c. obeys R (fetch c)" and "\<And>s vs. obeys R (body s vs)"
  shows "obeys R (pager_loop n fetch body fin cur s)"
  by (induction n arbitrary: cur s) (auto intro!: effects assms split: flow.split)

lemma case_option [effects]:
  "obeys R a \<Longrightarrow> (\<And>x. obeys R (f x)) \<Longrightarrow> obeys R (case p of None \<Rightarrow> a | Some x \<Rightarrow> f x)"
  by (cases p) simp_all

lemma if_then [effects]: "obeys R a \<Longrightarrow> obeys R b \<Longrightarrow> obeys R (if c then a else b)"
  by simp

lemma pairs [effects]: "(\<And>x y. obeys R (f x y)) \<Longrightarrow> obeys R (case_prod f p)"
  by (cases p) simp

lemma client [effects, simp]: "obeys R (new_arm_client env)"
  by (auto simp: new_arm_client_def intro!: effects)

end

section \<open>Reading Graph\<close>

locale graph_reader = step_relation R
  for R :: "'z builders_scheme \<Rightarrow> 'z builders_scheme \<Rightarrow> bool" and orgs :: "string list" +
  assumes token: "R w (log_event (TokenRequest graph_read_scopes) w)"
    and get: "req_method req = ''GET'' \<Longrightarrow> R w (log_event (HttpEvent req) w)"
    and store: "R w (cache_set req resp w)"
    and owned: "spn_app_owner_organization_id sp \<in> set orgs \<Longrightarrow> R w (app_cache_set (spn_id sp) sp w)"
begin

lemma obtained: "obtain_response env req w = (x, w') \<Longrightarrow> req_method req = ''GET'' \<Longrightarrow> R w w'"
  using get refl by (auto simp: obtain_response_def send_def split: option.splits)

lemma base_done:
  assumes "base_do env req target cur w = (x, w')" and "req_method req = ''GET''"
  shows "R w w'"
proof -
  obtain y w1 where o: "obtain_response env req w = (y, w1)" by fastforce
  with assms(2) have "R w w1" by (rule obtained [rotated])
  moreover have "w' = w1 \<or> (\<exists>resp. w' = cache_set req resp w1)"
    using assms(1) o by (auto simp: base_do_def Let_def split: sum.splits prod.splits if_splits)
  ultimately show ?thesis using store trans by blast
qed

lemma query_get:
  assumes "query env graph_read_scopes ''GET'' u b target cur w = (x, w')"
  shows "R w w'"
proof -
  let ?w1 = "log_event (TokenRequest graph_read_scopes) w"
  have "w' = ?w1 \<or> (\<exists>a tok req y. new_request ''GET'' a tok b = Inr req \<and>
      base_do env req target cur ?w1 = (y, w'))"
    using assms by (auto simp: query_def do_request_def Let_def split: sum.splits prod.splits)
  moreover have "R ?w1 w'" if "new_request ''GET'' a tok b = Inr req" "base_do env req target cur ?w1 = (y, w')"
    for a tok req y
    using base_done [OF that(2)] new_request_body [OF that(1)] by simp
  ultimately show ?thesis using token trans by blast
qed

lemma query_list [simp]: "obeys R (query_list env u dec)"
proof (rule obeysI)
  fix w :: "'z builders_scheme"
  obtain e r w1 where q: "query env graph_read_scopes ''GET'' u NoBody (Some dec) zero_graph_list w = ((e, r), w1)"
    by (metis prod.collapse)
  then show "R w (snd (query_list env u dec w))"
    using query_get [OF q] by (cases e) (simp_all add: query_list_def query_value_def)
qed

lemma mailbox [simp]: "obeys R (mailbox_purpose env u)"
  using query_get by (auto simp: obeys_def mailbox_purpose_def split: prod.splits)

lemma users_mailboxes: "obeys R (users_with_mailboxes env parent us)"
  by (induction us) (auto intro!: effects)

lemma users_reader: "obeys R (users_list env conn parent token)"
  by (auto simp: users_list_def Let_def intro!: effects users_mailboxes)

lemma groups_reader:
  "obeys R (groups_list env conn parent token)" "obeys R (groups_grants env conn r token)"
proof -
  show "obeys R (groups_list env conn parent token)" by (auto simp: groups_list_def intro!: effects)
  have "obeys R (\<lambda>w. case query env graph_read_scopes ''GET'' u NoBody
              (Some dec_membership_list) zero_graph_list w of
         ((Some e, resp), w1) \<Rightarrow> if errors_is e ErrNotFound then (Ok ([], []), w1) else (Err e, w1)
       | ((None, resp), w1) \<Rightarrow> (f resp, w1))" for u and f :: "membership graph_list \<Rightarrow> (grant list \<times> string) outcome"
    using query_get by (auto simp: obeys_def split: prod.splits option.splits)
  then show "obeys R (groups_grants env conn r token)"
    unfolding groups_grants_def Let_def by (intro bind) auto
qed

lemma managed_identities_reader: "obeys R (managed_identities_list env parent token)"
  by (auto simp: managed_identities_list_def intro!: effects)

lemma owned_page:
  assumes "obeys R (collect_owned orgs ps)"
  shows "obeys R (\<lambda>w.
    if spn_app_owner_organization_id sp \<in> set orgs then
      bind_io (collect_owned orgs ps) (\<lambda>rest. return_io (sp # rest)) (app_cache_set (spn_id sp) sp w)
    else collect_owned orgs ps w)"
proof (rule obeysI)
  fix w
  let ?m = "bind_io (collect_owned orgs ps) (\<lambda>rest. return_io (sp # rest))"
  have "obeys R ?m" by (intro effects assms)
  then have "R (app_cache_set (spn_id sp) sp w) (snd (?m (app_cache_set (spn_id sp) sp w)))"
    by (simp add: obeys_def)
  then show "R w (snd (if spn_app_owner_organization_id sp \<in> set orgs
      then ?m (app_cache_set (spn_id sp) sp w) else collect_owned orgs ps w))"
    using assms owned [THEN trans] by (auto simp: obeys_def)
qed

lemma collect_owned_reader: "obeys R (collect_owned orgs ps)"
  by (induction ps) (auto intro: bind owned_page)

lemma enterprise_reader:
  "conn_organization_ids conn = orgs \<Longrightarrow> obeys R (enterprise_apps_list env conn parent token)"
  "obeys R (enterprise_apps_entitlements r token)"
  "obeys R (enterprise_apps_grants env conn r token)"
proof -
  show "obeys R (enterprise_apps_list env conn parent token)" if "conn_organization_ids conn = orgs"
    unfolding enterprise_apps_list_def that by (auto intro!: effects collect_owned_reader)
  show "obeys R (enterprise_apps_entitlements r token)"
    by (simp add: obeys_def enterprise_apps_entitlements_def refl)
  have o: "obeys R (owner_grants env r b ps)" for r b ps
    using query_get by (auto simp: obeys_def owner_grants_def split: prod.splits option.splits)
  have a: "obeys R (assignment_grants r)" for r
    by (simp add: obeys_def assignment_grants_def refl)
  show "obeys R (enterprise_apps_grants env conn r token)"
    by (auto simp: enterprise_apps_grants_def intro!: effects o a)
qed

lemma principal_loop:
  "obeys R (principal_type_loop env pid data eps :: ('z builders_scheme, string) io)"
proof (induction eps arbitrary: data)
  case (Cons ep eps)
  show ?case
  proof (rule obeysI)
    fix w :: "'z builders_scheme"
    obtain e d w1 where q: "query env graph_read_scopes ''GET'' (build_url (ep @ ''/'' @ pid) []) NoBody
           (Some dec_map) data w = ((e, d), w1)" by (metis prod.collapse)
    have "R w w1" by (rule query_get [OF q])
    then show "R w (snd (principal_type_loop env pid data (ep # eps) w))"
      using q Cons [of d] by (cases e) (auto simp: obeys_def intro: trans split: option.split)
  qed
qed (simp add: obeys_def refl)

lemma principal_type_reader: "obeys R (get_principal_type env pid)"
  by (simp add: get_principal_type_def principal_loop)

lemma assignments_grants: "obeys R (grants_of_assignments env r role_def rv as)"
proof -
  have "obeys R (\<lambda>w. case get_principal_type env pid w of
           (Ok t, w1) \<Rightarrow> (f t, w1) | (Err e, w1) \<Rightarrow> (Ok None, w1)
         | (Panic p, w1) \<Rightarrow> (Panic p, w1) | (Diverged, w1) \<Rightarrow> (Diverged, w1))"
    for pid and f :: "string \<Rightarrow> grant option outcome"
    using obeysD [OF principal_type_reader] by (auto simp: obeys_def split: prod.splits outcome.splits)
  then have "obeys R (grant_of_assignment env r role_def a)" for a
    by (auto simp: grant_of_assignment_def intro!: effects)
  then show ?thesis by (auto simp: grants_of_assignments_def intro!: effects)
qed

end

section \<open>Reading the Resource Manager\<close>

locale arm_reader = step_relation R
  for R :: "'z world_scheme \<Rightarrow> 'z world_scheme \<Rightarrow> bool" +
  assumes page: "R w (log_event (ArmPage l c) w)"
begin

lemma fetch [simp, effects]: "obeys R (arm_fetch l serve c)"
  using page by (simp add: obeys_def arm_fetch_def)

lemma collect: "obeys R (arm_collect env l serve f)"
  by (auto simp: arm_collect_def collect_body_def intro!: effects)

lemma arm_lists:
  "obeys R (subscriptions_list env parent token)" "obeys R (tenants_list env parent token)"
  "obeys R (resource_groups_list env parent token)" "obeys R (roles_list env parent token)"
  "obeys R (role_assignments_list env parent token)"
  by (auto simp: subscriptions_list_def tenants_list_def resource_groups_list_def roles_list_def
      role_assignments_list_def subscription_role_resources_def get_all_roles_def Let_def
      intro!: effects collect)

lemma assignment_id: "obeys R (get_assignment_id env scope s role pid)"
  by (auto simp: get_assignment_id_def intro!: effects)

end

lemma cache_roles_if:
  fixes R :: "'z builders_scheme \<Rightarrow> 'z builders_scheme \<Rightarrow> bool"
  assumes "arm_reader R" and "\<And>u vs. obeys R (cache_page s u vs)"
  shows "obeys R (cache_role_assignments env s)"
proof (rule obeysI)
  fix w
  have st: "step_relation R" using assms(1) by (simp add: arm_reader_def)
  have "obeys R (bind_io (new_arm_client env) (\<lambda>_. pager_loop (env_max_pages env)
      (arm_fetch (ListRoleAssignments s) (env_role_assignments env s)) (cache_page s) (\<lambda>u. u) None ()))"
    by (intro step_relation.bind [OF st] step_relation.client [OF st] step_relation.pager [OF st]
        arm_reader.fetch [OF assms(1)] assms(2))
  then show "R w (snd (cache_role_assignments env s w))"
    unfolding obeys_def cache_role_assignments_def using step_relation.refl [OF st] by simp
qed

locale reader = graph_reader R orgs + arm_reader R
  for R :: "'z builders_scheme \<Rightarrow> 'z builders_scheme \<Rightarrow> bool" and orgs :: "string list" +
  assumes roles: "R w (snd (cache_role_assignments env s w))"
begin

lemma cache_roles: "obeys R (cache_role_assignments env s)"
  using roles by (simp add: obeys_def)

lemma roles_reader:
  "obeys R (roles_grants env r token)"
  "obeys R (role_assignments_grants env r token)"
proof -
  have "obeys R (bind_io (grants_of_assignments env r rd [] as) (\<lambda>rv. return_io (rv, [])))" for rd as
    by (intro effects assignments_grants)
  then have "obeys R (\<lambda>w. let as = (case role_cache_get s w of None \<Rightarrow> [] | Some as \<Rightarrow> as) in
        bind_io (grants_of_assignments env r rd [] as) (\<lambda>rv. return_io (rv, [])) w)" for s rd
    unfolding obeys_def Let_def by blast
  then show "obeys R (roles_grants env r token)"
    unfolding roles_grants_def by (auto intro!: pairs bind cache_roles)
  show "obeys R (role_assignments_grants env r token)"
    by (auto simp: role_assignments_grants_def intro!: effects assignments_grants)
qed

lemma builders_reader:
  "conn_organization_ids conn = orgs \<Longrightarrow> obeys R (builder_list env conn b parent token)" "obeys R (builder_entitlements b r token)"
  "obeys R (builder_grants env conn b r token)"
proof -
  show "obeys R (builder_list env conn b parent token)" if "conn_organization_ids conn = orgs"
    using that by (cases b) (simp_all add: users_reader groups_reader managed_identities_reader
        enterprise_reader arm_lists)
  show "obeys R (builder_entitlements b r token)"
    by (cases b) (simp_all add: users_entitlements_def groups_entitlements_def
        subscriptions_entitlements_def tenants_entitlements_def resource_groups_entitlements_def
        managed_identities_entitlements_def enterprise_reader roles_entitlements_def
        role_assignments_entitlements_def)
  show "obeys R (builder_grants env conn b r token)"
    by (cases b) (simp_all add: users_grants_def groups_reader subscriptions_grants_def
        tenants_grants_def resource_groups_grants_def managed_identities_grants_def
        enterprise_reader roles_reader)
qed

end

section \<open>The events that read\<close>

fun is_read :: "event \<Rightarrow> bool" where
  "is_read (TokenRequest scopes) \<longleftrightarrow> True"
| "is_read (HttpEvent req) \<longleftrightarrow> req_method req = ''GET''"
| "is_read (ArmPage l c) \<longleftrightarrow> True"
| "is_read (ArmCreate s scope n p r) \<longleftrightarrow> False"
| "is_read (ArmDelete s scope n) \<longleftrightarrow> False"

fun graph_event :: "event \<Rightarrow> bool" where
  "graph_event (TokenRequest scopes) \<longleftrightarrow> scopes = graph_read_scopes"
| "graph_event (HttpEvent req) \<longleftrightarrow> True"
| "graph_event _ \<longleftrightarrow> False"

fun arm_page_event :: "event \<Rightarrow> bool" where
  "arm_page_event (ArmPage l c) \<longleftrightarrow> True"
| "arm_page_event _ \<longleftrightarrow> False"

definition grows :: "(event \<Rightarrow> bool) \<Rightarrow> 'z world_scheme \<Rightarrow> 'z world_scheme \<Rightarrow> bool" where
  "grows ok w w' \<longleftrightarrow> (\<exists>es. history w' = history w @ es \<and> list_all ok es)"

lemma grows_refl [simp]: "grows ok w w"
  by (simp add: grows_def)

lemma grows_trans: "grows ok w w1 \<Longrightarrow> grows ok w1 w2 \<Longrightarrow> grows ok w w2"
  by (fastforce simp: grows_def)

lemma grows_steps [simp]:
  "grows ok w (log_events es w) \<longleftrightarrow> list_all ok es" "grows ok w (cache_set req resp w)"
  by (simp_all add: grows_def)

lemma grows_caches [simp]:
  "grows ok w (app_cache_set i sp w2) \<longleftrightarrow> grows ok w w2"
  "grows ok w (role_cache_set s as w2) \<longleftrightarrow> grows ok w w2"
  by (simp_all add: grows_def app_cache_set_def role_cache_set_def)

lemma obeys_new_events: "obeys (grows ok) m \<Longrightarrow> list_all ok (new_events w (snd (m w)))"
  by (auto simp: obeys_def grows_def new_events_def) (metis append_eq_conv_conj)

interpretation arm_only: arm_reader "grows arm_page_event"
  by unfold_locales (auto intro: grows_trans)

interpretation graph_only: graph_reader "grows graph_event" orgs for orgs
  by unfold_locales (auto intro: grows_trans)

interpretation arm_reads: arm_reader "grows is_read"
  by unfold_locales (auto intro: grows_trans)

lemma roles_grow: "grows is_read w (snd (cache_role_assignments env s w))"
proof -
  have "obeys (grows is_read) (cache_page s u vs)" for u vs
    by (simp add: obeys_def cache_page_def Let_def)
  from cache_roles_if [OF arm_reads.arm_reader_axioms this] show ?thesis unfolding obeys_def by blast
qed

interpretation reading: reader "grows is_read" orgs for orgs
  by unfold_locales (auto intro: grows_trans roles_grow)

text \<open>
  C32: syncing never changes anything. Whatever a builder lists, and whatever entitlements
  or grants it computes, all it does to the outside is to ask for tokens, send GET requests
  and read pages of the Resource Manager.
\<close>

theorem syncing_only_reads:
  "list_all is_read (new_events w (snd (builder_list env conn b parent token w))) \<and>
   list_all is_read (new_events w (snd (builder_entitlements b r token w))) \<and>
   list_all is_read (new_events w (snd (builder_grants env conn b r token w)))"
  by (intro conjI obeys_new_events reading.builders_reader(1) [OF HOL.refl] reading.builders_reader(2,3))

text \<open>
  The two services are kept apart. Users, groups, managed identities and enterprise
  applications are read from Graph only, with tokens for Graph's scope; subscriptions,
  tenants, resource groups and roles are listed from the Resource Manager only.
\<close>

theorem services_kept_apart:
  "list_all graph_event (new_events w (snd (users_list env conn parent token w))) \<and>
   list_all graph_event (new_events w (snd (groups_list env conn parent token w))) \<and>
   list_all graph_event (new_events w (snd (groups_grants env conn r token w))) \<and>
   list_all graph_event (new_events w (snd (managed_identities_list env parent token w))) \<and>
   list_all graph_event (new_events w (snd (enterprise_apps_list env conn parent token w))) \<and>
   list_all graph_event (new_events w (snd (enterprise_apps_grants env conn r token w))) \<and>
   list_all arm_page_event (new_events w (snd (subscriptions_list env parent token w))) \<and>
   list_all arm_page_event (new_events w (snd (tenants_list env parent token w))) \<and>
   list_all arm_page_event (new_events w (snd (resource_groups_list env parent token w))) \<and>
   list_all arm_page_event (new_events w (snd (roles_list env parent token w))) \<and>
   list_all arm_page_event (new_events w (snd (role_assignments_list env parent token w)))"
  by (intro conjI obeys_new_events graph_only.users_reader graph_only.groups_reader
      graph_only.managed_identities_reader graph_only.enterprise_reader(1) [OF HOL.refl]
      graph_only.enterprise_reader(2,3) arm_only.arm_lists)

section \<open>The changes of provisioning\<close>

definition changes :: "event list \<Rightarrow> event list" where
  "changes es = filter (\<lambda>e. \<not> is_read e) es"

lemma changes_simps [simp]:
  "changes [] = []" "changes (es @ fs) = changes es @ changes fs"
  "changes (TokenRequest s # es) = changes es" "changes (ArmPage l c # es) = changes es"
  "length (changes [e]) \<le> Suc 0"
  by (simp_all add: changes_def)

lemma changes_reads: "list_all is_read es \<Longrightarrow> changes es = []"
  by (simp add: changes_def list_all_iff)

definition changes_once :: "('z world_scheme, 'a) io \<Rightarrow> bool" where
  "changes_once m \<longleftrightarrow> (\<forall>w. \<exists>es. history (snd (m w)) = history w @ es \<and> length (changes es) \<le> 1)"

lemma changes_onceI:
  "(\<And>w x w'. m w = (x, w') \<Longrightarrow> \<exists>es. history w' = history w @ es \<and> length (changes es) \<le> 1) \<Longrightarrow> changes_once m"
  unfolding changes_once_def by (metis surjective_pairing)

lemma changes_onceD:
  "changes_once m \<Longrightarrow> m w = (x, w') \<Longrightarrow> \<exists>es. history w' = history w @ es \<and> length (changes es) \<le> 1"
  unfolding changes_once_def by (metis snd_conv)

lemma changes_once_new_events: "changes_once m \<Longrightarrow> length (changes (new_events w (snd (m w)))) \<le> 1"
  unfolding changes_once_def new_events_def by (metis append_eq_conv_conj)

lemma changes_once_fail [simp]: "changes_once (fail_io e)"
  by (simp add: changes_once_def fail_io_def)

lemma changes_once_reads: "obeys (grows is_read) m \<Longrightarrow> changes_once m"
  unfolding changes_once_def obeys_def grows_def by (metis changes_reads list.size(3) zero_le)

text \<open>Reading first and changing at most one thing then.\<close>

lemma changes_once_bind:
  assumes "obeys (grows is_read) m" and "\<And>x. changes_once (f x)"
  shows "changes_once (bind_io m f)"
proof (rule changes_onceI)
  fix w x w'
  assume b: "bind_io m f w = (x, w')"
  obtain y w1 where m: "m w = (y, w1)" by fastforce
  obtain es where es: "history w1 = history w @ es" "list_all is_read es"
    using obeysD [OF assms(1) m] by (auto simp: grows_def)
  show "\<exists>es. history w' = history w @ es \<and> length (changes es) \<le> 1"
  proof (cases y)
    case (Ok v)
    with b m have "f v w1 = (x, w')" by (simp add: bind_io_def)
    then obtain fs where "history w' = history w1 @ fs" "length (changes fs) \<le> 1"
      using changes_onceD [OF assms(2)] by blast
    with es show ?thesis by (intro exI [of _ "es @ fs"]) (simp add: changes_reads)
  qed (use b m es in \<open>auto simp: bind_io_def changes_reads intro!: exI [of _ es]\<close>)
qed

lemma query_unit_once:
  "query_unit env m u b w = (x, w') \<Longrightarrow> \<exists>es. history w' = history w @ es \<and> length (changes es) \<le> 1"
proof -
  assume "query_unit env m u b w = (x, w')"
  then obtain r where "query env graph_read_scopes m u b (None :: unit decoder option) () w = ((x, r), w')"
    by (auto simp: query_unit_def split: prod.splits)
  from query_history [OF this] obtain es where
    "history w' = history w @ TokenRequest graph_read_scopes # es" "es = [] \<or> (\<exists>e. es = [e])" by blast
  then show ?thesis by (intro exI [of _ "TokenRequest graph_read_scopes # es"]) auto
qed

lemma graph_provisioning_once:
  "changes_once (groups_grant env p e)" "changes_once (groups_revoke env g)"
  "changes_once (enterprise_apps_grant env p e)" "changes_once (enterprise_apps_revoke env g)"
  by (rule changes_onceI; auto simp: groups_grant_def groups_revoke_def enterprise_apps_grant_def
      enterprise_apps_revoke_def Let_def dest!: query_unit_once split: option.splits prod.splits sum.splits if_splits)+

lemma create_once: "changes_once (create_role_assignment env s scope role pid)"
  unfolding create_role_assignment_def
  by (rule changes_once_bind [OF arm_reads.client], rule changes_onceI)
    (auto simp: create_assignment_def Let_def log_event_def split: prod.splits sum.splits option.splits)

lemma delete_once: "changes_once (delete_role_assignment env s scope role pid)"
proof -
  have "changes_once (bind_io (delete_assignment env s scope n) (\<lambda>a.
      if ra_id a = None then fail_io e else return_io ()))" for n e
    by (rule changes_onceI)
      (auto simp: delete_assignment_def Let_def bind_io_def fail_io_def return_io_def log_event_def
        split: prod.splits outcome.splits if_splits)
  then show ?thesis
    unfolding delete_role_assignment_def
    by (intro changes_once_bind [OF arm_reads.assignment_id] changes_once_bind [OF arm_reads.client]) blast
qed

lemma role_provisioning_once:
  "changes_once (roles_grant env p e)" "changes_once (roles_revoke env g)"
  "changes_once (role_assignments_grant env p e)" "changes_once (role_assignments_revoke env g)"
  by (simp_all add: roles_grant_def roles_revoke_def role_assignments_grant_def
      role_assignments_revoke_def Let_def create_once delete_once changes_once_reads)

lemma provisioner_once:
  "Option.bind b (builder_provisioner env) = Some (give, take_back) \<Longrightarrow>
    changes_once (give p e) \<and> changes_once (take_back g)"
  by (cases b; cases "the b") (auto simp: graph_provisioning_once role_provisioning_once)

lemma served_once:
  assumes "\<And>give take_back. opt = Some (give, take_back) \<Longrightarrow> changes_once (call give take_back)"
  shows "changes_once (\<lambda>w. case opt of None \<Rightarrow> (Err e0, w)
    | Some (give, take_back) \<Rightarrow>
        (case call give take_back w of
           (Err err, w1) \<Rightarrow> (Err (wrap_error t err), w1)
         | r \<Rightarrow> r))"
  by (rule changes_onceI)
    (auto dest!: changes_onceD [OF assms] split: option.splits prod.splits outcome.splits)

text \<open>
  C33: provisioning changes at most one thing. Serving a grant or a revocation makes at
  most one request that is not a read, whatever the entitlement and whatever answers come.
\<close>

theorem provisioning_changes_once:
  "length (changes (new_events w (snd (serve_grant env srv p e w)))) \<le> 1 \<and>
   length (changes (new_events w (snd (serve_revoke env srv g w)))) \<le> 1"
proof (intro conjI changes_once_new_events)
  show "changes_once (serve_grant env srv p e)"
    unfolding serve_grant_def [abs_def] by (rule served_once) (use provisioner_once in blast)
  show "changes_once (serve_revoke env srv g)"
    unfolding serve_revoke_def [abs_def] by (rule served_once) (use provisioner_once in blast)
qed

section \<open>What the caches keep\<close>

text \<open>
  Role assignments that are cached stay as they are, and the applications that enter the
  cache are owned by one of the connector's organizations and stored under their own id.
\<close>

definition caches_grow :: "string list \<Rightarrow> 'z builders_scheme \<Rightarrow> 'z builders_scheme \<Rightarrow> bool" where
  "caches_grow orgs w w' \<longleftrightarrow>
     (\<forall>s as. role_cache w s = Some as \<longrightarrow> role_cache w' s = Some as) \<and>
     (\<forall>i. app_cache w i \<noteq> None \<longrightarrow> app_cache w' i \<noteq> None) \<and>
     (\<forall>i sp. app_cache w' i = Some sp \<longrightarrow>
        app_cache w i = Some sp \<or> spn_id sp = i \<and> spn_app_owner_organization_id sp \<in> set orgs)"

definition one_subscription :: "string \<Rightarrow> 'z builders_scheme \<Rightarrow> 'z builders_scheme \<Rightarrow> bool" where
  "one_subscription s w w' \<longleftrightarrow> app_cache w' = app_cache w \<and> (\<forall>t. t \<noteq> s \<longrightarrow> role_cache w' t = role_cache w t)"

lemma one_subscription_reader:
  "arm_reader (one_subscription s :: 'z builders_scheme \<Rightarrow> 'z builders_scheme \<Rightarrow> bool)"
  by unfold_locales (auto simp: one_subscription_def log_events_def)

lemma caches_unchanged [simp]:
  "app_cache (log_events es w) = app_cache w" "role_cache (log_events es w) = role_cache w"
  "app_cache (cache_set req resp w) = app_cache w" "role_cache (cache_set req resp w) = role_cache w"
  by (simp_all add: log_events_def cache_set_def)

lemma cache_role_assignments_one: "one_subscription s w (snd (cache_role_assignments env s w))"
proof -
  have "obeys (one_subscription s) (cache_page s u vs)" for u vs
    by (simp add: obeys_def cache_page_def role_cache_set_def one_subscription_def Let_def)
  from cache_roles_if [OF one_subscription_reader this] show ?thesis unfolding obeys_def by blast
qed

lemma cache_role_assignments_hit:
  "role_cache w s = Some as \<Longrightarrow> cache_role_assignments env s w = (Ok (), w)"
  by (simp add: cache_role_assignments_def role_cache_get_def)

lemma caches_grow_trans:
  assumes a: "caches_grow orgs w w'" and b: "caches_grow orgs w' w''"
  shows "caches_grow orgs w w''"
  unfolding caches_grow_def
proof (intro conjI allI impI)
  fix s as
  assume "role_cache w s = Some as"
  with a b show "role_cache w'' s = Some as" by (simp add: caches_grow_def)
next
  fix i
  assume "app_cache w i \<noteq> None"
  with a have "app_cache w' i \<noteq> None" unfolding caches_grow_def by blast
  with b show "app_cache w'' i \<noteq> None" unfolding caches_grow_def by blast
next
  fix i sp
  assume "app_cache w'' i = Some sp"
  with b have "app_cache w' i = Some sp \<or> spn_id sp = i \<and> spn_app_owner_organization_id sp \<in> set orgs"
    unfolding caches_grow_def by blast
  with a show "app_cache w i = Some sp \<or> spn_id sp = i \<and> spn_app_owner_organization_id sp \<in> set orgs"
    unfolding caches_grow_def by blast
qed

interpretation keeping: reader "caches_grow orgs" orgs for orgs
proof
  fix w :: "'z builders_scheme" and env s
  show "caches_grow orgs w (snd (cache_role_assignments env s w))"
  proof (cases "role_cache w s")
    case None
    then show ?thesis
      using cache_role_assignments_one [of s w env]
      unfolding caches_grow_def one_subscription_def by (metis option.distinct(1))
  next
    case (Some as)
    then show ?thesis by (simp add: cache_role_assignments_hit caches_grow_def)
  qed
qed ((erule (1) caches_grow_trans | auto simp: caches_grow_def app_cache_set_def split: if_splits; fail)+)

text \<open>
  The caches only grow, and only by what belongs in them. No operation that syncs
  replaces or drops the cached role assignments of a subscription, or drops an application;
  and every application that enters the cache is stored under its own id and owned by one
  of the organizations of the connector.
\<close>

theorem syncing_grows_caches:
  "caches_grow (conn_organization_ids conn) w (snd (builder_list env conn b parent token w)) \<and>
   caches_grow (conn_organization_ids conn) w (snd (builder_entitlements b r token w)) \<and>
   caches_grow (conn_organization_ids conn) w (snd (builder_grants env conn b r token w))"
  using keeping.builders_reader(1) [OF HOL.refl] keeping.builders_reader(2,3)
  unfolding obeys_def by blast

end
