(* ===== verification/Role_Provisioning.thy ===== *)
theory Role_Provisioning
  imports Effects Resource_Laws
begin

text \<open>
  Roles and the role assignments of resource groups: the ids their resources carry, what
  \<open>Grant\<close> creates and \<open>Revoke\<close> deletes, which grants a role has, and what the two builders
  list. The two builders share the end of \<open>Grant\<close> and \<open>Revoke\<close>; the interface of a role
  provisioner is what they have in common, a target read off the id of the resource.
\<close>

section \<open>Ids\<close>

text \<open>The subscriptions and the names of roles and groups have neither slashes nor colons.\<close>

definition plain_name :: "string \<Rightarrow> bool" where
  "plain_name s \<longleftrightarrow> CHR ''/'' \<notin> set s \<and> CHR '':'' \<notin> set s"

lemma role_definition_pieces:
  "plain_name s \<Longrightarrow> plain_name n \<Longrightarrow> split_at (CHR ''/'') (role_definition_id s n) =
    [[], ''subscriptions'', s, ''providers'', ''Microsoft.Authorization'', ''roleDefinitions'', n]"
  using split_at_join [of "[[], ''subscriptions'', s, ''providers'', ''Microsoft.Authorization'', ''roleDefinitions'', n]" "CHR ''/''"]
  by (simp add: role_definition_id_def plain_name_def)

lemma split_two: "plain_name a \<Longrightarrow> plain_name b \<Longrightarrow> split_at (CHR '':'') (a @ '':'' @ b) = [a, b]"
  by (simp add: plain_name_def split_at_append split_at_no_sep)

lemma split_three:
  "plain_name a \<Longrightarrow> plain_name b \<Longrightarrow> plain_name c \<Longrightarrow>
    split_at (CHR '':'') (a @ '':'' @ b @ '':'' @ c) = [a, b, c]"
  by (simp add: plain_name_def split_at_append split_at_no_sep)

lemma get_role_id_of_definition:
  assumes "plain_name s" and "plain_name n"
  shows "get_role_id (Some (role_definition_id s n)) = Ok (n @ '':'' @ s)"
proof -
  have "CHR ''/'' \<in> set (role_definition_id s n)" by (simp add: role_definition_id_def)
  with assms show ?thesis
    by (simp add: get_role_id_def string_value_def str_contains_char role_definition_pieces)
qed

text \<open>
  C35: the id of a role's resource keeps what is needed to name the role again. From the id
  of a role definition of a subscription \<open>getRoleId\<close> makes the id of a resource from which
  \<open>Grants\<close> reads back the subscription and the role, and with them the very definition id
  that the assignments are compared with. The same holds for the resources of pairs of a
  resource group and a role.
\<close>

theorem role_id_round_trip:
  assumes "plain_name s" and "plain_name n" and "plain_name g"
  shows "\<exists>i. get_role_id (Some (role_definition_id s n)) = Ok i \<and>
    role_key (bare_resource \<lparr>rid_type = t, rid_resource = i\<rparr>) = (s, n) \<and>
    group_role_key (bare_resource \<lparr>rid_type = t, rid_resource = get_resource_group_id g s n\<rparr>) = (s, g, n)"
proof (intro exI conjI)
  show "get_role_id (Some (role_definition_id s n)) = Ok (n @ '':'' @ s)"
    by (rule get_role_id_of_definition [OF assms(1,2)])
  show "role_key (bare_resource \<lparr>rid_type = t, rid_resource = n @ '':'' @ s\<rparr>) = (s, n)"
    using split_two [OF assms(2,1)] by (simp add: role_key_def bare_resource_def)
  show "group_role_key (bare_resource \<lparr>rid_type = t, rid_resource = get_resource_group_id g s n\<rparr>) = (s, g, n)"
    using split_three [OF assms(3,1,2)]
    by (simp add: group_role_key_def get_resource_group_id_def bare_resource_def)
qed

theorem role_id_round_trip_witness:
  "\<exists>i. get_role_id (Some (role_definition_id ''s1'' ''r1'')) = Ok i \<and>
    role_key (bare_resource \<lparr>rid_type = ''role'', rid_resource = i\<rparr>) = (''s1'', ''r1'') \<and>
    group_role_key (bare_resource \<lparr>rid_type = ''role'', rid_resource = get_resource_group_id ''g1'' ''s1'' ''r1''\<rparr>)
      = (''s1'', ''g1'', ''r1'')"
  by (rule role_id_round_trip) (simp_all add: plain_name_def)

text \<open>
  \<open>getRoleId\<close> on any id. Without a slash it gives the empty id; with exactly one slash it
  panics, for it reads the third piece of the id; otherwise it joins the last piece and the
  third.
\<close>

theorem role_id_panics_on_one_slash:
  "get_role_id (Some i) =
    (if CHR ''/'' \<notin> set i then Ok []
     else if count_list i (CHR ''/'') = 1 then Panic IndexOutOfRange
     else Ok (last (split_at (CHR ''/'') i) @ '':'' @ split_at (CHR ''/'') i ! 2))"
proof -
  have "count_list i (CHR ''/'') = 0 \<longleftrightarrow> CHR ''/'' \<notin> set i" by (simp add: count_list_0_iff)
  then show ?thesis
    by (auto simp: get_role_id_def string_value_def str_contains_char length_split_at Let_def)
qed

section \<open>Searching the assignments\<close>

definition assigns :: "string \<Rightarrow> string \<Rightarrow> role_assignment \<Rightarrow> bool" where
  "assigns pid rd a \<longleftrightarrow> assignment_principal a = Ok pid \<and> assignment_role a = Ok rd"

text \<open>An assignment with the fields the code dereferences.\<close>

definition formed :: "role_assignment \<Rightarrow> bool" where
  "formed a \<longleftrightarrow> is_Ok (assignment_principal a) \<and> is_Ok (assignment_role a) \<and> ra_name a \<noteq> None"

lemma is_Ok_iff: "is_Ok m \<longleftrightarrow> (\<exists>x. m = Ok x)"
  by (cases m) auto

lemma find_assignment_formed:
  "\<forall>a\<in>set as. formed a \<Longrightarrow> find_assignment pid rd as =
    Ok (map_option (\<lambda>a. the (ra_name a)) (find (assigns pid rd) as))"
proof (induction as)
  case (Cons a as)
  then obtain p r n where "assignment_principal a = Ok p" "assignment_role a = Ok r" "ra_name a = Some n"
    by (auto simp: formed_def is_Ok_iff)
  with Cons show ?case by (simp add: assigns_def)
qed simp

lemma find_append: "find P (xs @ ys) = (case find P xs of None \<Rightarrow> find P ys | Some x \<Rightarrow> Some x)"
  by (induction xs) auto

abbreviation search_body ::
  "string \<Rightarrow> string \<Rightarrow> unit \<Rightarrow> role_assignment list \<Rightarrow> ('w, (unit, string option) flow) io" where
  "search_body pid rd \<equiv> (\<lambda>_ as. lift_io (bind_outcome (find_assignment pid rd as) (\<lambda>r.
     Ok (case r of None \<Rightarrow> Continue () | Some n \<Rightarrow> Return (Some n)))))"

lemma search_pages:
  assumes "serves_from f cur ps" and "length ps \<le> n"
    and "\<forall>a\<in>set (concat (map page_value ps)). formed a"
  shows "\<exists>es. list_all is_read es \<and>
    pager_loop n (arm_fetch l f) (search_body pid rd) (\<lambda>_. None) cur () w =
      (Ok (map_option (\<lambda>a. the (ra_name a)) (find (assigns pid rd) (concat (map page_value ps)))),
       log_events es w)"
  using assms
proof (induction ps arbitrary: n cur w)
  case (Cons p ps)
  then obtain m where n: "n = Suc m" by (cases n) auto
  have served: "\<forall>h. f h cur = Inr p" and more: "page_more p \<longleftrightarrow> ps \<noteq> []"
    using Cons.prems(1) by (cases ps; simp)+
  have found: "find_assignment pid rd (page_value p) =
      Ok (map_option (\<lambda>a. the (ra_name a)) (find (assigns pid rd) (page_value p)))"
    using Cons.prems(3) by (intro find_assignment_formed) auto
  let ?w = "log_events [ArmPage l cur] w"
  have step: "pager_loop n (arm_fetch l f) (search_body pid rd) (\<lambda>_. None) cur () w =
      (case find (assigns pid rd) (page_value p) of
         Some a \<Rightarrow> (Ok (Some (the (ra_name a))), ?w)
       | None \<Rightarrow>
           if page_more p
           then pager_loop m (arm_fetch l f) (search_body pid rd) (\<lambda>_. None) (page_next p) () ?w
           else (Ok None, ?w))"
    by (simp add: n bind_io_def arm_fetch_def served lift_io_def found return_io_def
        split: option.split)
  show ?case
  proof (cases "find (assigns pid rd) (page_value p)")
    case (Some a)
    then show ?thesis by (intro exI [of _ "[ArmPage l cur]"]) (simp add: step find_append)
  next
    case none: None
    show ?thesis
    proof (cases ps)
      case Nil
      with none more show ?thesis by (intro exI [of _ "[ArmPage l cur]"]) (simp add: step)
    next
      case (Cons q qs)
      with Cons.prems(1) have "serves_from f (page_next p) ps" by simp
      then obtain es where "list_all is_read es"
        "pager_loop m (arm_fetch l f) (search_body pid rd) (\<lambda>_. None) (page_next p) () ?w =
          (Ok (map_option (\<lambda>a. the (ra_name a)) (find (assigns pid rd) (concat (map page_value ps)))),
           log_events es ?w)"
        using Cons.IH [of "page_next p" m ?w] Cons.prems(2,3) n by auto
      with none more Cons show ?thesis
        by (intro exI [of _ "ArmPage l cur # es"]) (simp add: step find_append)
    qed
  qed
qed simp

definition deletion :: "env \<Rightarrow> history \<Rightarrow> event \<Rightarrow> string \<Rightarrow> string \<Rightarrow> unit outcome" where
  "deletion env h ev role scope =
     (case env_delete_assignment env h ev of
        Inl e \<Rightarrow> Err e
      | Inr d \<Rightarrow>
          if ra_id d = None
          then Err (ErrText (''failed to revoke role assignment '' @ role @ '' scope: '' @ scope))
          else Ok ())"

lemma delete_found:
  assumes "serves_from (env_assignments_for_scope env s scope) None ps" and "length ps \<le> env_max_pages env"
    and "\<forall>a\<in>set (concat (map page_value ps)). formed a" and "env_arm_client env = None"
  shows "\<exists>es. list_all is_read es \<and> delete_role_assignment env s scope role pid w =
    (case find (assigns pid (role_definition_id s role)) (concat (map page_value ps)) of
       None \<Rightarrow> (Err assignment_not_found, log_events es w)
     | Some a \<Rightarrow>
         (deletion env (history w @ es) (ArmDelete s scope (the (ra_name a))) role scope,
          log_events (es @ [ArmDelete s scope (the (ra_name a))]) w))"
proof -
  obtain es where es: "list_all is_read es" and
    loop: "pager_loop (env_max_pages env)
        (arm_fetch (ListAssignmentsForScope s scope) (env_assignments_for_scope env s scope))
        (search_body pid (role_definition_id s role)) (\<lambda>_. None) None () w =
      (Ok (map_option (\<lambda>a. the (ra_name a))
        (find (assigns pid (role_definition_id s role)) (concat (map page_value ps)))), log_events es w)"
    using search_pages [OF assms(1-3)] by blast
  show ?thesis
  proof (intro exI conjI)
    show "delete_role_assignment env s scope role pid w =
    (case find (assigns pid (role_definition_id s role)) (concat (map page_value ps)) of
       None \<Rightarrow> (Err assignment_not_found, log_events es w)
     | Some a \<Rightarrow>
         (deletion env (history w @ es) (ArmDelete s scope (the (ra_name a))) role scope,
          log_events (es @ [ArmDelete s scope (the (ra_name a))]) w))"
      using assms(4) loop
      by (simp add: delete_role_assignment_def get_assignment_id_def new_arm_client_def bind_io_def
          return_io_def fail_io_def delete_assignment_def deletion_def Let_def
          split: option.split sum.split)
  qed (rule es)
qed

section \<open>The interface of a role provisioner\<close>

text \<open>
  A provisioner of roles reads a target off the id of the entitlement's resource: the
  subscription, the scope and the role; without one, or for a principal that is no user, it
  refuses.
\<close>

locale role_provisioner =
  fixes give :: "env \<Rightarrow> resource \<Rightarrow> entitlement \<Rightarrow> ('z world_scheme, unit) io"
    and take_back :: "env \<Rightarrow> grant \<Rightarrow> ('z world_scheme, unit) io"
    and target :: "string \<Rightarrow> (string \<times> string \<times> string) option"
  assumes give_target: "give env p e =
      (if rid_type (res_id p) \<noteq> ''user'' then fail_io grant_users_only
       else case target (rid_resource (res_id (ent_resource e))) of
         None \<Rightarrow> fail_io invalid_role_id
       | Some (s, scope, role) \<Rightarrow> create_role_assignment env s scope role (rid_resource (res_id p)))"
    and take_back_target: "take_back env g =
      (if rid_type (res_id (grant_principal g)) \<noteq> ''user'' then fail_io revoke_users_only
       else case target (rid_resource (res_id (ent_resource (grant_entitlement g)))) of
         None \<Rightarrow> fail_io invalid_role_id
       | Some (s, scope, role) \<Rightarrow>
           delete_role_assignment env s scope role (rid_resource (res_id (grant_principal g))))"
begin

lemma refuses:
  assumes "rid_type (res_id p) \<noteq> ''user'' \<or> target (rid_resource (res_id (ent_resource e))) = None"
  shows "\<exists>err. give env p e w = (Err err, w)"
  using assms by (auto simp: give_target fail_io_def)

lemma refuses_back:
  assumes "rid_type (res_id (grant_principal g)) \<noteq> ''user'' \<or>
    target (rid_resource (res_id (ent_resource (grant_entitlement g)))) = None"
  shows "\<exists>err. take_back env g w = (Err err, w)"
  using assms by (auto simp: take_back_target fail_io_def)

text \<open>A grant is one creation, and its result is read off the answer.\<close>

lemma creates:
  assumes "rid_type (res_id p) = ''user''" and "env_arm_client env = None"
    and "target (rid_resource (res_id (ent_resource e))) = Some (s, scope, role)"
    and "ev = ArmCreate s scope (env_uuid env (history w)) (rid_resource (res_id p)) (role_definition_id s role)"
  shows "give env p e w =
    (case env_create_assignment env (history w) ev of
       Inl err \<Rightarrow> (if as_response_error err = None then Err err else Ok ())
     | Inr a \<Rightarrow> log_created a, log_event ev w)"
  using assms
  by (simp add: give_target create_role_assignment_def new_arm_client_def create_assignment_def
      Let_def split: sum.split option.split)

text \<open>A revocation reads, and then deletes the first assignment that matches, if any.\<close>

lemma deletes:
  assumes "rid_type (res_id (grant_principal g)) = ''user''" and "env_arm_client env = None"
    and "target (rid_resource (res_id (ent_resource (grant_entitlement g)))) = Some (s, scope, role)"
    and "serves_from (env_assignments_for_scope env s scope) None ps" and "length ps \<le> env_max_pages env"
    and "\<forall>a\<in>set (concat (map page_value ps)). formed a"
    and "pid = rid_resource (res_id (grant_principal g))"
  shows "\<exists>es. list_all is_read es \<and> take_back env g w =
    (case find (assigns pid (role_definition_id s role)) (concat (map page_value ps)) of
       None \<Rightarrow> (Err assignment_not_found, log_events es w)
     | Some a \<Rightarrow>
         (deletion env (history w @ es) (ArmDelete s scope (the (ra_name a))) role scope,
          log_events (es @ [ArmDelete s scope (the (ra_name a))]) w))"
  using delete_found [OF assms(4,5,6,2)] assms(1,3,7) by (simp add: take_back_target)

end

definition role_target :: "string \<Rightarrow> (string \<times> string \<times> string) option" where
  "role_target i =
     (case split_at (CHR '':'') i of
        [role, s] \<Rightarrow> Some (s, subscription_scope s, role)
      | _ \<Rightarrow> None)"

definition group_role_target :: "string \<Rightarrow> (string \<times> string \<times> string) option" where
  "group_role_target i =
     (case split_at (CHR '':'') i of
        [g, s, role] \<Rightarrow> Some (s, resource_group_scope s g, role)
      | _ \<Rightarrow> None)"

lemma colon_split: "CHR '':'' \<notin> set i \<Longrightarrow> length (split_at (CHR '':'') i) = 1"
  by (simp add: split_at_no_sep)

lemma role_target_eq:
  "role_target i =
    (let ids = split_at (CHR '':'') i in
     if length ids \<noteq> 2 then None else Some (ids ! 1, subscription_scope (ids ! 1), ids ! 0))"
  by (auto simp: role_target_def Let_def length_Suc_conv numeral_2_eq_2 split: list.splits)

lemma group_role_target_eq:
  "group_role_target i =
    (let ids = split_at (CHR '':'') i in
     if length ids \<noteq> 3 then None
     else Some (ids ! 1, resource_group_scope (ids ! 1) (ids ! 0), ids ! 2))"
  by (auto simp: group_role_target_def Let_def length_Suc_conv numeral_3_eq_3 split: list.splits)

interpretation roles: role_provisioner roles_grant roles_revoke role_target
  by unfold_locales
    (auto simp: roles_grant_def roles_revoke_def role_target_eq Let_def str_contains_char
      user_resource_type_def colon_split)

interpretation group_roles: role_provisioner role_assignments_grant role_assignments_revoke group_role_target
  by unfold_locales
    (auto simp: role_assignments_grant_def role_assignments_revoke_def group_role_target_eq Let_def
      str_contains_char user_resource_type_def colon_split)

section \<open>Refusals\<close>

lemma role_target_None: "count_list i (CHR '':'') \<noteq> 1 \<Longrightarrow> role_target i = None"
  by (simp add: role_target_eq Let_def length_split_at)

lemma group_role_target_None: "count_list i (CHR '':'') \<noteq> 2 \<Longrightarrow> group_role_target i = None"
  by (simp add: group_role_target_eq Let_def length_split_at)

lemma both_refuse:
  "\<exists>e. x = (Err e, w) \<Longrightarrow> \<exists>e. y = (Err e, w) \<Longrightarrow> \<exists>e1 e2. x = (Err e1, w) \<and> y = (Err e2, w)"
  by blast

text \<open>
  A principal that is no user, and an entitlement whose resource has an id that is not
  a role and a subscription (for resource groups, a group, a subscription and a role) joined
  by colons, are refused by \<open>Grant\<close> and \<open>Revoke\<close> with an error, before anything is asked of
  the Resource Manager.
\<close>

theorem role_provisioning_refuses:
  assumes "p = grant_principal g" and "e = grant_entitlement g"
    and "colons = count_list (rid_resource (res_id (ent_resource e))) (CHR '':'')"
  shows "(rid_type (res_id p) \<noteq> ''user'' \<or> colons \<noteq> 1 \<longrightarrow>
      (\<exists>e1 e2. roles_grant env p e w = (Err e1, w) \<and> roles_revoke env g w = (Err e2, w))) \<and>
    (rid_type (res_id p) \<noteq> ''user'' \<or> colons \<noteq> 2 \<longrightarrow>
      (\<exists>e1 e2. role_assignments_grant env p e w = (Err e1, w) \<and> role_assignments_revoke env g w = (Err e2, w)))"
proof (intro conjI impI)
  assume "rid_type (res_id p) \<noteq> ''user'' \<or> colons \<noteq> 1"
  then have t: "rid_type (res_id p) \<noteq> ''user'' \<or> role_target (rid_resource (res_id (ent_resource e))) = None"
    unfolding assms(3) by (elim disjE) (simp_all add: role_target_None)
  show "\<exists>e1 e2. roles_grant env p e w = (Err e1, w) \<and> roles_revoke env g w = (Err e2, w)"
    by (rule both_refuse [OF roles.refuses [OF t] roles.refuses_back [OF t [unfolded assms(1,2)]]])
next
  assume "rid_type (res_id p) \<noteq> ''user'' \<or> colons \<noteq> 2"
  then have t: "rid_type (res_id p) \<noteq> ''user'' \<or> group_role_target (rid_resource (res_id (ent_resource e))) = None"
    unfolding assms(3) by (elim disjE) (simp_all add: group_role_target_None)
  show "\<exists>e1 e2. role_assignments_grant env p e w = (Err e1, w) \<and> role_assignments_revoke env g w = (Err e2, w)"
    by (rule both_refuse [OF group_roles.refuses [OF t] group_roles.refuses_back [OF t [unfolded assms(1,2)]]])
qed

definition some_principal :: "string \<Rightarrow> resource" where
  "some_principal t = bare_resource \<lparr>rid_type = t, rid_resource = ''p1''\<rparr>"

definition role_grant_at :: "string \<Rightarrow> string \<Rightarrow> grant" where
  "role_grant_at t i =
     \<lparr>grant_id = [], grant_entitlement = bare_entitlement [] (bare_resource \<lparr>rid_type = ''role'', rid_resource = i\<rparr>),
      grant_principal = some_principal t, grant_annotations = []\<rparr>"

theorem role_provisioning_refuses_witness:
  "let g = role_grant_at ''user'' ''r1''; p = grant_principal g; e = grant_entitlement g; w = start_world in
   (\<exists>e1 e2. roles_grant arm_env p e w = (Err e1, w) \<and> roles_revoke arm_env g w = (Err e2, w)) \<and>
   (\<exists>e1 e2. role_assignments_grant arm_env p e w = (Err e1, w) \<and>
      role_assignments_revoke arm_env g w = (Err e2, w))"
proof -
  have "0 = count_list (rid_resource (res_id (ent_resource (grant_entitlement (role_grant_at ''user'' ''r1''))))) (CHR '':'')"
    by (simp add: role_grant_at_def bare_entitlement_def bare_resource_def)
  note r = role_provisioning_refuses [OF HOL.refl HOL.refl this, of arm_env start_world]
  show ?thesis
    unfolding Let_def
    by (intro conjI mp [OF conjunct1 [OF r]] mp [OF conjunct2 [OF r]] disjI2) simp_all
qed

section \<open>What a grant creates\<close>

lemma role_resource_res_id:
  assumes "role_resource d parent = Ok r" and "rd_id d = Some (role_definition_id s n)"
    and "plain_name s" and "plain_name n"
  shows "rid_resource (res_id r) = n @ '':'' @ s"
proof -
  obtain ps where "new_role_resource (string_value (rp_role_name ps)) role_resource_type (n @ '':'' @ s)
       [with_role_profile (role_profile (n @ '':'' @ s) d ps)]
       [with_role_trait [with_role_profile (role_profile (n @ '':'' @ s) d ps)], with_parent_resource_id parent] = Ok r"
    using assms(1,2) get_role_id_of_definition [OF assms(3,4)] by (auto simp: role_resource_def)
  then show ?thesis
    unfolding new_resources by (drule_tac new_resource_res_id) (simp_all add: new_resource_id_def)
qed

lemma group_role_resource_res_id:
  assumes "role_assignment_resource_group_resource s n rg parent = Ok r"
  shows "rid_resource (res_id r) = string_value (rg_name rg) @ '':'' @ s @ '':'' @ n"
  using new_resource_res_id [OF assms [unfolded role_assignment_resource_group_resource_def]]
  by (simp add: new_resource_id_def get_resource_group_id_def)

text \<open>
  C11: granting an entitlement of a listed role creates one assignment, with a fresh name,
  of that very role definition to the user, at the scope of the subscription the role was
  listed in; the result is read off the service's answer.
\<close>

theorem role_grant_creates_assignment:
  assumes "role_resource d parent = Ok r" and "rd_id d = Some (role_definition_id s n)"
    and "plain_name s" and "plain_name n"
    and "roles_entitlements r t w0 = (Ok (es, t'), w1)" and "e \<in> set es"
    and "rid_type (res_id p) = ''user''" and "env_arm_client env = None"
    and "ev = ArmCreate s (''/subscriptions/'' @ s) (env_uuid env (history w)) (rid_resource (res_id p)) (the (rd_id d))"
  shows "roles_grant env p e w =
    (case env_create_assignment env (history w) ev of
       Inl err \<Rightarrow> (if as_response_error err = None then Err err else Ok ())
     | Inr a \<Rightarrow> log_created a, log_event ev w)"
proof -
  have "ent_resource e = r"
    using assms(5,6) by (auto simp: roles_entitlements_def return_io_def
        new_permission_entitlement_def new_assignment_entitlement_def)
  then have "role_target (rid_resource (res_id (ent_resource e))) = Some (s, ''/subscriptions/'' @ s, n)"
    using role_resource_res_id [OF assms(1-4)] split_two [OF assms(4,3)]
    by (simp add: role_target_def subscription_scope_def)
  then show ?thesis by (rule roles.creates [OF assms(7,8)]) (simp add: assms(2,9))
qed

definition demo_definition :: role_definition where
  "demo_definition = \<lparr>rd_id = Some (role_definition_id ''s1'' ''r1''), rd_name = Some ''r1'',
     rd_properties = Some \<lparr>rp_role_name = Some ''Reader'', rp_description = None, rp_role_type = None\<rparr>\<rparr>"

lemma some_roles_entitlement:
  "\<exists>es e. roles_entitlements r [] w = (Ok (es, []), w) \<and> e \<in> set es \<and> ent_resource e = r"
  unfolding roles_entitlements_def return_io_def new_permission_entitlement_def
  by (intro exI conjI, rule HOL.refl, rule list.set_intros(1), rule entitlement.select_convs(2))

lemma some_role_assignments_entitlement:
  "\<exists>es e. role_assignments_entitlements r [] w = (Ok (es, []), w) \<and> e \<in> set es \<and> ent_resource e = r"
  unfolding role_assignments_entitlements_def return_io_def new_permission_entitlement_def
  by (intro exI conjI, rule HOL.refl, rule list.set_intros(1), rule entitlement.select_convs(2))

theorem role_grant_creates_assignment_witness:
  "\<exists>r e ev. role_resource demo_definition None = Ok r \<and> ent_resource e = r \<and>
    ev = ArmCreate ''s1'' ''/subscriptions/s1'' ''uuid'' ''p1'' (role_definition_id ''s1'' ''r1'') \<and>
    roles_grant arm_env (some_principal ''user'') e start_world =
      (Err (ErrText ''not served''), log_event ev start_world)"
proof -
  obtain r where r: "role_resource demo_definition None = Ok r"
  proof -
    have "is_Ok (role_resource demo_definition None)" by code_simp
    then show ?thesis unfolding is_Ok_iff by (elim exE) (rule that)
  qed
  obtain es e where es: "roles_entitlements r [] start_world = (Ok (es, []), start_world)" "e \<in> set es"
      "ent_resource e = r"
    using some_roles_entitlement [of r start_world] by (elim exE conjE) (rule that)
  have "roles_grant arm_env (some_principal ''user'') e start_world =
      (Err (ErrText ''not served''),
       log_event (ArmCreate ''s1'' (''/subscriptions/'' @ ''s1'') ''uuid'' ''p1'' (role_definition_id ''s1'' ''r1'')) start_world)"
    using role_grant_creates_assignment [OF r _ _ _ es(1,2), of "''s1''" "''r1''" "some_principal ''user''" arm_env _ start_world]
    by (simp add: demo_definition_def plain_name_def some_principal_def bare_resource_def arm_env_def quiet_env_def)
  with r es(3) show ?thesis by (intro exI conjI) simp_all
qed

text \<open>
  Granting an entitlement of a resource group and a role creates one assignment of the
  role to the user at the scope of that resource group.
\<close>

theorem group_role_grant_creates_assignment:
  assumes "role_assignment_resource_group_resource s n rg parent = Ok r" and "rg_name rg = Some g"
    and "plain_name g" and "plain_name s" and "plain_name n"
    and "role_assignments_entitlements r t w0 = (Ok (es, t'), w1)" and "e \<in> set es"
    and "rid_type (res_id p) = ''user''" and "env_arm_client env = None"
    and "ev = ArmCreate s (''/subscriptions/'' @ s @ ''/resourceGroups/'' @ g) (env_uuid env (history w))
      (rid_resource (res_id p)) (role_definition_id s n)"
  shows "role_assignments_grant env p e w =
    (case env_create_assignment env (history w) ev of
       Inl err \<Rightarrow> (if as_response_error err = None then Err err else Ok ())
     | Inr a \<Rightarrow> log_created a, log_event ev w)"
proof -
  have "ent_resource e = r"
    using assms(6,7) by (auto simp: role_assignments_entitlements_def return_io_def
        new_permission_entitlement_def new_assignment_entitlement_def)
  then have "group_role_target (rid_resource (res_id (ent_resource e))) =
      Some (s, ''/subscriptions/'' @ s @ ''/resourceGroups/'' @ g, n)"
    using group_role_resource_res_id [OF assms(1)] assms(2) split_three [OF assms(3,4,5)]
    by (simp add: group_role_target_def resource_group_scope_def string_value_def)
  then show ?thesis by (rule group_roles.creates [OF assms(8,9)]) (simp add: assms(10))
qed

theorem group_role_grant_creates_assignment_witness:
  "\<exists>r e ev. role_assignment_resource_group_resource ''s1'' ''r1'' demo_resource_group None = Ok r \<and>
    ent_resource e = r \<and>
    ev = ArmCreate ''s1'' ''/subscriptions/s1/resourceGroups/g1'' ''uuid'' ''p1'' (role_definition_id ''s1'' ''r1'') \<and>
    role_assignments_grant arm_env (some_principal ''user'') e start_world =
      (Err (ErrText ''not served''), log_event ev start_world)"
proof -
  obtain r where r: "role_assignment_resource_group_resource ''s1'' ''r1'' demo_resource_group None = Ok r"
  proof -
    have "is_Ok (role_assignment_resource_group_resource ''s1'' ''r1'' demo_resource_group None)" by code_simp
    then show ?thesis unfolding is_Ok_iff by (elim exE) (rule that)
  qed
  obtain es e where es: "role_assignments_entitlements r [] start_world = (Ok (es, []), start_world)"
      "e \<in> set es" "ent_resource e = r"
    using some_role_assignments_entitlement [of r start_world] by (elim exE conjE) (rule that)
  have "role_assignments_grant arm_env (some_principal ''user'') e start_world =
      (Err (ErrText ''not served''),
       log_event (ArmCreate ''s1'' (''/subscriptions/'' @ ''s1'' @ ''/resourceGroups/'' @ ''g1'') ''uuid'' ''p1''
         (role_definition_id ''s1'' ''r1'')) start_world)"
    using group_role_grant_creates_assignment [OF r _ _ _ _ es(1,2), of "''g1''" "some_principal ''user''" arm_env _ start_world]
    by (simp add: demo_resource_group_def plain_name_def some_principal_def bare_resource_def arm_env_def quiet_env_def)
  with r es(3) show ?thesis by (intro exI conjI) simp_all
qed

section \<open>What a refusal and a revocation do\<close>

text \<open>
  C25: a role assignment that the Resource Manager refuses is reported as granted. Any
  \<open>ResponseError\<close>, whatever its status, leaves the switch of \<open>Grant\<close> and the method returns
  without an error, though nothing was created.
\<close>

theorem refused_role_grant_succeeds:
  assumes "rid_type (res_id p) = ''user''" and "env_arm_client env = None"
    and "\<And>h ev. env_create_assignment env h ev = Inl (ErrResponse code reason)"
    and "count_list (rid_resource (res_id (ent_resource e))) (CHR '':'') = 1"
    and "count_list (rid_resource (res_id (ent_resource e'))) (CHR '':'') = 2"
  shows "fst (roles_grant env p e w) = Ok () \<and> fst (role_assignments_grant env p e' w) = Ok ()"
proof -
  obtain s scope n where t: "role_target (rid_resource (res_id (ent_resource e))) = Some (s, scope, n)"
    using assms(4) by (simp add: role_target_eq Let_def length_split_at)
  obtain s' scope' n' where t': "group_role_target (rid_resource (res_id (ent_resource e'))) = Some (s', scope', n')"
    using assms(5) by (simp add: group_role_target_eq Let_def length_split_at)
  show ?thesis
    using roles.creates [OF assms(1,2) t HOL.refl, of w] group_roles.creates [OF assms(1,2) t' HOL.refl, of w]
      assms(3) by simp
qed

definition role_entitlement_at :: "string \<Rightarrow> entitlement" where
  "role_entitlement_at i = bare_entitlement [] (bare_resource \<lparr>rid_type = ''role'', rid_resource = i\<rparr>)"

definition refusing_env :: env where
  "refusing_env = arm_env\<lparr>env_create_assignment := \<lambda>_ _. Inl (ErrResponse 403 ''forbidden'')\<rparr>"

theorem refused_role_grant_succeeds_witness:
  "fst (roles_grant refusing_env (some_principal ''user'') (role_entitlement_at ''r1:s1'') start_world) = Ok () \<and>
   fst (role_assignments_grant refusing_env (some_principal ''user'') (role_entitlement_at ''g1:s1:r1'') start_world) = Ok ()"
  by (rule refused_role_grant_succeeds [where code = 403 and reason = "''forbidden''"])
    (simp_all add: refusing_env_def arm_env_def quiet_env_def some_principal_def role_entitlement_at_def
      bare_entitlement_def bare_resource_def)

text \<open>
  C12: a revocation deletes what it was asked for and nothing else. Over the pages of
  assignments that the service serves for the scope, \<open>Revoke\<close> of a role's grant finds the
  first assignment of the role's definition to the user, whatever page it is on, and all it
  changes is to delete that assignment; when there is none it changes nothing and reports
  that it was not found.
\<close>

theorem role_revoke_deletes_first_match:
  assumes "rid_type (res_id (grant_principal g)) = ''user''" and "env_arm_client env = None"
    and "rid_resource (res_id (ent_resource (grant_entitlement g))) = n @ '':'' @ s"
    and "plain_name n" and "plain_name s"
    and "serves_from (env_assignments_for_scope env s (''/subscriptions/'' @ s)) None ps"
    and "length ps \<le> env_max_pages env" and "\<forall>a\<in>set (concat (map page_value ps)). formed a"
    and "pid = rid_resource (res_id (grant_principal g))"
  shows "\<exists>es. list_all is_read es \<and> roles_revoke env g w =
    (case find (assigns pid (role_definition_id s n)) (concat (map page_value ps)) of
       None \<Rightarrow> (Err assignment_not_found, log_events es w)
     | Some a \<Rightarrow>
         (let ev = ArmDelete s (''/subscriptions/'' @ s) (the (ra_name a)) in
          (deletion env (history w @ es) ev n (''/subscriptions/'' @ s), log_events (es @ [ev]) w)))"
proof -
  have "role_target (rid_resource (res_id (ent_resource (grant_entitlement g)))) =
      Some (s, ''/subscriptions/'' @ s, n)"
    using assms(3) split_two [OF assms(4,5)] by (simp add: role_target_def subscription_scope_def)
  from roles.deletes [OF assms(1,2) this assms(6-9)] show ?thesis unfolding Let_def .
qed

text \<open>A service with two pages: the assignment is the second entry of the second page.\<close>

definition assignment_of :: "string \<Rightarrow> string \<Rightarrow> string \<Rightarrow> role_assignment" where
  "assignment_of name pid rd =
     \<lparr>ra_id = Some name, ra_name = Some name, ra_type = None,
      ra_properties = Some \<lparr>ap_principal_id = Some pid, ap_role_definition_id = Some rd, ap_scope = None\<rparr>\<rparr>"

definition assignment_pages :: "role_assignment arm_page list" where
  "assignment_pages =
     [\<lparr>page_value = [assignment_of ''a'' ''p2'' (role_definition_id ''s1'' ''r1'')], page_next = Some ''n''\<rparr>,
      \<lparr>page_value = [assignment_of ''b'' ''p1'' ''other'', assignment_of ''c'' ''p1'' (role_definition_id ''s1'' ''r1'')],
       page_next = None\<rparr>]"

definition assigned_env :: env where
  "assigned_env = arm_env\<lparr>
     env_assignments_for_scope := \<lambda>_ _ _ cur. Inr (assignment_pages ! (if cur = None then 0 else 1)),
     env_delete_assignment := \<lambda>_ _. Inr (assignment_of ''c'' [] [])\<rparr>"

lemma assigned_env_facts:
  "env_arm_client assigned_env = None"
  "serves_from (env_assignments_for_scope assigned_env s scope) None assignment_pages"
  "length assignment_pages \<le> env_max_pages assigned_env"
  "\<forall>a\<in>set (concat (map page_value assignment_pages)). formed a"
  "find (assigns ''p1'' (role_definition_id ''s1'' ''r1'')) (concat (map page_value assignment_pages)) =
    Some (assignment_of ''c'' ''p1'' (role_definition_id ''s1'' ''r1''))"
  by (simp_all add: assigned_env_def arm_env_def quiet_env_def assignment_pages_def page_more_def
      formed_def assigns_def assignment_principal_def assignment_role_def assignment_of_def role_definition_id_def)

lemma deletion_assigned: "deletion assigned_env h ev n scope = Ok ()"
  by (simp add: deletion_def assigned_env_def assignment_of_def)

theorem role_revoke_deletes_first_match_witness:
  "\<exists>es. list_all is_read es \<and> roles_revoke assigned_env (role_grant_at ''user'' ''r1:s1'') start_world =
    (Ok (), log_events (es @ [ArmDelete ''s1'' ''/subscriptions/s1'' ''c'']) start_world)"
proof -
  have "\<exists>es. list_all is_read es \<and> roles_revoke assigned_env (role_grant_at ''user'' ''r1:s1'') start_world =
    (case find (assigns ''p1'' (role_definition_id ''s1'' ''r1'')) (concat (map page_value assignment_pages)) of
       None \<Rightarrow> (Err assignment_not_found, log_events es start_world)
     | Some a \<Rightarrow>
         (let ev = ArmDelete ''s1'' (''/subscriptions/'' @ ''s1'') (the (ra_name a)) in
          (deletion assigned_env (history start_world @ es) ev ''r1'' (''/subscriptions/'' @ ''s1''),
           log_events (es @ [ev]) start_world)))"
    by (rule role_revoke_deletes_first_match [OF _ assigned_env_facts(1) _ _ _ assigned_env_facts(2-4)])
      (simp_all add: role_grant_at_def some_principal_def bare_entitlement_def bare_resource_def plain_name_def)
  then show ?thesis
    by (simp add: assigned_env_facts(5) deletion_assigned) (simp add: assignment_of_def)
qed

text \<open>
  Revoking a grant of a resource group and a role deletes the first assignment of the
  role to the user at the group's scope, or nothing when there is none.
\<close>

theorem group_role_revoke_deletes_first_match:
  assumes "rid_type (res_id (grant_principal g)) = ''user''" and "env_arm_client env = None"
    and "rid_resource (res_id (ent_resource (grant_entitlement g))) = get_resource_group_id rg s n"
    and "plain_name rg" and "plain_name s" and "plain_name n"
    and "serves_from (env_assignments_for_scope env s (resource_group_scope s rg)) None ps"
    and "length ps \<le> env_max_pages env" and "\<forall>a\<in>set (concat (map page_value ps)). formed a"
    and "pid = rid_resource (res_id (grant_principal g))"
  shows "\<exists>es. list_all is_read es \<and> role_assignments_revoke env g w =
    (case find (assigns pid (role_definition_id s n)) (concat (map page_value ps)) of
       None \<Rightarrow> (Err assignment_not_found, log_events es w)
     | Some a \<Rightarrow>
         (let ev = ArmDelete s (resource_group_scope s rg) (the (ra_name a)) in
          (deletion env (history w @ es) ev n (resource_group_scope s rg), log_events (es @ [ev]) w)))"
proof -
  have "group_role_target (rid_resource (res_id (ent_resource (grant_entitlement g)))) =
      Some (s, resource_group_scope s rg, n)"
    using assms(3) split_three [OF assms(4,5,6)] by (simp add: group_role_target_def get_resource_group_id_def)
  from group_roles.deletes [OF assms(1,2) this assms(7-10)] show ?thesis unfolding Let_def .
qed

theorem group_role_revoke_deletes_first_match_witness:
  "\<exists>es. list_all is_read es \<and>
    role_assignments_revoke assigned_env (role_grant_at ''user'' ''g1:s1:r1'') start_world =
    (Ok (), log_events (es @ [ArmDelete ''s1'' ''/subscriptions/s1/resourceGroups/g1'' ''c'']) start_world)"
proof -
  have "\<exists>es. list_all is_read es \<and>
    role_assignments_revoke assigned_env (role_grant_at ''user'' ''g1:s1:r1'') start_world =
    (case find (assigns ''p1'' (role_definition_id ''s1'' ''r1'')) (concat (map page_value assignment_pages)) of
       None \<Rightarrow> (Err assignment_not_found, log_events es start_world)
     | Some a \<Rightarrow>
         (let ev = ArmDelete ''s1'' (resource_group_scope ''s1'' ''g1'') (the (ra_name a)) in
          (deletion assigned_env (history start_world @ es) ev ''r1'' (resource_group_scope ''s1'' ''g1''),
           log_events (es @ [ev]) start_world)))"
    by (rule group_role_revoke_deletes_first_match [OF _ assigned_env_facts(1) _ _ _ _ assigned_env_facts(2-4)])
      (simp_all add: role_grant_at_def some_principal_def bare_entitlement_def bare_resource_def plain_name_def
        get_resource_group_id_def)
  then show ?thesis
    by (simp add: assigned_env_facts(5) deletion_assigned) (simp add: assignment_of_def resource_group_scope_def)
qed

end
