(* ===== verification/App_Laws.thy ===== *)
theory App_Laws
  imports Group_Laws Resource_Laws
begin

text \<open>
  Enterprise applications: what \<open>List\<close> keeps and caches, which entitlements and grants an
  application has, what syncing leaves out, and what \<open>Grant\<close> and \<open>Revoke\<close> send.
\<close>

section \<open>Entitlement ids\<close>

definition colon_free :: "string \<Rightarrow> bool" where
  "colon_free s \<longleftrightarrow> CHR '':'' \<notin> set s"

lemma split_joined: "xs \<noteq> [] \<Longrightarrow> \<forall>x\<in>set xs. colon_free x \<Longrightarrow> split_at (CHR '':'') (join_with '':'' xs) = xs"
  by (rule split_at_join) (auto simp: colon_free_def)

lemma unmarshal_assignment:
  "colon_free a \<Longrightarrow> colon_free role \<Longrightarrow>
    unmarshal_entitlement_id (join_with '':'' [''enterprise_application'', a, ''assignment'', role]) =
    Inr \<lparr>eid_type = ''assignment'', eid_resource = a, eid_app_role_id = role\<rparr>"
  by (subst unmarshal_entitlement_id_def, subst split_joined)
    (simp_all add: colon_free_def assignment_str_def)

lemma unmarshal_owners:
  "colon_free a \<Longrightarrow>
    unmarshal_entitlement_id (join_with '':'' [''enterprise_application'', a, ''owners'']) =
    Inr \<lparr>eid_type = ''owners'', eid_resource = a, eid_app_role_id = []\<rparr>"
  by (subst unmarshal_entitlement_id_def, subst split_joined)
    (simp_all add: colon_free_def assignment_str_def)

text \<open>
  The ids of an application's entitlements can be read back: the owners entitlement
  gives what it was made from, the one of an app role gives the application and the role.
  The type does not survive: what is read back as an assignment cannot be marshalled again.
\<close>

theorem app_entitlement_id_round_trip:
  assumes "colon_free a" and "colon_free role"
  shows "\<exists>i j.
    marshal_entitlement_id \<lparr>eid_type = ''owners'', eid_resource = a, eid_app_role_id = []\<rparr> = Inr i \<and>
    unmarshal_entitlement_id i = Inr \<lparr>eid_type = ''owners'', eid_resource = a, eid_app_role_id = []\<rparr> \<and>
    marshal_entitlement_id \<lparr>eid_type = ''appRole'', eid_resource = a, eid_app_role_id = role\<rparr> = Inr j \<and>
    unmarshal_entitlement_id j = Inr \<lparr>eid_type = ''assignment'', eid_resource = a, eid_app_role_id = role\<rparr> \<and>
    (\<exists>e. marshal_entitlement_id \<lparr>eid_type = ''assignment'', eid_resource = a, eid_app_role_id = role\<rparr> = Inl e)"
  using unmarshal_assignment [OF assms] unmarshal_owners [OF assms(1)]
  by (simp add: marshal_entitlement_id_def app_role_str_def owners_str_def assignment_str_def)

theorem app_entitlement_id_round_trip_witness:
  "\<exists>i j.
    marshal_entitlement_id \<lparr>eid_type = ''owners'', eid_resource = ''a1'', eid_app_role_id = []\<rparr> = Inr i \<and>
    unmarshal_entitlement_id i = Inr \<lparr>eid_type = ''owners'', eid_resource = ''a1'', eid_app_role_id = []\<rparr> \<and>
    marshal_entitlement_id \<lparr>eid_type = ''appRole'', eid_resource = ''a1'', eid_app_role_id = ''r1''\<rparr> = Inr j \<and>
    unmarshal_entitlement_id j = Inr \<lparr>eid_type = ''assignment'', eid_resource = ''a1'', eid_app_role_id = ''r1''\<rparr> \<and>
    (\<exists>e. marshal_entitlement_id \<lparr>eid_type = ''assignment'', eid_resource = ''a1'', eid_app_role_id = ''r1''\<rparr> = Inl e)"
  by (rule app_entitlement_id_round_trip) (simp_all add: colon_free_def)

section \<open>The applications that are kept\<close>

definition owned :: "connector \<Rightarrow> service_principal option list \<Rightarrow> service_principal list" where
  "owned conn ps = filter (\<lambda>sp. spn_app_owner_organization_id sp \<in> set (conn_organization_ids conn)) (map the ps)"

text \<open>The cache with the applications stored in their order.\<close>

definition app_caches :: "service_principal list \<Rightarrow> (string \<Rightarrow> service_principal option) \<Rightarrow> string \<Rightarrow> service_principal option" where
  "app_caches sps m = m ++ map_of (rev (map (\<lambda>sp. (spn_id sp, sp)) sps))"

lemma app_caches_simps [simp]:
  "app_caches [] m = m" "app_caches (sp # sps) m = app_caches sps (m(spn_id sp \<mapsto> sp))"
  by (simp_all add: app_caches_def map_add_def fun_eq_iff split: option.splits)

lemma collect_owned_eq:
  fixes w :: "'z builders_scheme"
  assumes "None \<notin> set ps"
  shows "collect_owned (conn_organization_ids conn) ps w =
    (Ok (owned conn ps), w\<lparr>app_cache := app_caches (owned conn ps) (app_cache w)\<rparr>)"
  using assms
proof (induction ps arbitrary: w)
  case Nil
  then show ?case by (simp add: owned_def return_io_def)
next
  case (Cons p ps)
  then obtain sp where p: "p = Some sp" by (cases p) auto
  have IH: "collect_owned (conn_organization_ids conn) ps v =
      (Ok (owned conn ps), v\<lparr>app_cache := app_caches (owned conn ps) (app_cache v)\<rparr>)"
    for v :: "'z builders_scheme"
    using Cons by simp
  show ?case
    by (simp add: p IH owned_def bind_io_def return_io_def lift_io_def app_cache_set_def)
qed

definition app_query ::
  "env \<Rightarrow> bag \<Rightarrow> 'z world_scheme \<Rightarrow> service_principal graph_list outcome \<times> 'z world_scheme" where
  "app_query env b = query_list env (first_url enterprise_apps_url b) dec_service_principals_list"

lemma apps_list_eq:
  fixes w :: "'z builders_scheme"
  assumes "parse_page_token token \<lparr>rid_type = ''user'', rid_resource = []\<rparr> = Inr b"
    and "app_query env b w = (Ok resp, w1)" and "None \<notin> set (gl_value resp)"
  shows "enterprise_apps_list env conn parent token w =
    (bind_outcome (convert_all (\<lambda>app. enterprise_application_resource app parent) (owned conn (gl_value resp)))
       (\<lambda>rs. Ok (rs, fst (bag_next_token (gl_next_link resp) b))),
     w1\<lparr>app_cache := app_caches (owned conn (gl_value resp)) (app_cache w1)\<rparr>)"
proof -
  let ?os = "convert_all (\<lambda>app. enterprise_application_resource app parent) (owned conn (gl_value resp))"
  show ?thesis
    using assms(2) collect_owned_eq [OF assms(3), of conn w1]
    by (cases ?os) (simp_all add: enterprise_apps_list_def assms(1) app_query_def bind_io_def return_io_def lift_io_def)
qed

section \<open>Values for examples\<close>

text \<open>Graph has an application of the connector's organization.\<close>

definition app_json :: "string \<Rightarrow> string \<Rightarrow> json" where
  "app_json i org = JObj [(''id'', JStr i), (''appOwnerOrganizationId'', JStr org)]"

definition apps_json :: json where
  "apps_json = JObj [(''value'', JArr [app_json ''a1'' ''org''])]"

definition apps_env :: env where
  "apps_env = answering 200 (json_print apps_json)"

definition first_page_bag :: bag where
  "first_page_bag = \<lparr>bag_states = None, bag_current = Some (zero_page_state\<lparr>ps_resource_type_id := ''user''\<rparr>)\<rparr>"

lemma first_page_bag: "parse_page_token [] \<lparr>rid_type = ''user'', rid_resource = []\<rparr> = Inr first_page_bag"
  by code_simp

definition app_of :: "string \<Rightarrow> string \<Rightarrow> service_principal" where
  "app_of i org = zero_service_principal\<lparr>spn_id := i, spn_app_owner_organization_id := org\<rparr>"

definition apps_page :: "service_principal graph_list" where
  "apps_page = zero_graph_list\<lparr>gl_value := [Some (app_of ''a1'' ''org'')]\<rparr>"

lemma apps_page_decoded: "dec_service_principals_list zero_graph_list apps_json = (apps_page, None)"
  by code_simp

lemma apps_owned: "owned plain_conn (gl_value apps_page) = [app_of ''a1'' ''org'']" "None \<notin> set (gl_value apps_page)"
  by (simp_all add: owned_def plain_conn_def apps_page_def app_of_def zero_service_principal_def)

lemma app_resource_ok: "\<exists>r. enterprise_application_resource (app_of ''a1'' ''org'') None = Ok r"
proof -
  have "is_Ok (enterprise_application_resource (app_of ''a1'' ''org'') None)" by code_simp
  then show ?thesis by (cases "enterprise_application_resource (app_of ''a1'' ''org'') None") simp_all
qed

text \<open>
  A page of applications becomes exactly the resources of those that one of the
  connector's organizations owns, in Graph's order, and exactly those are stored in the
  cache, each under its id.
\<close>

theorem enterprise_apps_list_keeps_owned:
  assumes "parse_page_token token \<lparr>rid_type = ''user'', rid_resource = []\<rparr> = Inr b"
    and "app_query env b w = (Ok resp, w1)" and "None \<notin> set (gl_value resp)"
    and "convert_all (\<lambda>app. enterprise_application_resource app parent) (owned conn (gl_value resp)) = Ok rs"
  shows "enterprise_apps_list env conn parent token w =
    (Ok (rs, fst (bag_next_token (gl_next_link resp) b)),
     w1\<lparr>app_cache := app_caches (owned conn (gl_value resp)) (app_cache w1)\<rparr>)"
  using apps_list_eq [OF assms(1-3)] assms(4) by simp

lemma enterprise_apps_address:
  "url_parse enterprise_apps_url = Inr (graph_address ''beta/servicePrincipals''
     (values_set ''$expand'' ''appRoleAssignedTo'' set_enterprise_applications_keys))"
proof -
  have "path_join [''servicePrincipals''] = ''servicePrincipals''" by code_simp
  then show ?thesis
    using graph_url_plain [of beta_version "[''servicePrincipals'']" "values_set ''$expand'' ''appRoleAssignedTo'' set_enterprise_applications_keys"]
    by (simp add: enterprise_apps_url_def build_beta_url_def plain_segment_def beta_version_def)
qed

lemma apps_query: "\<exists>w1. app_query apps_env first_page_bag start_world = (Ok apps_page, w1)"
proof -
  note enterprise_apps_address
  moreover have "json_ok apps_json" by code_simp
  moreover have "first_url enterprise_apps_url first_page_bag = enterprise_apps_url"
    by (simp add: first_url_def first_page_bag_def bag_page_token_def zero_page_state_def)
  ultimately obtain w1 where "query apps_env graph_read_scopes ''GET'' (first_url enterprise_apps_url first_page_bag)
      NoBody (Some dec_service_principals_list) zero_graph_list start_world = ((None, apps_page), w1)"
    using json_answer [where dec = dec_service_principals_list and cur = zero_graph_list, OF _ _ apps_page_decoded]
    unfolding apps_env_def by metis
  then show ?thesis by (simp add: app_query_def query_list_def query_value_def)
qed

theorem enterprise_apps_list_keeps_owned_witness:
  "\<exists>r t w'. enterprise_apps_list apps_env plain_conn None [] start_world = (Ok ([r], t), w') \<and>
    app_cache w' ''a1'' \<noteq> None"
proof -
  obtain w1 where q: "app_query apps_env first_page_bag start_world = (Ok apps_page, w1)"
    using apps_query by blast
  obtain r where "enterprise_application_resource (app_of ''a1'' ''org'') None = Ok r"
    using app_resource_ok by blast
  then have r: "convert_all (\<lambda>app. enterprise_application_resource app None) (owned plain_conn (gl_value apps_page)) = Ok [r]"
    by (simp add: apps_owned)
  show ?thesis
    by (intro exI conjI, rule enterprise_apps_list_keeps_owned [OF first_page_bag q apps_owned(2) r])
      (simp add: apps_owned app_of_def)
qed

lemma app_caches_lookup:
  "app_caches sps m i = (case find (\<lambda>sp. spn_id sp = i) (rev sps) of None \<Rightarrow> m i | Some sp \<Rightarrow> Some sp)"
proof (induction sps arbitrary: m)
  case (Cons sp sps)
  have "find P (xs @ [x]) = (case find P xs of None \<Rightarrow> if P x then Some x else None | Some y \<Rightarrow> Some y)"
    for P :: "service_principal \<Rightarrow> bool" and xs x
    by (induction xs) auto
  with Cons show ?case by (auto split: option.split)
qed simp

lemma find_member: "find P xs = Some x \<Longrightarrow> x \<in> set xs \<and> P x"
  by (induction xs) (auto split: if_splits)

lemma app_caches_member:
  assumes "sp \<in> set sps"
  shows "\<exists>sp'\<in>set sps. app_caches sps m (spn_id sp) = Some sp' \<and> spn_id sp' = spn_id sp"
proof -
  have "find (\<lambda>x. spn_id x = spn_id sp) (rev sps) \<noteq> None" using assms by (auto simp: find_None_iff)
  then obtain sp' where f: "find (\<lambda>x. spn_id x = spn_id sp) (rev sps) = Some sp'" by blast
  with find_member [OF f] have "sp' \<in> set sps" "spn_id sp' = spn_id sp" by simp_all
  with f show ?thesis by (simp add: app_caches_lookup)
qed

section \<open>Entitlements need the cache\<close>

definition user_roles :: "service_principal \<Rightarrow> app_role list" where
  "user_roles sp = filter (\<lambda>rl. ''User'' \<in> set (arl_allowed_member_types rl)) (map the (spn_app_roles sp))"

definition app_prefix :: "resource \<Rightarrow> string" where
  "app_prefix r = ''enterprise_application:'' @ rid_resource (res_id r)"

lemma marshal_simps:
  "marshal_entitlement_id \<lparr>eid_type = owners_str, eid_resource = a, eid_app_role_id = x\<rparr> =
    Inr (''enterprise_application:'' @ a @ '':owners'')"
  "marshal_entitlement_id \<lparr>eid_type = app_role_str, eid_resource = a, eid_app_role_id = x\<rparr> =
    Inr (''enterprise_application:'' @ a @ '':assignment:'' @ x)"
  by (simp_all add: marshal_entitlement_id_def app_role_str_def owners_str_def assignment_str_def)

definition role_entitlement_of :: "resource \<Rightarrow> app_role \<Rightarrow> entitlement option" where
  "role_entitlement_of r rl = (case app_role_entitlement r rl of Ok x \<Rightarrow> x | _ \<Rightarrow> None)"

lemma app_role_entitlement_Ok: "app_role_entitlement r rl = Ok (role_entitlement_of r rl)"
  by (simp add: role_entitlement_of_def app_role_entitlement_def app_role_entitlement_id_def marshal_simps Let_def)

lemma role_entitlement_id:
  "map_option ent_id (role_entitlement_of r rl) =
    (if ''User'' \<in> set (arl_allowed_member_types rl) then Some (app_prefix r @ '':assignment:'' @ arl_id rl) else None)"
  by (simp add: role_entitlement_of_def app_role_entitlement_def app_role_entitlement_id_def marshal_simps
      Let_def app_entitlement_def app_prefix_def)

text \<open>The ids of the entitlements of a cached application.\<close>

definition app_entitlement_ids :: "resource \<Rightarrow> service_principal \<Rightarrow> string list" where
  "app_entitlement_ids r sp =
     [app_prefix r @ '':owners'', app_prefix r @ '':assignment:'' @ default_app_role_assignment_id]
     @ map (\<lambda>rl. app_prefix r @ '':assignment:'' @ arl_id rl) (user_roles sp)"

lemma entitlements_cached:
  assumes "app_cache w (rid_resource (res_id r)) = Some sp" and "None \<notin> set (spn_app_roles sp)"
  shows "\<exists>es. enterprise_apps_entitlements r token w = (Ok (es, []), w) \<and> map ent_id es = app_entitlement_ids r sp"
proof -
  have roles: "convert_err (\<lambda>p. bind_outcome (deref p) (app_role_entitlement r)) (spn_app_roles sp) =
      Ok (convert (\<lambda>p. role_entitlement_of r (the p)) (spn_app_roles sp))"
  proof (rule convert_err_total)
    fix p assume "p \<in> set (spn_app_roles sp)"
    with assms(2) show "bind_outcome (deref p) (app_role_entitlement r) = Ok (role_entitlement_of r (the p))"
      by (cases p) (auto simp: app_role_entitlement_Ok)
  qed
  have ids: "map ent_id (convert (\<lambda>p. role_entitlement_of r (the p)) ps) =
      map (\<lambda>rl. app_prefix r @ '':assignment:'' @ arl_id rl)
        (filter (\<lambda>rl. ''User'' \<in> set (arl_allowed_member_types rl)) (map the ps))" for ps
  proof (induction ps)
    case (Cons p ps)
    then show ?case using role_entitlement_id [of r "the p"] by (auto split: option.splits if_splits)
  qed simp
  show ?thesis
    using assms(1) roles
    by (simp add: enterprise_apps_entitlements_def app_role_entitlement_id_def marshal_simps app_cache_get_def
        app_entitlement_def app_entitlement_ids_def app_prefix_def ids [unfolded app_prefix_def] user_roles_def)
qed

lemma convert_all_member: "convert_all f ts = Ok rs \<Longrightarrow> r \<in> set rs \<Longrightarrow> \<exists>t\<in>set ts. f t = Ok r"
  by (induction ts arbitrary: rs) auto

lemma app_resource_id:
  "enterprise_application_resource sp parent = Ok r \<Longrightarrow> rid_resource (res_id r) = spn_id sp"
  unfolding enterprise_application_resource_def Let_def new_resources
  by (drule new_resource_res_id) (simp_all add: new_resource_id_def)

lemma first_grants: "enterprise_apps_grants env conn r [] w = assignment_grants (trim_application r) w"
proof -
  have "bag_unmarshal [] = Inr empty_bag" by (simp add: bag_unmarshal_def)
  then show ?thesis
    by (simp add: enterprise_apps_grants_def enterprise_apps_start_def empty_bag_def bag_push_def Let_def
        group_page_def)
qed

text \<open>
  C14: the applications that \<open>List\<close> returned can be synced in the same process. After a
  call of \<open>List\<close> every listed application is in the cache and has its entitlements: the
  owners, the default assignment and one for every app role that users may have.
\<close>

theorem listed_apps_have_entitlements:
  assumes "parse_page_token token \<lparr>rid_type = ''user'', rid_resource = []\<rparr> = Inr b"
    and "app_query env b w = (Ok resp, w1)" and "None \<notin> set (gl_value resp)"
    and "\<forall>sp\<in>set (owned conn (gl_value resp)). None \<notin> set (spn_app_roles sp)"
    and "enterprise_apps_list env conn parent token w = (Ok (rs, t), w')" and "r \<in> set rs"
  shows "\<exists>sp\<in>set (owned conn (gl_value resp)). spn_id sp = rid_resource (res_id r) \<and>
    (\<exists>es. enterprise_apps_entitlements r token' w' = (Ok (es, []), w') \<and> map ent_id es = app_entitlement_ids r sp)"
proof -
  let ?sps = "owned conn (gl_value resp)"
  note e = trans [OF sym [OF apps_list_eq [OF assms(1-3)]] assms(5), unfolded prod.inject]
  have c: "convert_all (\<lambda>app. enterprise_application_resource app parent) ?sps = Ok rs"
    using conjunct1 [OF e] by (cases "convert_all (\<lambda>app. enterprise_application_resource app parent) ?sps") simp_all
  have w': "app_cache w' = app_caches ?sps (app_cache w1)"
    unfolding sym [OF conjunct2 [OF e]] by simp
  from convert_all_member [OF c assms(6)]
  obtain sp where sp: "sp \<in> set ?sps" "enterprise_application_resource sp parent = Ok r" ..
  have "rid_resource (res_id r) = spn_id sp"
    by (rule app_resource_id [OF sp(2)])
  with app_caches_member [OF sp(1), of "app_cache w1"] obtain sp' where
    sp': "sp' \<in> set ?sps" "app_cache w' (rid_resource (res_id r)) = Some sp'" "spn_id sp' = rid_resource (res_id r)"
    by (auto simp: w')
  from entitlements_cached [OF sp'(2)] assms(4) sp'(1,3) show ?thesis by blast
qed

theorem listed_apps_have_entitlements_witness:
  "\<exists>r t w' sp es. enterprise_apps_list apps_env plain_conn None [] start_world = (Ok ([r], t), w') \<and>
    spn_id sp = rid_resource (res_id r) \<and>
    enterprise_apps_entitlements r [] w' = (Ok (es, []), w') \<and> map ent_id es = app_entitlement_ids r sp"
proof -
  obtain w1 where q: "app_query apps_env first_page_bag start_world = (Ok apps_page, w1)"
    using apps_query by blast
  obtain r where "enterprise_application_resource (app_of ''a1'' ''org'') None = Ok r"
    using app_resource_ok by blast
  then obtain t w' where l: "enterprise_apps_list apps_env plain_conn None [] start_world = (Ok ([r], t), w')"
    using apps_list_eq [OF first_page_bag q apps_owned(2), of plain_conn None] by (auto simp: apps_owned)
  have "\<forall>sp\<in>set (owned plain_conn (gl_value apps_page)). None \<notin> set (spn_app_roles sp)"
    by (simp add: apps_owned app_of_def zero_service_principal_def)
  from listed_apps_have_entitlements [OF first_page_bag q apps_owned(2) this l, of r "[]"] l
  show ?thesis by auto
qed

definition demo_app :: resource where
  "demo_app = bare_resource \<lparr>rid_type = ''enterprise_application'', rid_resource = ''a1''\<rparr>"

lemma demo_app_id: "rid_resource (res_id demo_app) = ''a1''"
  by (simp add: demo_app_def bare_resource_def)

text \<open>
  An application that this process has not listed cannot be synced: without an entry in
  the cache, \<open>Entitlements\<close> and the first call of \<open>Grants\<close> dereference nil and panic.
\<close>

theorem uncached_app_panics:
  assumes "app_cache w (rid_resource (res_id r)) = None"
    and "\<not> has_prefix (rid_resource (res_id r)) ''applications/''"
  shows "enterprise_apps_entitlements r token w = (Panic NilDereference, w) \<and>
    enterprise_apps_grants env conn r [] w = (Panic NilDereference, w)"
  using assms
  by (simp add: enterprise_apps_entitlements_def app_role_entitlement_id_def marshal_simps app_cache_get_def
      first_grants assignment_grants_def trim_application_def trim_prefix_def)

theorem uncached_app_panics_witness:
  "enterprise_apps_entitlements demo_app [] start_world = (Panic NilDereference, start_world) \<and>
    enterprise_apps_grants apps_env plain_conn demo_app [] start_world = (Panic NilDereference, start_world)"
  by (rule uncached_app_panics) (simp_all add: demo_app_id start_world_def has_prefix_def)

definition demo_assignment :: app_role_assignment where
  "demo_assignment = zero_app_role_assignment\<lparr>ara_id := ''x1'', ara_app_role_id := ''r1'',
     ara_principal_id := ''u1'', ara_principal_type := ''User''\<rparr>"

definition cached_app :: service_principal where
  "cached_app = (app_of ''a1'' ''org'')\<lparr>spn_app_roles_assigned_to := [Some demo_assignment],
     spn_app_roles := [Some (zero_app_role\<lparr>arl_id := ''r1'', arl_allowed_member_types := [''User'']\<rparr>)]\<rparr>"

definition cached_world :: builders where
  "cached_world = start_world\<lparr>app_cache := [''a1'' \<mapsto> cached_app]\<rparr>"

lemma cached_world_facts:
  "app_cache cached_world (rid_resource (res_id demo_app)) = Some cached_app"
  "None \<notin> set (spn_app_roles_assigned_to cached_app)" "None \<notin> set (spn_app_roles cached_app)"
  "\<not> has_prefix (rid_resource (res_id demo_app)) ''applications/''"
  "Some demo_assignment \<in> set (spn_app_roles_assigned_to cached_app)"
  by (simp_all add: demo_app_id cached_world_def cached_app_def has_prefix_def)

text \<open>
  C15: the owners of applications are never synced. A sync that starts a listed application
  and follows the tokens gets the grants of the cached assignments and is done: \<open>Grants\<close>
  pushes the page of the owners under that of the assignments, but returns an empty token,
  so the page is never read and nothing is asked of Graph.
\<close>

theorem app_owners_never_synced:
  assumes "app_cache w (rid_resource (res_id r)) = Some sp" and "None \<notin> set (spn_app_roles_assigned_to sp)"
    and "\<not> has_prefix (rid_resource (res_id r)) ''applications/''"
  shows "sync_pages (Suc n) (enterprise_apps_grants env conn r) [] w =
    (Ok (map (\<lambda>p. assignment_grant r (the p)) (spn_app_roles_assigned_to sp)), w)"
proof -
  have r: "trim_application r = r" using assms(3) by (simp add: trim_application_def trim_prefix_def)
  have "convert_all (\<lambda>p. bind_outcome (deref p) (\<lambda>a. Ok (assignment_grant r a))) (spn_app_roles_assigned_to sp) =
      Ok (map (\<lambda>p. assignment_grant r (the p)) (spn_app_roles_assigned_to sp))"
  proof (rule convert_all_total)
    fix p assume "p \<in> set (spn_app_roles_assigned_to sp)"
    with assms(2) show "bind_outcome (deref p) (\<lambda>a. Ok (assignment_grant r a)) = Ok (assignment_grant r (the p))"
      by (cases p) simp_all
  qed
  then show ?thesis
    using assms(1) by (simp add: first_grants r assignment_grants_def app_cache_get_def bind_io_def return_io_def)
qed

theorem app_owners_never_synced_witness:
  "sync_pages (Suc 4) (enterprise_apps_grants apps_env plain_conn demo_app) [] cached_world =
    (Ok [assignment_grant demo_app demo_assignment], cached_world)"
  unfolding app_owners_never_synced [OF cached_world_facts(1,2,4)] by (simp add: cached_app_def)

text \<open>
  C18: the grants of an application are grants of its entitlements. Every grant that a sync
  gives for an assigned role names an entitlement that \<open>Entitlements\<close> lists for the
  application, when the assignments are of the default role or of roles that users may have;
  an assignment of any other role names an entitlement that is not listed.
\<close>

theorem app_grants_name_listed_entitlements:
  assumes "app_cache w (rid_resource (res_id r)) = Some sp" and "None \<notin> set (spn_app_roles sp)"
    and "Some a \<in> set (spn_app_roles_assigned_to sp)"
  shows "\<exists>es. enterprise_apps_entitlements r token w = (Ok (es, []), w) \<and>
    (ent_id (grant_entitlement (assignment_grant r a)) \<in> set (map ent_id es) \<longleftrightarrow>
      ara_app_role_id a \<in> insert default_app_role_assignment_id (arl_id ` set (user_roles sp)))"
proof -
  obtain es where es: "enterprise_apps_entitlements r token w = (Ok (es, []), w)" "map ent_id es = app_entitlement_ids r sp"
    using entitlements_cached [OF assms(1,2)] by blast
  have i: "ent_id (grant_entitlement (assignment_grant r a)) = app_prefix r @ '':assignment:'' @ ara_app_role_id a"
    by (simp add: assignment_grant_def bare_entitlement_def app_prefix_def)
  have "(app_prefix r @ '':assignment:'' @ ara_app_role_id a \<in> set (app_entitlement_ids r sp)) \<longleftrightarrow>
      ara_app_role_id a \<in> insert default_app_role_assignment_id (arl_id ` set (user_roles sp))"
    by (auto simp: app_entitlement_ids_def)
  with es show ?thesis unfolding i by (intro exI [of _ es] conjI) (simp_all only:)
qed

theorem app_grants_name_listed_entitlements_witness:
  "\<exists>es. enterprise_apps_entitlements demo_app [] cached_world = (Ok (es, []), cached_world) \<and>
    ent_id (grant_entitlement (assignment_grant demo_app demo_assignment)) \<in> set (map ent_id es)"
  using app_grants_name_listed_entitlements [OF cached_world_facts(1,3,5), of "[]"]
  by (simp add: user_roles_def cached_app_def demo_assignment_def)

section \<open>What provisioning sends\<close>

lemma app_url_parse:
  "plain_segment a \<Longrightarrow>
    url_parse (build_beta_url (path_join [''servicePrincipals'', a, ''appRoleAssignedTo'']) []) =
      Inr (graph_address (''beta/servicePrincipals/'' @ a @ ''/appRoleAssignedTo'') [])"
  "plain_segment a \<Longrightarrow>
    url_parse (build_url (path_join [''servicePrincipals'', a, ''owners'', ''$ref'']) []) =
      Inr (graph_address (''v1.0/servicePrincipals/'' @ a @ ''/owners/$ref'') [])"
  "plain_segment a \<Longrightarrow> plain_segment g \<Longrightarrow>
    url_parse (build_url (path_join [''servicePrincipals'', a, ''appRoleAssignedTo'', g]) []) =
      Inr (graph_address (''v1.0/servicePrincipals/'' @ a @ ''/appRoleAssignedTo/'' @ g) [])"
  "plain_segment a \<Longrightarrow> plain_segment g \<Longrightarrow>
    url_parse (build_url (path_join [''servicePrincipals'', a, ''owners'', g, ''$ref'']) []) =
      Inr (graph_address (''v1.0/servicePrincipals/'' @ a @ ''/owners/'' @ g @ ''/$ref'') [])"
  unfolding build_url_def build_beta_url_def
  by (subst graph_url_plain; simp add: api_version_def beta_version_def plain_segment_def)+

text \<open>A call to Graph whose answer is only wrapped.\<close>

lemma wrapped_call:
  "(case query_unit env m u b w of (Some err, w1) \<Rightarrow> (Err (wrap_error t err), w1) | (None, w1) \<Rightarrow> (Ok (), w1)) = (x, w') \<Longrightarrow>
    \<exists>y. query_unit env m u b w = (y, w')"
  by (cases "query_unit env m u b w"; cases "fst (query_unit env m u b w)") auto

text \<open>
  C16: granting an app role of an application posts the role, the user and the application to
  the list of assignments of that application, and nothing else is sent.
\<close>

theorem app_role_grant_posts_assignment:
  assumes "ent_id e = app_prefix r @ '':assignment:'' @ role" and "ent_resource e = r"
    and "colon_free (rid_resource (res_id r))" and "colon_free role" and "plain_segment (rid_resource (res_id r))"
    and "rid_type (res_id p) = ''user''"
    and "enterprise_apps_grant env p e w = (x, w')" and "req \<in> set (sent w w')"
  shows "req_method req = ''POST'' \<and> url_host (req_url req) = ''graph.microsoft.com'' \<and>
    url_path (req_url req) = ''/beta/servicePrincipals/'' @ rid_resource (res_id r) @ ''/appRoleAssignedTo'' \<and>
    req_body req = json_body (MapBody [(''appRoleId'', JStr role), (''principalId'', JStr (rid_resource (res_id p))),
      (''resourceId'', JStr (rid_resource (res_id r)))])"
proof -
  let ?a = "rid_resource (res_id r)"
  let ?b = "MapBody [(''appRoleId'', JStr role), (''principalId'', JStr (rid_resource (res_id p))), (''resourceId'', JStr ?a)]"
  let ?u = "build_beta_url (path_join [''servicePrincipals'', ?a, ''appRoleAssignedTo'']) []"
  have "unmarshal_entitlement_id (ent_id e) = Inr \<lparr>eid_type = ''assignment'', eid_resource = ?a, eid_app_role_id = role\<rparr>"
    using unmarshal_assignment [OF assms(3,4)] by (simp add: assms(1) app_prefix_def)
  then have "enterprise_apps_grant env p e w =
      (case query_unit env ''POST'' ?u ?b w of
         (Some err, w1) \<Rightarrow> (Err (wrap_error ''failed to grant entitlement'' err), w1) | (None, w1) \<Rightarrow> (Ok (), w1))"
    using assms(2,6) by (simp add: enterprise_apps_grant_def Let_def owners_str_def assignment_str_def)
  from wrapped_call [OF trans [OF sym [OF this] assms(7)]]
  obtain y where "query_unit env ''POST'' ?u ?b w = (y, w')" ..
  from query_unit_events [OF this assms(8)] obtain a tok where
    m: "req_method req = ''POST''" "req_body req = json_body ?b" and
    "url_parse ?u = Inr a" "new_request ''POST'' a tok ?b = Inr req" by blast
  with new_request_path [OF app_url_parse(1) [OF assms(5)]] show ?thesis by (auto simp: api_domain_def)
qed

text \<open>
  C17: revoking a grant that \<open>Grants\<close> returned for an assignment deletes that assignment of
  the application, by its id.
\<close>

theorem app_revoke_deletes_assignment:
  assumes "g = assignment_grant r a" and "colon_free (rid_resource (res_id r))" and "colon_free (ara_app_role_id a)"
    and "plain_segment (rid_resource (res_id r))" and "plain_segment (ara_id a)"
    and "enterprise_apps_revoke env g w = (x, w')" and "req \<in> set (sent w w')"
  shows "req_method req = ''DELETE'' \<and> url_host (req_url req) = ''graph.microsoft.com'' \<and>
    url_path (req_url req) =
      ''/v1.0/servicePrincipals/'' @ rid_resource (res_id r) @ ''/appRoleAssignedTo/'' @ ara_id a"
proof -
  let ?a = "rid_resource (res_id r)"
  let ?u = "build_url (path_join [''servicePrincipals'', ?a, ''appRoleAssignedTo'', ara_id a]) []"
  have g: "ent_id (grant_entitlement g) = app_prefix r @ '':assignment:'' @ ara_app_role_id a"
      "ent_resource (grant_entitlement g) = r" "grant_id g = ara_id a"
    by (simp_all add: assms(1) assignment_grant_def bare_entitlement_def app_prefix_def)
  have "unmarshal_entitlement_id (ent_id (grant_entitlement g)) =
      Inr \<lparr>eid_type = ''assignment'', eid_resource = ?a, eid_app_role_id = ara_app_role_id a\<rparr>"
    using unmarshal_assignment [OF assms(2,3)] by (simp add: g app_prefix_def)
  then have "enterprise_apps_revoke env g w =
      (case query_unit env ''DELETE'' ?u NoBody w of
         (Some err, w1) \<Rightarrow> (Err (wrap_error ''failed to revoke grant'' err), w1) | (None, w1) \<Rightarrow> (Ok (), w1))"
    by (simp add: enterprise_apps_revoke_def Let_def owners_str_def assignment_str_def g(2,3))
  from wrapped_call [OF trans [OF sym [OF this] assms(6)]]
  obtain y where "query_unit env ''DELETE'' ?u NoBody w = (y, w')" ..
  from query_unit_events [OF this assms(7)] obtain b tok where
    "req_method req = ''DELETE''" "url_parse ?u = Inr b" "new_request ''DELETE'' b tok NoBody = Inr req" by blast
  with new_request_path [OF app_url_parse(3) [OF assms(4,5)]] show ?thesis by (auto simp: api_domain_def)
qed

definition demo_app_entitlement :: entitlement where
  "demo_app_entitlement = bare_entitlement (app_prefix demo_app @ '':assignment:'' @ ''r1'') demo_app"

lemma single: "length xs = Suc 0 \<Longrightarrow> \<exists>x. xs = [x]"
  by (cases xs) auto

theorem app_role_grant_posts_assignment_witness:
  "map (\<lambda>req. url_path (req_url req)) (sent start_world
      (snd (enterprise_apps_grant demo_write_env demo_user demo_app_entitlement start_world))) =
    [''/beta/servicePrincipals/a1/appRoleAssignedTo'']"
proof -
  let ?rs = "sent start_world (snd (enterprise_apps_grant demo_write_env demo_user demo_app_entitlement start_world))"
  have "length ?rs = Suc 0" by code_simp
  then obtain req where req: "?rs = [req]" using single by blast
  then have m: "req \<in> set ?rs" by simp
  have "req_method req = ''POST'' \<and> url_host (req_url req) = ''graph.microsoft.com'' \<and>
    url_path (req_url req) = ''/beta/servicePrincipals/'' @ rid_resource (res_id demo_app) @ ''/appRoleAssignedTo'' \<and>
    req_body req = json_body (MapBody [(''appRoleId'', JStr ''r1''), (''principalId'', JStr (rid_resource (res_id demo_user))),
      (''resourceId'', JStr (rid_resource (res_id demo_app)))])"
    by (rule app_role_grant_posts_assignment [OF _ _ _ _ _ _ surjective_pairing m])
      (simp_all add: demo_app_entitlement_def bare_entitlement_def demo_app_id colon_free_def plain_segment_def
        demo_user_def bare_resource_def)
  with req show ?thesis by (simp add: demo_app_id)
qed

theorem app_revoke_deletes_assignment_witness:
  "map (\<lambda>req. (req_method req, url_path (req_url req))) (sent start_world
      (snd (enterprise_apps_revoke demo_write_env (assignment_grant demo_app demo_assignment) start_world))) =
    [(''DELETE'', ''/v1.0/servicePrincipals/a1/appRoleAssignedTo/x1'')]"
proof -
  let ?rs = "sent start_world (snd (enterprise_apps_revoke demo_write_env (assignment_grant demo_app demo_assignment) start_world))"
  have "length ?rs = Suc 0" by code_simp
  then obtain req where req: "?rs = [req]" using single by blast
  then have m: "req \<in> set ?rs" by simp
  have "req_method req = ''DELETE'' \<and> url_host (req_url req) = ''graph.microsoft.com'' \<and>
    url_path (req_url req) =
      ''/v1.0/servicePrincipals/'' @ rid_resource (res_id demo_app) @ ''/appRoleAssignedTo/'' @ ara_id demo_assignment"
    by (rule app_revoke_deletes_assignment [OF HOL.refl _ _ _ _ surjective_pairing m])
      (simp_all add: demo_app_id colon_free_def plain_segment_def demo_assignment_def)
  with req show ?thesis by (simp add: demo_app_id demo_assignment_def)
qed

end
