(* ===== verification/User_Laws.thy ===== *)
theory User_Laws
  imports Role_Provisioning App_Laws
begin

text \<open>
  Users: \<open>List\<close> gives every user of a page, in Graph's order, and asks for the mailbox
  settings of each at most once; a failure of such a question is not one of the list.
\<close>

lemma user_resource_id:
  "user_resource env u parent opts = Ok r \<Longrightarrow> rid_resource (res_id r) = usr_id u"
  unfolding user_resource_def Let_def new_resources
  by (drule new_resource_res_id) (simp_all add: new_resource_id_def)

lemma mailbox_purpose_result:
  "\<exists>p w' es. mailbox_purpose env u w = (Ok p, w') \<and> history w' = history w @ es \<and> length (requests_in es) \<le> 1"
proof -
  obtain x w' where q: "query env graph_read_scopes ''GET''
      (build_url (path_join [''users'', usr_id u, ''mailboxSettings'']) set_user_response_keys)
      NoBody (Some (dec_struct mailbox_settings_fields)) zero_mailbox_settings w = (x, w')" by fastforce
  from query_history [OF this] obtain es where
    "history w' = history w @ TokenRequest graph_read_scopes # es" "length (requests_in es) \<le> 1"
    by auto
  with q show ?thesis
    by (cases x) (auto simp: mailbox_purpose_def intro!: exI [of _ "TokenRequest graph_read_scopes # es"])
qed

text \<open>The resource of a user whose mailbox has a purpose.\<close>

definition made_of ::
  "env \<Rightarrow> resource_id option \<Rightarrow> user \<Rightarrow> string \<Rightarrow> resource \<Rightarrow> bool" where
  "made_of env parent u purpose r \<longleftrightarrow>
     user_resource env u parent [with_account_type (user_account_type purpose)] = Ok r"

lemma users_with_mailboxes_all:
  fixes w :: "'z world_scheme"
  assumes "\<forall>u\<in>set us. \<forall>a. is_Ok (user_resource env u parent [with_account_type a])"
  shows "\<exists>rs ps w' es. users_with_mailboxes env parent (map Some us) w = (Ok rs, w') \<and>
    history w' = history w @ es \<and> length (requests_in es) \<le> length us \<and>
    length ps = length us \<and> list_all2 (\<lambda>(u, p) r. made_of env parent u p r) (zip us ps) rs"
  using assms
proof (induction us arbitrary: w)
  case Nil
  show ?case by (simp add: return_io_def)
next
  case (Cons u us)
  obtain p w1 es1 where m: "mailbox_purpose env u w = (Ok p, w1)" "history w1 = history w @ es1"
      "length (requests_in es1) \<le> 1"
    using mailbox_purpose_result [of env u w] by blast
  have "is_Ok (user_resource env u parent [with_account_type (user_account_type p)])"
    using Cons.prems by simp
  then obtain r where r: "user_resource env u parent [with_account_type (user_account_type p)] = Ok r"
    unfolding is_Ok_iff ..
  obtain rs ps w' es where rest: "users_with_mailboxes env parent (map Some us) w1 = (Ok rs, w')"
      "history w' = history w1 @ es" "length (requests_in es) \<le> length us" "length ps = length us"
      "list_all2 (\<lambda>(u, p) r. made_of env parent u p r) (zip us ps) rs"
    using Cons.IH [of w1] Cons.prems by auto
  show ?case
    by (rule exI [of _ "r # rs"], rule exI [of _ "p # ps"], rule exI [of _ w'], rule exI [of _ "es1 @ es"])
      (use m rest r in \<open>auto simp: bind_io_simps(1) [where m = "mailbox_purpose e v" for e v] bind_io_def
        return_io_def lift_io_def made_of_def\<close>)
qed

definition users_query ::
  "env \<Rightarrow> bag \<Rightarrow> 'z world_scheme \<Rightarrow> user graph_list outcome \<times> 'z world_scheme" where
  "users_query env b = query_list env (first_url (build_url ''users'' set_user_keys) b) dec_users_list"

text \<open>
  \<open>List\<close> loses no user. Of a page that Graph answered it makes one resource for every
  user, in Graph's order and under the user's id. With the mailbox settings enabled it sends
  at most one more request for each user, and each user's account is a service account
  exactly when the purpose that came back is a room, equipment or a shared mailbox;
  a question that fails leaves the purpose empty and the user in the list.
\<close>

theorem users_list_every_user:
  fixes w :: "'z world_scheme"
  assumes "parse_page_token token \<lparr>rid_type = ''user'', rid_resource = []\<rparr> = Inr b"
    and "users_query env b w = (Ok resp, w1)" and "gl_value resp = map Some us"
    and "\<forall>u\<in>set us. is_Ok (user_resource env u parent []) \<and>
      (\<forall>a. is_Ok (user_resource env u parent [with_account_type a]))"
  shows "\<exists>rs w' es. users_list env conn parent token w =
      (Ok (rs, fst (bag_next_token (gl_next_link resp) b)), w') \<and>
    map (\<lambda>r. rid_resource (res_id r)) rs = map usr_id us \<and>
    history w' = history w1 @ es \<and> length (requests_in es) \<le> (if conn_mailbox_settings conn then length us else 0) \<and>
    (conn_mailbox_settings conn \<longrightarrow>
      (\<exists>ps. length ps = length us \<and> list_all2 (\<lambda>(u, p) r. made_of env parent u p r) (zip us ps) rs))"
proof (cases "conn_mailbox_settings conn")
  case False
  let ?f = "\<lambda>p. bind_outcome (deref p) (\<lambda>u. user_resource env u parent [])"
  let ?g = "\<lambda>p. case user_resource env (the p) parent [] of Ok r \<Rightarrow> r"
  have c: "convert_all ?f (map Some us) = Ok (map ?g (map Some us))"
    by (rule convert_all_total) (use assms(4) in \<open>auto simp: is_Ok_iff\<close>)
  have "map (\<lambda>r. rid_resource (res_id r)) (map ?g (map Some us)) = map usr_id us"
    using assms(4) user_resource_id [of env _ parent "[]"] by (auto simp: is_Ok_iff)
  with c False assms(1-3) show ?thesis
    by (intro exI [of _ "map ?g (map Some us)"] exI [of _ w1] exI [of _ "[]"])
      (simp add: users_list_def users_query_def bind_io_def return_io_def lift_io_def Let_def user_resource_type_def)
next
  case True
  obtain rs ps w' es where u: "users_with_mailboxes env parent (map Some us) w1 = (Ok rs, w')"
      "history w' = history w1 @ es" "length (requests_in es) \<le> length us" "length ps = length us"
      "list_all2 (\<lambda>(u, p) r. made_of env parent u p r) (zip us ps) rs"
    using users_with_mailboxes_all [of us env parent w1] assms(4) by blast
  have "map (\<lambda>r. rid_resource (res_id r)) rs = map usr_id us"
    using u(4,5) user_resource_id unfolding made_of_def
    by (intro nth_equalityI) (auto simp: list_all2_conv_all_nth)
  with u True assms(1-3) show ?thesis
    by (intro exI [of _ rs] exI [of _ w'] exI [of _ es])
      (auto simp: users_list_def users_query_def bind_io_def return_io_def lift_io_def Let_def user_resource_type_def)
qed

definition users_json :: json where
  "users_json = JObj [(''value'', JArr [JObj [(''id'', JStr ''u1'')]])]"

definition one_user :: user where
  "one_user = zero_user\<lparr>usr_id := ''u1''\<rparr>"

definition users_page :: "user graph_list" where
  "users_page = zero_graph_list\<lparr>gl_value := [Some one_user]\<rparr>"

definition mailbox_conn :: connector where
  "mailbox_conn = plain_conn\<lparr>conn_mailbox_settings := True\<rparr>"

lemma users_page_decoded: "dec_users_list zero_graph_list users_json = (users_page, None)"
  by code_simp

lemma users_answered: "\<exists>w1. users_query (answering 200 (json_print users_json)) first_page_bag start_world = (Ok users_page, w1)"
proof -
  have "path_join [''users''] = ''users''" by code_simp
  then have "url_parse (build_url ''users'' set_user_keys) = Inr (graph_address (''v1.0/users'') set_user_keys)"
    using graph_url_plain [of api_version "[''users'']" set_user_keys]
    by (simp add: build_url_def plain_segment_def api_version_def)
  moreover have "json_ok users_json" by code_simp
  moreover have "first_url (build_url ''users'' set_user_keys) first_page_bag = build_url ''users'' set_user_keys"
    by (simp add: first_url_def first_page_bag_def bag_page_token_def zero_page_state_def)
  ultimately obtain w1 where "query (answering 200 (json_print users_json)) graph_read_scopes ''GET''
      (first_url (build_url ''users'' set_user_keys) first_page_bag) NoBody (Some dec_users_list) zero_graph_list start_world
      = ((None, users_page), w1)"
    using json_answer [where dec = dec_users_list and cur = zero_graph_list, OF _ _ users_page_decoded] by metis
  then show ?thesis by (simp add: users_query_def query_list_def query_value_def)
qed

lemma one_user_resource:
  "is_Ok (user_resource (answering 200 b) one_user None [])"
  "is_Ok (user_resource (answering 200 b) one_user None [with_account_type a])"
  by code_simp+

theorem users_list_every_user_witness:
  "\<exists>r t w'. users_list (answering 200 (json_print users_json)) mailbox_conn None [] start_world = (Ok ([r], t), w') \<and>
    rid_resource (res_id r) = ''u1''"
proof -
  obtain w1 where q: "users_query (answering 200 (json_print users_json)) first_page_bag start_world = (Ok users_page, w1)"
    using users_answered by blast
  have v: "gl_value users_page = map Some [one_user]" by (simp add: users_page_def)
  have ok: "\<forall>u\<in>set [one_user]. is_Ok (user_resource (answering 200 (json_print users_json)) u None []) \<and>
      (\<forall>a. is_Ok (user_resource (answering 200 (json_print users_json)) u None [with_account_type a]))"
    using one_user_resource by simp
  obtain rs w' where "users_list (answering 200 (json_print users_json)) mailbox_conn None [] start_world =
      (Ok (rs, fst (bag_next_token (gl_next_link users_page) first_page_bag)), w')"
    and "map (\<lambda>r. rid_resource (res_id r)) rs = [usr_id one_user]"
    using users_list_every_user [OF first_page_bag q v ok, of mailbox_conn] by auto
  then show ?thesis by (auto simp: one_user_def)
qed

end
