(* ===== verification/List_Laws.thy ===== *)
theory List_Laws
  imports User_Laws
begin

text \<open>
  What \<open>List\<close> of the builders of Graph gives over all its calls. The four methods have the
  same shape: a page token, a query, and a body that makes resources of a page. The interface
  \<open>graph_lister\<close> is that shape; it is a method on page states, and against a service with
  given pages it returns what its body makes of each of them.
\<close>

section \<open>Listing as a method on page states\<close>

definition lister_step ::
  "('c \<Rightarrow> env) \<Rightarrow> ('c \<Rightarrow> string) \<Rightarrow> 'a graph_list decoder \<Rightarrow>
    ('c \<Rightarrow> 'a graph_list \<Rightarrow> ('z world_scheme, resource list) io) \<Rightarrow>
    'c \<Rightarrow> bag \<Rightarrow> ('z world_scheme, resource list \<times> bag option) io"
where
  "lister_step env_of address dec body c b =
     bind_io (query_list (env_of c) (first_url (address c) b) dec) (\<lambda>resp.
     bind_io (body c resp) (\<lambda>rs. return_io (rs, next_state (snd (bag_next_token (gl_next_link resp) b)))))"

definition fresh_bag :: "string \<Rightarrow> bag" where
  "fresh_bag ty = bag_push \<lparr>ps_token = [], ps_resource_type_id = ty, ps_resource_id = []\<rparr> empty_bag"

lemma bind_io_fun:
  "bind_io (bind_io m f) g = bind_io m (\<lambda>x. bind_io (f x) g)" "bind_io (return_io x) f = f x"
  by (rule ext, simp add: bind_io_assoc)+

locale graph_lister =
  fixes env_of :: "'c \<Rightarrow> env" and address :: "'c \<Rightarrow> string" and dec :: "'a graph_list decoder"
    and body :: "'c \<Rightarrow> 'a graph_list \<Rightarrow> ('z world_scheme, resource list) io"
    and ty :: string and call :: "'c \<Rightarrow> string \<Rightarrow> ('z world_scheme, resource list \<times> string) io"
  assumes call_eq: "call c token =
      bind_io (lift_io (of_sum (parse_page_token token \<lparr>rid_type = ty, rid_resource = []\<rparr>))) (\<lambda>b.
      bind_io (query_list (env_of c) (first_url (address c) b) dec) (\<lambda>resp.
      bind_io (body c resp) (\<lambda>rs. return_io (rs, fst (bag_next_token (gl_next_link resp) b)))))"
    and link_valid: "json_valid v \<Longrightarrow> dec zero_graph_list v = (l, e) \<Longrightarrow> valid_utf8 (gl_next_link l)"
    and type_valid: "valid_utf8 ty"
begin

lemma query_link:
  assumes "query_list env u dec w = (Ok resp, w')"
  shows "valid_utf8 (gl_next_link resp)"
proof -
  obtain e r w1 where q: "query env graph_read_scopes ''GET'' u NoBody (Some dec) zero_graph_list w = ((e, r), w1)"
    by (metis prod.collapse)
  with assms have "r = resp" by (cases e) (simp_all add: query_list_def query_value_def)
  moreover have "valid_utf8 (gl_next_link r)"
    by (rule query_keeps [where P = "\<lambda>l. valid_utf8 (gl_next_link l)", OF q])
      (auto intro: link_valid simp: zero_graph_list_def)
  ultimately show ?thesis by simp
qed

lemma paged: "paged_method bag_marshal bag_unmarshal bag_live (lister_step env_of address dec body) call"
proof (intro paged_method.intro paged_method_axioms.intro bag_token.token_codec_axioms)
  fix t s c and w :: "'z world_scheme"
  assume "bag_unmarshal t = Inr s" and "bag_live s"
  then have p: "parse_page_token t \<lparr>rid_type = ty, rid_resource = []\<rparr> = Inr s"
    by (auto simp: parse_page_token_def bag_live_def)
  have "token_of bag_marshal (next_state (snd (bag_next_token l s))) = fst (bag_next_token l s)" for l
    by (rule token_of_next_state) (rule surjective_pairing)
  then show "call c t w = bind_io (lister_step env_of address dec body c s) (\<lambda>(xs, n). return_io (xs, token_of bag_marshal n)) w"
    by (simp add: call_eq p lister_step_def bind_io_fun)
next
  fix s c xs s' and w w' :: "'z world_scheme"
  assume l: "bag_live s" and "lister_step env_of address dec body c s w = (Ok (xs, Some s'), w')"
  then obtain resp w1 where q: "query_list (env_of c) (first_url (address c) s) dec w = (Ok resp, w1)"
    and n: "next_state (snd (bag_next_token (gl_next_link resp) s)) = Some s'"
    unfolding lister_step_def by (elim bind_io_Ok_E) (auto simp: return_io_def)
  obtain tok b' where b': "bag_next_token (gl_next_link resp) s = (tok, b')" by fastforce
  have "bag_current b' \<noteq> None" "b' = s'" using n b' by (auto simp: next_state_def split: if_splits)
  with bag_next_token_live [OF l query_link [OF q] b'] show "bag_live s'" by auto
qed

end

sublocale graph_lister < paged_method bag_marshal bag_unmarshal bag_live "lister_step env_of address dec body" call
  by (rule paged)

section \<open>All pages of a list\<close>

lemma list_chain_no_nulls: "list_chain env site tok dec u ps \<Longrightarrow> p \<in> set ps \<Longrightarrow> no_nulls p"
  by (induction ps arbitrary: u) (auto split: if_splits)

text \<open>
  A body that makes \<open>f p\<close> of a page \<open>p\<close>; what else it does to the world is the invariant,
  over the pages read so far.
\<close>

definition makes ::
  "env \<Rightarrow> (string \<Rightarrow> response) \<Rightarrow> 'a graph_list decoder \<Rightarrow> ('a graph_list \<Rightarrow> ('z world_scheme, resource list) io) \<Rightarrow>
    ('a graph_list \<Rightarrow> resource list) \<Rightarrow> 'a graph_list set \<Rightarrow> ('a graph_list list \<Rightarrow> 'z world_scheme \<Rightarrow> bool) \<Rightarrow> bool"
where
  "makes env site dec m f A P \<longleftrightarrow>
     (\<forall>xs w. P xs w \<longrightarrow> cache_agrees site w) \<and>
     (\<forall>xs u w y w'. P xs w \<longrightarrow> query env graph_read_scopes ''GET'' u NoBody (Some dec) zero_graph_list w = (y, w') \<longrightarrow>
        cache_agrees site w' \<longrightarrow> P xs w') \<and>
     (\<forall>xs p w. P xs w \<longrightarrow> p \<in> A \<longrightarrow> (\<exists>w'. m p w = (Ok (f p), w') \<and> P (xs @ [p]) w'))"

lemma first_url_fresh [simp]: "first_url u (fresh_bag ty) = u"
  by (simp add: first_url_def fresh_bag_def empty_bag_def bag_push_def bag_page_token_def)

lemma fresh_bag_facts:
  assumes "valid_utf8 ty"
  shows "bag_live (fresh_bag ty)" "length (bag_stack (fresh_bag ty)) = 1"
    "parse_page_token [] \<lparr>rid_type = ty, rid_resource = []\<rparr> = Inr (fresh_bag ty)"
  using assms
  by (simp_all add: fresh_bag_def empty_bag_def bag_push_def bag_live_def bag_ok_def bag_wf_def bag_stack_def
      states_of_def page_state_ok_def parse_page_token_def bag_unmarshal_def)

context graph_lister
begin

lemma step_page:
  assumes "stable_env (env_of c) site tok" and "makes (env_of c) site dec (body c) f A P" and "P xs w" and "p \<in> A"
    and "expected_answer (env_of c) site tok (first_url (address c) b) (Some dec) zero_graph_list = (None, p)"
  shows "\<exists>w'. lister_step env_of address dec body c b w =
      (Ok (f p, next_state (snd (bag_next_token (gl_next_link p) b))), w') \<and> P (xs @ [p]) w'"
proof -
  have "cache_agrees site w" using assms(2,3) unfolding makes_def by blast
  from query_answered [OF assms(1) this, of graph_read_scopes "first_url (address c) b" "Some dec" zero_graph_list]
  obtain w1 where q: "query (env_of c) graph_read_scopes ''GET'' (first_url (address c) b) NoBody (Some dec)
      zero_graph_list w = ((None, p), w1)" and "cache_agrees site w1"
    unfolding assms(5) by (elim exE conjE) (rule that)
  with assms(2,3) have "P xs w1" unfolding makes_def by blast
  with assms(2,4) obtain w2 where "body c p w1 = (Ok (f p), w2)" "P (xs @ [p]) w2"
    unfolding makes_def by blast
  with q show ?thesis
    by (simp add: lister_step_def query_list_def query_value_def bind_io_def return_io_def)
qed

lemma state_chain:
  assumes "stable_env (env_of c) site tok" and "makes (env_of c) site dec (body c) f A P"
  shows "P xs w \<Longrightarrow> bag_live b \<Longrightarrow> length (bag_stack b) = 1 \<Longrightarrow> set ps \<subseteq> A \<Longrightarrow> length ps \<le> n \<Longrightarrow>
    list_chain (env_of c) site tok dec (first_url (address c) b) ps \<Longrightarrow>
    \<exists>w'. state_pages n (lister_step env_of address dec body c) b w = (Ok (concat (map f ps)), w') \<and> P (xs @ ps) w'"
proof (induction ps arbitrary: xs b w n)
  case (Cons p ps)
  then obtain m where n: "n = Suc m" by (cases n) auto
  obtain tok' b' where b': "bag_next_token (gl_next_link p) b = (tok', b')" by fastforce
  have p: "expected_answer (env_of c) site tok (first_url (address c) b) (Some dec) zero_graph_list = (None, p)" "p \<in> A"
    using Cons.prems by simp_all
  obtain w1 where st: "lister_step env_of address dec body c b w = (Ok (f p, next_state b'), w1)" and w1: "P (xs @ [p]) w1"
    using step_page [OF assms Cons.prems(1) p(2,1)] unfolding b' by auto
  have wf: "bag_wf b" using Cons.prems(2) by (simp add: bag_live_def)
  have s: "bag_stack b' = stack_next (gl_next_link p) (bag_stack b)" "bag_wf b'"
    using bag_next_token_stack [OF wf b'] by simp_all
  obtain t where t: "bag_stack b = [t]" using Cons.prems(3) by (auto simp: length_Suc_conv)
  show ?case
  proof (cases "ps = []")
    case True
    with Cons.prems s t have "next_state b' = None"
      using bag_wf_stack [OF s(2)] by (simp add: next_state_def stack_next_def)
    with st w1 True n show ?thesis by (simp add: bind_io_def return_io_def)
  next
    case False
    then have l: "gl_next_link p \<noteq> []" "list_chain (env_of c) site tok dec (gl_next_link p) ps"
      using Cons.prems(6) by simp_all
    then have k: "bag_stack b' = [t\<lparr>ps_token := gl_next_link p\<rparr>]" using s(1) t by (simp add: stack_next_def)
    then have cur: "bag_current b' = Some (t\<lparr>ps_token := gl_next_link p\<rparr>)"
      by (auto simp: bag_stack_def split: option.splits)
    then have u: "first_url (address c) b' = gl_next_link p" and ns: "next_state b' = Some b'"
      using l(1) by (simp_all add: first_url_def bag_page_token_def next_state_def)
    have live: "bag_live b'" by (rule step_live [OF Cons.prems(2)]) (use st ns in simp)
    obtain w2 where "state_pages m (lister_step env_of address dec body c) b' w1 = (Ok (concat (map f ps)), w2)"
        "P ((xs @ [p]) @ ps) w2"
      using Cons.IH [OF w1 live, of m] k l(2) u Cons.prems(4,5) n by auto
    with st ns n show ?thesis by (simp add: bind_io_def return_io_def)
  qed
qed simp

text \<open>Following the tokens from the empty one gives what the body makes of every page.\<close>

lemma sync_list:
  assumes "stable_env (env_of c) site tok" and "makes (env_of c) site dec (body c) f (set ps) P" and "P [] w"
    and "list_chain (env_of c) site tok dec (address c) ps" and "length ps \<le> n"
  shows "\<exists>w'. sync_pages n (call c) [] w = (Ok (concat (map f ps)), w') \<and> P ps w'"
proof -
  note fresh = fresh_bag_facts [OF type_valid]
  have "call c [] v = call c (bag_marshal (fresh_bag ty)) v" for v
    using parse_page_token_marshal [of "fresh_bag ty"] fresh(1,3) unfolding call_eq by (simp add: bag_live_def)
  then have "sync_pages n (call c) [] w = state_pages n (lister_step env_of address dec body c) (fresh_bag ty) w"
    by (rule sync_fresh [OF fresh(1)])
  then show ?thesis
    using state_chain [OF assms(1,2,3) fresh(1,2) order.refl assms(5)] assms(4) by simp
qed

end

section \<open>The four lists\<close>

definition the_ok :: "'a outcome \<Rightarrow> 'a" where
  "the_ok y = (case y of Ok x \<Rightarrow> x)"

lemma the_ok [simp]: "the_ok (Ok x) = x"
  by (simp add: the_ok_def)

lemma is_Ok_the_ok: "is_Ok y \<Longrightarrow> y = Ok (the_ok y)"
  by (cases y) (simp_all add: is_Ok_iff)

definition entries :: "'a graph_list list \<Rightarrow> 'a list" where
  "entries ps = concat (map (\<lambda>p. map the (gl_value p)) ps)"

lemma entries_simps [simp]: "entries [] = []" "entries (p # ps) = map the (gl_value p) @ entries ps"
  by (simp_all add: entries_def)

lemma no_nulls_values: "no_nulls p \<Longrightarrow> gl_value p = map Some (map the (gl_value p))"
  by (simp add: no_nulls_def map_idI option.expand map_map) (metis (no_types, lifting) map_idI option.collapse comp_apply)

lemma convert_page:
  assumes "no_nulls p" and "\<forall>x\<in>set (map the (gl_value p)). is_Ok (f x)"
  shows "convert_all (\<lambda>v. bind_outcome (deref v) f) (gl_value p) = Ok (map (\<lambda>x. the_ok (f x)) (map the (gl_value p)))"
proof -
  have "convert_all (\<lambda>v. bind_outcome (deref v) f) (map Some xs) = Ok (map (\<lambda>v. the_ok (f (the v))) (map Some xs))"
    if "\<forall>x\<in>set xs. is_Ok (f x)" for xs
    by (rule convert_all_total) (use that is_Ok_the_ok in fastforce)
  from this [OF assms(2)] show ?thesis unfolding no_nulls_values [OF assms(1), symmetric] by (simp add: comp_def)
qed

lemma page_entries: "\<forall>x\<in>set (entries ps). Q x \<Longrightarrow> p \<in> set ps \<Longrightarrow> \<forall>x\<in>set (map the (gl_value p)). Q x"
  by (auto simp: entries_def)

lemma all_made: "\<forall>x\<in>set xs. is_Ok (f x) \<Longrightarrow> list_all2 (\<lambda>x r. f x = Ok r) xs (map (\<lambda>x. the_ok (f x)) xs)"
  by (auto simp: list_all2_conv_all_nth intro: is_Ok_the_ok)

lemma concat_entries: "concat (map (\<lambda>p. map g (map the (gl_value p))) ps) = map g (entries ps)"
  by (induction ps) simp_all

text \<open>What a call does with a page, for each of the four.\<close>

type_synonym list_args = "env \<times> connector \<times> resource_id option"

definition users_body :: "list_args \<Rightarrow> user graph_list \<Rightarrow> ('z world_scheme, resource list) io" where
  "users_body c resp =
     (case c of (env, conn, parent) \<Rightarrow>
        if \<not> conn_mailbox_settings conn then
          lift_io (convert_all (\<lambda>p. bind_outcome (deref p) (\<lambda>u. user_resource env u parent [])) (gl_value resp))
        else users_with_mailboxes env parent (gl_value resp))"

definition groups_body :: "list_args \<Rightarrow> group graph_list \<Rightarrow> ('z world_scheme, resource list) io" where
  "groups_body c resp =
     lift_io (convert_all (\<lambda>p. bind_outcome (deref p) (\<lambda>g. group_resource g (snd (snd c)))) (gl_value resp))"

definition identities_body :: "list_args \<Rightarrow> service_principal graph_list \<Rightarrow> ('z world_scheme, resource list) io" where
  "identities_body c resp =
     lift_io (convert_all (\<lambda>p. bind_outcome (deref p) (\<lambda>i. managed_identity_resource i (snd (snd c)))) (gl_value resp))"

definition apps_body :: "list_args \<Rightarrow> service_principal graph_list \<Rightarrow> ('z builders_scheme, resource list) io" where
  "apps_body c resp =
     (case c of (env, conn, parent) \<Rightarrow>
        bind_io (collect_owned (conn_organization_ids conn) (gl_value resp)) (\<lambda>owned.
          lift_io (convert_all (\<lambda>app. enterprise_application_resource app parent) owned)))"

definition list_call ::
  "(env \<Rightarrow> connector \<Rightarrow> resource_id option \<Rightarrow> string \<Rightarrow> 'r) \<Rightarrow> list_args \<Rightarrow> string \<Rightarrow> 'r" where
  "list_call l c token = (case c of (env, conn, parent) \<Rightarrow> l env conn parent token)"

definition groups_address :: "connector \<Rightarrow> string" where
  "groups_address conn = build_url ''groups'' (skip_ad_filter conn set_group_keys)"

lemma list_links_valid:
  "json_valid v \<Longrightarrow> dec_users_list zero_graph_list v = (l1, e) \<Longrightarrow> valid_utf8 (gl_next_link l1)"
  "json_valid v \<Longrightarrow> dec_groups_list zero_graph_list v = (l2, e) \<Longrightarrow> valid_utf8 (gl_next_link l2)"
  "json_valid v \<Longrightarrow> dec_service_principals_list zero_graph_list v = (l3, e) \<Longrightarrow> valid_utf8 (gl_next_link l3)"
  by (auto simp: dec_users_list_def dec_groups_list_def dec_service_principals_list_def simp del: dec_struct.simps
      intro: graph_list_link_valid)

lemma list_types_valid: "valid_utf8 ''user''" "valid_utf8 ''group''"
  by (simp_all add: valid_utf8_ascii)

interpretation users: graph_lister fst "\<lambda>_. build_url ''users'' set_user_keys" dec_users_list users_body
    "''user''" "list_call users_list"
proof
  show "list_call users_list c token =
      bind_io (lift_io (of_sum (parse_page_token token \<lparr>rid_type = ''user'', rid_resource = []\<rparr>))) (\<lambda>b.
      bind_io (query_list (fst c) (first_url (build_url ''users'' set_user_keys) b) dec_users_list) (\<lambda>resp.
      bind_io (users_body c resp) (\<lambda>rs. return_io (rs, fst (bag_next_token (gl_next_link resp) b)))))" for c token
    by (cases c; cases "conn_mailbox_settings (fst (snd c))")
      (simp_all add: list_call_def users_list_def users_body_def user_resource_type_def Let_def)
qed (fact list_links_valid list_types_valid)+

interpretation groups: graph_lister fst "\<lambda>c. groups_address (fst (snd c))" dec_groups_list groups_body
    "''group''" "list_call groups_list"
proof
  show "list_call groups_list c token =
      bind_io (lift_io (of_sum (parse_page_token token \<lparr>rid_type = ''group'', rid_resource = []\<rparr>))) (\<lambda>b.
      bind_io (query_list (fst c) (first_url (groups_address (fst (snd c))) b) dec_groups_list) (\<lambda>resp.
      bind_io (groups_body c resp) (\<lambda>rs. return_io (rs, fst (bag_next_token (gl_next_link resp) b)))))" for c token
    by (cases c) (simp add: list_call_def groups_list_def groups_body_def groups_address_def group_resource_type_def)
qed (fact list_links_valid list_types_valid)+

interpretation identities: graph_lister fst "\<lambda>_. build_url ''servicePrincipals'' set_managed_identity_keys"
    dec_service_principals_list identities_body "''user''" "list_call (\<lambda>env conn. managed_identities_list env)"
proof
  show "list_call (\<lambda>env conn. managed_identities_list env) c token =
      bind_io (lift_io (of_sum (parse_page_token token \<lparr>rid_type = ''user'', rid_resource = []\<rparr>))) (\<lambda>b.
      bind_io (query_list (fst c) (first_url (build_url ''servicePrincipals'' set_managed_identity_keys) b) dec_service_principals_list) (\<lambda>resp.
      bind_io (identities_body c resp) (\<lambda>rs. return_io (rs, fst (bag_next_token (gl_next_link resp) b)))))" for c token
    by (cases c) (simp add: list_call_def managed_identities_list_def identities_body_def user_resource_type_def)
qed (fact list_links_valid list_types_valid)+

interpretation apps: graph_lister fst "\<lambda>_. enterprise_apps_url" dec_service_principals_list apps_body
    "''user''" "list_call enterprise_apps_list"
proof
  show "list_call enterprise_apps_list c token =
      bind_io (lift_io (of_sum (parse_page_token token \<lparr>rid_type = ''user'', rid_resource = []\<rparr>))) (\<lambda>b.
      bind_io (query_list (fst c) (first_url enterprise_apps_url b) dec_service_principals_list) (\<lambda>resp.
      bind_io (apps_body c resp) (\<lambda>rs. return_io (rs, fst (bag_next_token (gl_next_link resp) b)))))" for c token
    by (cases c) (simp add: list_call_def enterprise_apps_list_def apps_body_def user_resource_type_def bind_io_fun)
qed (fact list_links_valid list_types_valid)+

section \<open>Complete lists\<close>

definition known_purpose :: "env \<Rightarrow> (string \<Rightarrow> response) \<Rightarrow> string \<Rightarrow> user \<Rightarrow> string" where
  "known_purpose env site tok u =
     mbx_user_purpose (snd (expected_answer env site tok
       (build_url (path_join [''users'', usr_id u, ''mailboxSettings'']) set_user_response_keys)
       (Some (dec_struct mailbox_settings_fields)) zero_mailbox_settings))"

text \<open>The resource of a user, with what the service says of the mailbox if that is asked for.\<close>

definition expected_user ::
  "env \<Rightarrow> (string \<Rightarrow> response) \<Rightarrow> string \<Rightarrow> connector \<Rightarrow> resource_id option \<Rightarrow> user \<Rightarrow> resource outcome" where
  "expected_user env site tok conn parent u =
     user_resource env u parent
       (if conn_mailbox_settings conn then [with_account_type (user_account_type (known_purpose env site tok u))] else [])"

lemma mailbox_purpose_stable:
  assumes "stable_env env site tok" and "cache_agrees site w"
  shows "\<exists>w'. mailbox_purpose env u w = (Ok (known_purpose env site tok u), w') \<and> cache_agrees site w'"
  using query_answered [OF assms, of graph_read_scopes
      "build_url (path_join [''users'', usr_id u, ''mailboxSettings'']) set_user_response_keys"
      "Some (dec_struct mailbox_settings_fields)" zero_mailbox_settings]
  by (elim exE) (simp add: mailbox_purpose_def known_purpose_def split: prod.split)

lemma users_with_mailboxes_stable:
  assumes "stable_env env site tok" and "conn_mailbox_settings conn"
  shows "cache_agrees site w \<Longrightarrow> \<forall>u\<in>set us. is_Ok (expected_user env site tok conn parent u) \<Longrightarrow>
    \<exists>w'. users_with_mailboxes env parent (map Some us) w =
      (Ok (map (\<lambda>u. the_ok (expected_user env site tok conn parent u)) us), w') \<and> cache_agrees site w'"
proof (induction us arbitrary: w)
  case (Cons u us)
  obtain w1 where m: "mailbox_purpose env u w = (Ok (known_purpose env site tok u), w1)" "cache_agrees site w1"
    using mailbox_purpose_stable [OF assms(1) Cons.prems(1)] by blast
  obtain w' where rest: "users_with_mailboxes env parent (map Some us) w1 =
      (Ok (map (\<lambda>u. the_ok (expected_user env site tok conn parent u)) us), w')" "cache_agrees site w'"
    using Cons.IH [OF m(2)] Cons.prems(2) by auto
  have "user_resource env u parent [with_account_type (user_account_type (known_purpose env site tok u))] =
      Ok (the_ok (expected_user env site tok conn parent u))"
    using is_Ok_the_ok [of "expected_user env site tok conn parent u"] Cons.prems(2) assms(2) by (simp add: expected_user_def)
  with m rest show ?case by (simp add: bind_io_def return_io_def lift_io_def)
qed (simp add: return_io_def)

lemma makes_pure:
  assumes "\<And>p. p \<in> set ps \<Longrightarrow> m p = lift_io (Ok (f p))"
  shows "makes env site dec m f (set ps) (\<lambda>_. cache_agrees site)"
  using assms by (simp add: makes_def lift_io_def)

lemma users_make:
  assumes "stable_env env site tok" and "\<And>p. p \<in> set ps \<Longrightarrow> no_nulls p"
    and "\<forall>u\<in>set (entries ps). is_Ok (expected_user env site tok conn parent u)"
  shows "makes env site dec_users_list (users_body (env, conn, parent) :: user graph_list \<Rightarrow> ('z world_scheme, resource list) io)
    (\<lambda>p. map (\<lambda>u. the_ok (expected_user env site tok conn parent u)) (map the (gl_value p))) (set ps)
    (\<lambda>_. cache_agrees site)"
proof -
  have ok: "\<forall>u\<in>set (map the (gl_value p)). is_Ok (expected_user env site tok conn parent u)" if "p \<in> set ps" for p
    using assms(3) that by (auto simp: entries_def)
  have "\<exists>w'. users_body (env, conn, parent) p w =
      (Ok (map (\<lambda>u. the_ok (expected_user env site tok conn parent u)) (map the (gl_value p))), w') \<and> cache_agrees site w'"
    if "p \<in> set ps" "cache_agrees site w" for p and w :: "'z world_scheme"
  proof (cases "conn_mailbox_settings conn")
    case True
    with users_with_mailboxes_stable [OF assms(1) True that(2) ok [OF that(1)]] show ?thesis
      unfolding no_nulls_values [OF assms(2) [OF that(1)], symmetric] by (simp add: users_body_def)
  next
    case False
    with convert_page [OF assms(2) [OF that(1)] ok [OF that(1)]] that(2) show ?thesis
      by (simp add: users_body_def expected_user_def lift_io_def)
  qed
  then show ?thesis by (simp add: makes_def)
qed


definition one_page :: "'a \<Rightarrow> 'a graph_list" where
  "one_page x = zero_graph_list\<lparr>gl_value := [Some x]\<rparr>"

definition one_json :: json where
  "one_json = JObj [(''value'', JArr [JObj [(''id'', JStr ''x1'')]])]"

lemma one_page_facts [simp]:
  "no_nulls (one_page x)" "gl_next_link (one_page x) = []" "entries [one_page x] = [x]" "gl_value (one_page x) = [Some x]"
  by (simp_all add: one_page_def no_nulls_def zero_graph_list_def)

lemma one_pages_decoded:
  "dec_users_list zero_graph_list one_json = (one_page (zero_user\<lparr>usr_id := ''x1''\<rparr>), None)"
  "dec_groups_list zero_graph_list one_json = (one_page (zero_group\<lparr>grp_id := ''x1''\<rparr>), None)"
  "dec_service_principals_list zero_graph_list one_json = (one_page (zero_service_principal\<lparr>spn_id := ''x1''\<rparr>), None)"
  by code_simp+

lemma one_json_ok: "json_ok one_json"
  by code_simp

lemma one_chain:
  assumes "dec zero_graph_list one_json = (one_page x, None)" and "url_parse u = Inr (graph_address p q)"
  shows "list_chain (answering 200 (json_print one_json)) (\<lambda>_. json_response 200 (json_print one_json)) ''t'' dec u [one_page x]"
  using json_expected [OF assms(2) one_json_ok, of dec, OF assms(1)] by simp

lemma list_addresses:
  "url_parse (build_url ''users'' v) = Inr (graph_address ''v1.0/users'' v)"
  "url_parse (build_url ''groups'' v) = Inr (graph_address ''v1.0/groups'' v)"
  "url_parse (build_url ''servicePrincipals'' v) = Inr (graph_address ''v1.0/servicePrincipals'' v)"
proof -
  have j: "path_join [''users''] = ''users''" "path_join [''groups''] = ''groups''"
      "path_join [''servicePrincipals''] = ''servicePrincipals''"
    by code_simp+
  show "url_parse (build_url ''users'' v) = Inr (graph_address ''v1.0/users'' v)"
    using graph_url_plain [of api_version "[''users'']" v] unfolding j
    by (simp add: build_url_def plain_segment_def api_version_def)
  show "url_parse (build_url ''groups'' v) = Inr (graph_address ''v1.0/groups'' v)"
    using graph_url_plain [of api_version "[''groups'']" v] unfolding j
    by (simp add: build_url_def plain_segment_def api_version_def)
  show "url_parse (build_url ''servicePrincipals'' v) = Inr (graph_address ''v1.0/servicePrincipals'' v)"
    using graph_url_plain [of api_version "[''servicePrincipals'']" v] unfolding j
    by (simp add: build_url_def plain_segment_def api_version_def)
qed

lemma one_resources:
  "is_Ok (user_resource (answering 200 b) (zero_user\<lparr>usr_id := ''x1''\<rparr>) None [])"
  "is_Ok (group_resource (zero_group\<lparr>grp_id := ''x1''\<rparr>) None)"
  "is_Ok (managed_identity_resource (zero_service_principal\<lparr>spn_id := ''x1''\<rparr>) None)"
  by code_simp+


section \<open>All enterprise applications\<close>

definition owned_pages :: "connector \<Rightarrow> service_principal graph_list list \<Rightarrow> service_principal list" where
  "owned_pages conn ps = concat (map (\<lambda>p. owned conn (gl_value p)) ps)"

interpretation app_cache_kept: graph_reader "\<lambda>w w' :: 'z builders_scheme. app_cache w' = app_cache w" "[]"
  by unfold_locales (simp_all add: log_event_def)

lemma app_caches_append: "app_caches (xs @ ys) m = app_caches ys (app_caches xs m)"
  by (induction xs arbitrary: m) simp_all

lemma apps_make:
  fixes m :: "string \<Rightarrow> service_principal option"
  assumes "stable_env env site tok" and "\<And>p. p \<in> set ps \<Longrightarrow> no_nulls p"
    and "\<forall>sp\<in>set (owned_pages conn ps). is_Ok (enterprise_application_resource sp parent)"
  shows "makes env site dec_service_principals_list
    (apps_body (env, conn, parent) :: service_principal graph_list \<Rightarrow> ('z builders_scheme, resource list) io)
    (\<lambda>p. map (\<lambda>sp. the_ok (enterprise_application_resource sp parent)) (owned conn (gl_value p))) (set ps)
    (\<lambda>xs w. cache_agrees site w \<and> app_cache w = app_caches (owned_pages conn xs) m)"
proof -
  have "apps_body (env, conn, parent) p w = (Ok (map (\<lambda>sp. the_ok (enterprise_application_resource sp parent)) (owned conn (gl_value p))),
      w\<lparr>app_cache := app_caches (owned conn (gl_value p)) (app_cache w)\<rparr>)"
    if "p \<in> set ps" for p and w :: "'z builders_scheme"
  proof -
    have "None \<notin> set (gl_value p)" using assms(2) [OF that] by (simp add: no_nulls_def)
    note c = collect_owned_eq [OF this, of conn w]
    have "convert_all (\<lambda>app. enterprise_application_resource app parent) (owned conn (gl_value p)) =
        Ok (map (\<lambda>sp. the_ok (enterprise_application_resource sp parent)) (owned conn (gl_value p)))"
      by (rule convert_all_total) (use assms(3) that in \<open>auto simp: owned_pages_def intro: is_Ok_the_ok\<close>)
    with c show ?thesis by (simp add: apps_body_def bind_io_def lift_io_def)
  qed
  moreover have "app_cache w' = app_cache w"
    if "query env graph_read_scopes ''GET'' u NoBody (Some dec_service_principals_list) zero_graph_list w = (y, w')"
    for u y and w w' :: "'z builders_scheme"
    by (rule app_cache_kept.query_get [OF that])
  ultimately show ?thesis
    by (simp add: makes_def cache_agrees_def owned_pages_def app_caches_append)
qed

text \<open>
  C13: all owned applications are listed and stay cached. Against a service that answers
  stably, following the tokens of \<open>List\<close> from the empty one to the last gives one resource
  for every application that an organization of the connector owns, on any page, in order,
  and for no other; afterwards the cache has each of them under its id, so that its
  entitlements and grants can be asked for, and besides only what it had before.
\<close>

theorem apps_sync_keeps_owned:
  fixes w :: "'z builders_scheme"
  assumes "stable_env env site tok" and "cache_agrees site w" and "length ps \<le> n"
    and "list_chain env site tok dec_service_principals_list enterprise_apps_url ps"
    and "\<forall>sp\<in>set (owned_pages conn ps). is_Ok (enterprise_application_resource sp parent)"
  shows "\<exists>rs w'. sync_pages n (enterprise_apps_list env conn parent) [] w = (Ok rs, w') \<and>
    list_all2 (\<lambda>sp r. enterprise_application_resource sp parent = Ok r) (owned_pages conn ps) rs \<and>
    app_cache w' = app_caches (owned_pages conn ps) (app_cache w) \<and>
    (\<forall>r\<in>set rs. \<exists>sp\<in>set (owned_pages conn ps). app_cache w' (rid_resource (res_id r)) = Some sp)"
proof -
  let ?c = "(env, conn, parent)" and ?f = "\<lambda>sp. the_ok (enterprise_application_resource sp parent)"
  have s: "stable_env (fst ?c) site tok" using assms(1) by simp
  have m: "makes (fst ?c) site dec_service_principals_list (apps_body ?c) (\<lambda>p. map ?f (owned conn (gl_value p))) (set ps)
      (\<lambda>xs v. cache_agrees site v \<and> app_cache v = app_caches (owned_pages conn xs) (app_cache w))"
    using apps_make [OF assms(1) list_chain_no_nulls [OF assms(4)] assms(5)] by simp
  have l: "list_call enterprise_apps_list ?c = enterprise_apps_list env conn parent" by (simp add: list_call_def [abs_def])
  have p0: "cache_agrees site w \<and> app_cache w = app_caches (owned_pages conn []) (app_cache w)"
    using assms(2) by (simp add: owned_pages_def)
  have cc: "concat (map (\<lambda>p. map ?f (owned conn (gl_value p))) ps) = map ?f (owned_pages conn ps)"
    by (simp add: owned_pages_def map_concat comp_def)
  from assms(4) have ch: "list_chain (fst ?c) site tok dec_service_principals_list enterprise_apps_url ps" by simp
  obtain w' where w': "sync_pages n (enterprise_apps_list env conn parent) [] w = (Ok (map ?f (owned_pages conn ps)), w')"
      "app_cache w' = app_caches (owned_pages conn ps) (app_cache w)"
    using apps.sync_list [OF s m p0 ch assms(3)] unfolding l cc by (elim exE conjE) (rule that)
  have "\<exists>sp'\<in>set (owned_pages conn ps). app_cache w' (rid_resource (res_id (?f sp))) = Some sp'"
    if "sp \<in> set (owned_pages conn ps)" for sp
  proof -
    have "rid_resource (res_id (?f sp)) = spn_id sp"
      by (rule app_resource_id, rule is_Ok_the_ok) (use assms(5) that in blast)
    with app_caches_member [OF that, of "app_cache w"] show ?thesis by (auto simp: w'(2))
  qed
  with w' all_made [OF assms(5)] show ?thesis by auto
qed

theorem apps_sync_keeps_owned_witness:
  "\<exists>r w'. sync_pages 2 (enterprise_apps_list apps_env plain_conn None) [] start_world = (Ok [r], w') \<and>
    app_cache w' = [''a1'' \<mapsto> app_of ''a1'' ''org'']"
proof -
  let ?site = "\<lambda>_. json_response 200 (json_print apps_json)"
  have o: "owned_pages plain_conn [apps_page] = [app_of ''a1'' ''org'']" by (simp add: owned_pages_def apps_owned)
  have ok: "json_ok apps_json" by code_simp
  have c: "list_chain (answering 200 (json_print apps_json)) ?site ''t'' dec_service_principals_list enterprise_apps_url [apps_page]"
    using json_expected [where dec = dec_service_principals_list, OF enterprise_apps_address ok apps_page_decoded]
    by (simp add: no_nulls_def apps_owned) (simp add: apps_page_def zero_graph_list_def)
  have r: "\<forall>sp\<in>set (owned_pages plain_conn [apps_page]). is_Ok (enterprise_application_resource sp None)"
    using app_resource_ok by (simp add: o is_Ok_iff)
  have "length [apps_page] \<le> 2" by simp
  from apps_sync_keeps_owned [OF answering_stable this c r] obtain rs w' where
    "sync_pages 2 (enterprise_apps_list (answering 200 (json_print apps_json)) plain_conn None) [] start_world = (Ok rs, w')"
    "list_all2 (\<lambda>sp r. enterprise_application_resource sp None = Ok r) [app_of ''a1'' ''org''] rs"
    "app_cache w' = app_caches [app_of ''a1'' ''org''] (app_cache start_world)"
    unfolding o by (elim exE conjE) (rule that)
  then show ?thesis unfolding apps_env_def by (auto simp: list_all2_Cons1 app_of_def start_world_def)
qed

end
