(* ===== verification/Role_Grants.thy ===== *)
theory Role_Grants
  imports Role_Provisioning
begin

text \<open>
  The grants of roles. The first call for a subscription reads all pages of its role
  assignments into the cache; the grants are the cached assignments of the role, with the
  principal's kind asked from Graph.
\<close>

section \<open>Filling the cache\<close>

definition cached :: "string \<Rightarrow> 'z builders_scheme \<Rightarrow> role_assignment list" where
  "cached s w = (case role_cache_get s w of None \<Rightarrow> [] | Some as \<Rightarrow> as)"

lemma cache_page_eq: "cache_page s u vs w = (Ok (Continue ()), role_cache_set s (cached s w @ vs) w)"
  by (simp add: cache_page_def cached_def)

lemma cached_simps [simp]:
  "cached s (role_cache_set s as w) = as" "cached s (log_events es w) = cached s w"
  "role_cache_set s as (role_cache_set s bs w) = role_cache_set s as w"
  "role_cache_set s as (log_events es w) = log_events es (role_cache_set s as w)"
  "role_cache (role_cache_set s as w) = (role_cache w)(s \<mapsto> as)"
  "history (role_cache_set s as w) = history w" "http_cache (role_cache_set s as w) = http_cache w"
  by (simp_all add: cached_def role_cache_get_def role_cache_set_def log_events_def)

text \<open>A service whose pages after \<open>ps\<close> are not to be had.\<close>

fun fails_from ::
  "(history \<Rightarrow> string option \<Rightarrow> error + 'a arm_page) \<Rightarrow> string option \<Rightarrow> 'a arm_page list \<Rightarrow> error \<Rightarrow> bool"
where
  "fails_from f cur [] e \<longleftrightarrow> (\<forall>h. f h cur = Inl e)"
| "fails_from f cur (p # ps) e \<longleftrightarrow> (\<forall>h. f h cur = Inr p) \<and> page_more p \<and> fails_from f (page_next p) ps e"

lemma cache_loop_served:
  assumes "serves_from f cur ps" and "length ps \<le> n"
  shows "pager_loop n (arm_fetch l f) (cache_page s) (\<lambda>u. u) cur () w =
    (Ok (), log_events (page_events l cur ps) (role_cache_set s (cached s w @ concat (map page_value ps)) w))"
  using assms
proof (induction ps arbitrary: n cur w)
  case (Cons p ps)
  then obtain m where n: "n = Suc m" by (cases n) auto
  have served: "\<forall>h. f h cur = Inr p" and more: "page_more p \<longleftrightarrow> ps \<noteq> []"
    using Cons.prems(1) by (cases ps; simp)+
  show ?case
  proof (cases ps)
    case Nil
    with served more show ?thesis
      by (simp add: n bind_io_def arm_fetch_def cache_page_eq return_io_def)
  next
    case (Cons q qs)
    with Cons.prems(1) have "serves_from f (page_next p) ps" by simp
    from Cons.IH [OF this] Cons.prems(2) n served more Cons show ?thesis
      by (simp add: bind_io_def arm_fetch_def cache_page_eq)
  qed
qed simp

lemma cache_loop_failed:
  assumes "fails_from f cur ps e" and "length ps < n"
  shows "\<exists>es. pager_loop n (arm_fetch l f) (cache_page s) (\<lambda>u. u) cur () w =
    (Err e, log_events es (if ps = [] then w else role_cache_set s (cached s w @ concat (map page_value ps)) w))"
  using assms
proof (induction ps arbitrary: n cur w)
  case Nil
  then obtain m where n: "n = Suc m" by (cases n) auto
  from Nil show ?case
    by (intro exI [of _ "[ArmPage l cur]"]) (simp add: n bind_io_def arm_fetch_def)
next
  case (Cons p ps)
  then obtain m where n: "n = Suc m" by (cases n) auto
  let ?w = "log_events [ArmPage l cur] (role_cache_set s (cached s w @ page_value p) w)"
  obtain es where "pager_loop m (arm_fetch l f) (cache_page s) (\<lambda>u. u) (page_next p) () ?w =
      (Err e, log_events es (if ps = [] then ?w
        else role_cache_set s (cached s ?w @ concat (map page_value ps)) ?w))"
    using Cons.IH [of "page_next p" m ?w] Cons.prems n by auto
  moreover have "arm_fetch l f cur w = (Ok p, log_events [ArmPage l cur] w)"
    using Cons.prems(1) by (simp add: arm_fetch_def)
  moreover have "cache_page s () (page_value p) (log_events [ArmPage l cur] w) = (Ok (Continue ()), ?w)"
    by (simp add: cache_page_eq)
  ultimately show ?case
    using Cons.prems(1) by (intro exI [of _ "ArmPage l cur # es"]) (simp add: n bind_io_def)
qed

lemma cache_role_assignments_miss:
  assumes "role_cache w s = None" and "env_arm_client env = None"
  shows "cache_role_assignments env s w =
    pager_loop (env_max_pages env) (arm_fetch (ListRoleAssignments s) (env_role_assignments env s))
      (cache_page s) (\<lambda>u. u) None () w" and "cached s w = []"
  using assms
  by (simp_all add: cache_role_assignments_def role_cache_get_def new_arm_client_def cached_def)

lemma cache_filled:
  assumes "role_cache w s = None" and "env_arm_client env = None"
    and "serves_from (env_role_assignments env s) None ps" and "length ps \<le> env_max_pages env"
  shows "cache_role_assignments env s w =
    (Ok (), log_events (page_events (ListRoleAssignments s) None ps)
       (role_cache_set s (concat (map page_value ps)) w))"
  using cache_loop_served [OF assms(3,4), of "ListRoleAssignments s" s w] cache_role_assignments_miss [OF assms(1,2)] by simp

lemma roles_grants_hit:
  assumes "role_key r = (s, n)" and "cache_role_assignments env s w = (Ok (), w1)" and "role_cache w1 s = Some as"
  shows "roles_grants env r token w =
    bind_io (grants_of_assignments env r (role_definition_id s n) [] as) (\<lambda>rv. return_io (rv, [])) w1"
  using assms by (simp add: roles_grants_def bind_io_def [of "cache_role_assignments env s"] role_cache_get_def Let_def)

text \<open>
  C23: a role cache that was filled half stays half. When the service fails after some
  pages, the call reports the error but the assignments of those pages stay in the cache,
  and every later call takes them for all there are: it asks for nothing more, whatever the
  service could answer by then.
\<close>

theorem partial_role_cache_stays:
  assumes "role_cache w s = None" and "env_arm_client env = None"
    and "fails_from (env_role_assignments env s) None ps e" and "ps \<noteq> []"
    and "length ps < env_max_pages env"
  shows "\<exists>w'. cache_role_assignments env s w = (Err e, w') \<and>
    (\<forall>env' r token n. role_key r = (s, n) \<longrightarrow> roles_grants env' r token w' =
      bind_io (grants_of_assignments env' r (role_definition_id s n) [] (concat (map page_value ps)))
        (\<lambda>rv. return_io (rv, [])) w')"
proof -
  obtain es where c: "cache_role_assignments env s w =
      (Err e, log_events es (role_cache_set s (concat (map page_value ps)) w))"
    using cache_loop_failed [OF assms(3,5), of "ListRoleAssignments s" s w] cache_role_assignments_miss [OF assms(1,2)] assms(4) by auto
  show ?thesis
    by (rule exI, rule conjI, rule c)
      (simp add: roles_grants_hit [OF _ cache_role_assignments_hit])
qed

text \<open>One page, and then nothing.\<close>

definition failing_pages :: "role_assignment arm_page list" where
  "failing_pages = [\<lparr>page_value = [assignment_of ''a'' ''p1'' ''rd''], page_next = Some ''n''\<rparr>]"

definition failing_env :: env where
  "failing_env = arm_env\<lparr>env_role_assignments := \<lambda>_ _ cur.
     if cur = None then Inr (hd failing_pages) else Inl (ErrText ''gone'')\<rparr>"

theorem partial_role_cache_stays_witness:
  "\<exists>w'. cache_role_assignments failing_env ''s1'' start_world = (Err (ErrText ''gone''), w') \<and>
    (\<forall>env' r token n. role_key r = (''s1'', n) \<longrightarrow> roles_grants env' r token w' =
      bind_io (grants_of_assignments env' r (role_definition_id ''s1'' n) [] (concat (map page_value failing_pages)))
        (\<lambda>rv. return_io (rv, [])) w')"
  by (rule partial_role_cache_stays)
    (simp_all add: start_world_def failing_env_def arm_env_def quiet_env_def failing_pages_def page_more_def)

section \<open>The kind of a principal\<close>

text \<open>The kind Graph's answer tells: for a service principal, which kind of those it is.\<close>

fun told_kind :: "json_map \<Rightarrow> string option" where
  "told_kind m =
     (case map_of m ''@odata.type'' of
        Some (JStr t) \<Rightarrow>
          (if t \<noteq> ''#microsoft.graph.servicePrincipal'' then Some t
           else (case map_of m ''servicePrincipalType'' of Some (JStr k) \<Rightarrow> Some k | _ \<Rightarrow> None))
      | _ \<Rightarrow> None)"

lemma principal_answer_told: "principal_answer m = told_kind m"
  by (auto simp: principal_answer_def string_member_def split: option.splits json.splits)

text \<open>What the requests of \<open>getPrincipalType\<close> find against a service that does not change.\<close>

fun expected_principal ::
  "env \<Rightarrow> (string \<Rightarrow> response) \<Rightarrow> string \<Rightarrow> string \<Rightarrow> json_map \<Rightarrow> string list \<Rightarrow> error + string"
where
  "expected_principal env site tok pid data [] = Inr []"
| "expected_principal env site tok pid data (ep # eps) =
     (case expected_answer env site tok (build_url (ep @ ''/'' @ pid) []) (Some dec_map) data of
        (Some e, data') \<Rightarrow> Inl e
      | (None, data') \<Rightarrow>
          (case told_kind data' of
             Some t \<Rightarrow> Inr t
           | None \<Rightarrow> expected_principal env site tok pid data' eps))"

definition principal_kind :: "env \<Rightarrow> (string \<Rightarrow> response) \<Rightarrow> string \<Rightarrow> string \<Rightarrow> error + string" where
  "principal_kind env site tok pid =
     expected_principal env site tok pid [] [''directoryObjects'', ''users'', ''groups'', ''servicePrincipals'']"

lemma principal_loop_stable:
  assumes "stable_env env site tok" and "cache_agrees site w"
  shows "\<exists>w'. principal_type_loop env pid data eps w = (of_sum (expected_principal env site tok pid data eps), w')
    \<and> cache_agrees site w'"
  using assms(2)
proof (induction eps arbitrary: data w)
  case (Cons ep eps)
  obtain w1 where q: "query env graph_read_scopes ''GET'' (build_url (ep @ ''/'' @ pid) []) NoBody (Some dec_map) data w =
      (expected_answer env site tok (build_url (ep @ ''/'' @ pid) []) (Some dec_map) data, w1)"
    and w1: "cache_agrees site w1"
    using query_answered [OF assms(1) Cons.prems, of graph_read_scopes
        "build_url (ep @ ''/'' @ pid) []" "Some dec_map" data]
    by (elim exE conjE) (rule that)
  obtain x data' where a: "expected_answer env site tok (build_url (ep @ ''/'' @ pid) []) (Some dec_map) data = (x, data')"
    by fastforce
  with q w1 Cons.IH [OF w1, of data'] show ?case
    by (cases x; cases "told_kind data'") (auto simp: principal_answer_told)
qed simp

lemma principal_type_stable:
  "stable_env env site tok \<Longrightarrow> cache_agrees site w \<Longrightarrow>
    \<exists>w'. get_principal_type env pid w = (of_sum (principal_kind env site tok pid), w') \<and> cache_agrees site w'"
  unfolding get_principal_type_def principal_kind_def principal_endpoints_def by (rule principal_loop_stable)

text \<open>
  The types under which principals are synced as holders of roles, by the kind Graph gives
  them. (Groups are given the type of resource groups.)
\<close>

definition synced_type :: "string \<Rightarrow> string option" where
  "synced_type = map_of
     [(''#microsoft.graph.user'', ''user''), (''#microsoft.graph.group'', ''resource_group''),
      (''Application'', ''enterprise_application''), (''ManagedIdentity'', ''managed_identity'')]"

text \<open>The grant of a role to a principal of a kind, written out.\<close>

definition grant_for :: "resource \<Rightarrow> string \<Rightarrow> string \<Rightarrow> grant option" where
  "grant_for r t pid =
     map_option (\<lambda>ty.
       (let i = rid_type (res_id r) @ '':'' @ rid_resource (res_id r) @ '':assigned'' in
        \<lparr>grant_id = i @ '':'' @ ty @ '':'' @ pid, grant_entitlement = bare_entitlement i r,
         grant_principal = bare_resource \<lparr>rid_type = ty, rid_resource = pid\<rparr>, grant_annotations = []\<rparr>))
     (synced_type t)"

text \<open>The role definition and the principal an assignment names.\<close>

definition assigned_pair :: "role_assignment \<Rightarrow> (string \<times> string) option" where
  "assigned_pair a =
     (case ra_properties a of
        None \<Rightarrow> None
      | Some p \<Rightarrow> (case (ap_role_definition_id p, ap_principal_id p) of
          (Some rd, Some pid) \<Rightarrow> Some (rd, pid) | _ \<Rightarrow> None))"

text \<open>
  The grant an assignment gives: None when it is of another role, or its principal fails to
  be read.
\<close>

definition expected_grant ::
  "(string \<Rightarrow> error + string) \<Rightarrow> resource \<Rightarrow> string \<Rightarrow> role_assignment \<Rightarrow> grant option" where
  "expected_grant kind r rd a =
     (case assigned_pair a of
        None \<Rightarrow> None
      | Some (rd', pid) \<Rightarrow>
          (if rd \<noteq> rd' then None
           else case kind pid of Inl e \<Rightarrow> None | Inr t \<Rightarrow> grant_for r t pid))"

text \<open>Every principal of an assignment of the role is of a kind the connector knows, or cannot be read.\<close>

definition known_principals :: "(string \<Rightarrow> error + string) \<Rightarrow> string \<Rightarrow> role_assignment list \<Rightarrow> bool" where
  "known_principals kind rd as \<longleftrightarrow>
     (\<forall>a\<in>set as. \<forall>pid t. assigned_pair a = Some (rd, pid) \<longrightarrow> kind pid = Inr t \<longrightarrow> synced_type t \<noteq> None)"

lemma principal_type_synced: "map_option rty_id (principal_resource_type t) = synced_type t"
  by (simp add: principal_resource_type_def synced_type_def)

lemma new_grant_synced:
  "new_grant r type_assigned (get_principal_id_resource t pid) =
    (case grant_for r t pid of Some g \<Rightarrow> Ok g
     | None \<Rightarrow> Panic (PanicMessage ''principal resource must have a valid resource ID''))"
  by (auto simp: grant_for_def principal_type_synced [symmetric] get_principal_id_resource_def new_grant_def
      new_entitlement_id_def type_constants bare_entitlement_def Let_def split: option.split)

lemma assigned_pair_iff:
  "assigned_pair a = Some (rd, pid) \<longleftrightarrow> assignment_role a = Ok rd \<and> assignment_principal a = Ok pid"
  by (auto simp: assigned_pair_def assignment_role_def assignment_principal_def deref_def split: option.splits)

lemma fold_io_append: "fold_io f s (xs @ ys) w = bind_io (fold_io f s xs) (\<lambda>s'. fold_io f s' ys) w"
proof (induction xs arbitrary: s w)
  case (Cons x xs)
  then show ?case by (simp add: bind_io_def split: prod.split outcome.split)
qed simp

lemma map_filter_concat:
  "List.map_filter f (concat (map g ps)) = concat (map (\<lambda>p. List.map_filter f (g p)) ps)"
  by (induction ps) (simp_all add: List.map_filter_def)

lemma known_principals_append:
  "known_principals kind rd (as @ bs) \<longleftrightarrow> known_principals kind rd as \<and> known_principals kind rd bs"
  unfolding known_principals_def set_append ball_Un ..

lemma known_principals_Cons:
  "known_principals kind rd (a # as) \<longleftrightarrow> known_principals kind rd [a] \<and> known_principals kind rd as"
  using known_principals_append [of kind rd "[a]" as] by simp

lemma grant_of_assignment_stable:
  assumes "stable_env env site tok" and "cache_agrees site w" and "formed a"
    and "known_principals (principal_kind env site tok) rd [a]"
  shows "\<exists>w'. grant_of_assignment env r rd a w = (Ok (expected_grant (principal_kind env site tok) r rd a), w')
    \<and> cache_agrees site w'"
proof -
  obtain rd' pid where a: "assignment_role a = Ok rd'" "assignment_principal a = Ok pid"
    using assms(3) by (auto simp: formed_def is_Ok_iff)
  then have p: "assigned_pair a = Some (rd', pid)" by (simp add: assigned_pair_iff)
  obtain w1 where w1: "get_principal_type env pid w = (of_sum (principal_kind env site tok pid), w1)" "cache_agrees site w1"
    using principal_type_stable [OF assms(1,2)] by blast
  show ?thesis
  proof (cases "rd = rd'")
    case False
    with a p assms(2) show ?thesis by (simp add: grant_of_assignment_def expected_grant_def return_io_def)
  next
    case True
    show ?thesis
    proof (cases "principal_kind env site tok pid")
      case (Inl e)
      with a p w1 True show ?thesis by (simp add: grant_of_assignment_def expected_grant_def)
    next
      case (Inr t)
      with assms(4) p True obtain g where "grant_for r t pid = Some g"
        by (fastforce simp: known_principals_def grant_for_def)
      with a p w1 True Inr show ?thesis
        by (simp add: grant_of_assignment_def expected_grant_def new_grant_synced)
    qed
  qed
qed

lemma grants_of_assignments_stable:
  assumes "stable_env env site tok" and "cache_agrees site w" and "\<forall>a\<in>set as. formed a"
    and "known_principals (principal_kind env site tok) rd as"
  shows "\<exists>w'. grants_of_assignments env r rd rv as w =
      (Ok (rv @ List.map_filter (expected_grant (principal_kind env site tok) r rd) as), w')
    \<and> cache_agrees site w'"
  using assms(2-4)
proof (induction as arbitrary: rv w)
  case Nil
  then show ?case by (simp add: grants_of_assignments_def return_io_def)
next
  case (Cons a as)
  note known = Cons.prems(3) [unfolded known_principals_Cons [of _ _ a as], THEN conjunct1]
    Cons.prems(3) [unfolded known_principals_Cons [of _ _ a as], THEN conjunct2]
  obtain w1 where w1: "grant_of_assignment env r rd a w = (Ok (expected_grant (principal_kind env site tok) r rd a), w1)"
      "cache_agrees site w1"
    using grant_of_assignment_stable [OF assms(1) Cons.prems(1) _ known(1), of r] Cons.prems(2) by auto
  note IH = Cons.IH [OF w1(2) _ known(2)]
  show ?case
    using Cons.prems(2) w1(1) IH [of "case expected_grant (principal_kind env site tok) r rd a of None \<Rightarrow> rv | Some x \<Rightarrow> rv @ [x]"]
    by (cases "expected_grant (principal_kind env site tok) r rd a")
      (auto simp: grants_of_assignments_def bind_io_def return_io_def List.map_filter_simps)
qed

text \<open>
  C2: the grants of a role are exactly its assignments, when the subscription is not cached
  yet and Graph answers stably. The call reads all pages of the subscription's role
  assignments; the grants are, in their order, those whose definition is the role's, each to
  its principal under the type synced for the kind that Graph gives it (groups under
  \<open>resource_group\<close>). Principals whose lookup fails are dropped without an error. There is no
  second page, and the cache then holds all the assignments of the subscription.
\<close>

theorem roles_grants_exact:
  assumes "stable_env env site tok" and "cache_agrees site w" and "role_key r = (s, n)"
    and "role_cache w s = None" and "env_arm_client env = None"
    and "serves_from (env_role_assignments env s) None ps" and "length ps \<le> env_max_pages env"
    and "as = concat (map page_value ps)" and "\<forall>a\<in>set as. formed a"
    and "known_principals (principal_kind env site tok) (role_definition_id s n) as"
  shows "fst (roles_grants env r token w) =
      Ok (List.map_filter (expected_grant (principal_kind env site tok) r (role_definition_id s n)) as, []) \<and>
    role_cache (snd (cache_role_assignments env s w)) s = Some as"
proof -
  let ?w = "log_events (page_events (ListRoleAssignments s) None ps) (role_cache_set s as w)"
  have c: "cache_role_assignments env s w = (Ok (), ?w)"
    using cache_filled [OF assms(4-7)] assms(8) by simp
  have hit: "role_cache ?w s = Some as" by (simp add: log_events_def role_cache_set_def)
  have "cache_agrees site ?w" using assms(2) by (simp add: cache_agrees_def)
  from grants_of_assignments_stable [OF assms(1) this assms(9,10), of r "[]"]
  obtain w' where "grants_of_assignments env r (role_definition_id s n) [] as ?w =
      (Ok (List.map_filter (expected_grant (principal_kind env site tok) r (role_definition_id s n)) as), w')"
    by auto
  then show ?thesis
    using roles_grants_hit [OF assms(3) c hit] c hit by (simp add: bind_io_def return_io_def)
qed

text \<open>A Graph that knows users only, and a subscription with two assignments.\<close>

definition people_site :: "string \<Rightarrow> response" where
  "people_site key = json_response 200 ''{\"@odata.type\":\"#microsoft.graph.user\"}''"

definition people_env :: "role_assignment arm_page list \<Rightarrow> env" where
  "people_env ps = (quiet_env (\<lambda>req. Received (people_site (cache_key req))))\<lparr>
     env_role_assignments := \<lambda>_ _ cur. Inr (ps ! (if cur = None then 0 else 1)),
     env_assignments_for_scope := \<lambda>_ _ _ cur. Inr (ps ! (if cur = None then 0 else 1))\<rparr>"

lemma people_env_facts:
  "stable_env (people_env ps) people_site ''t''" "cache_agrees people_site start_world"
  "env_arm_client (people_env ps) = None" "env_max_pages (people_env ps) = 8"
  by (simp_all add: people_env_def quiet_env_def stable_env_def cache_agrees_def start_world_def)

lemma people_env_serves:
  "serves_from (env_role_assignments (people_env assignment_pages) s) None assignment_pages"
  "serves_from (env_assignments_for_scope (people_env assignment_pages) s scope) None assignment_pages"
  by (simp_all add: people_env_def assignment_pages_def page_more_def)

lemma people_kind: "principal_kind (people_env ps) people_site ''t'' ''p1'' = Inr ''#microsoft.graph.user''"
  "principal_kind (people_env ps) people_site ''t'' ''p2'' = Inr ''#microsoft.graph.user''"
  by code_simp+

definition demo_role_resource :: resource where
  "demo_role_resource = bare_resource \<lparr>rid_type = ''role'', rid_resource = ''r1:s1''\<rparr>"

definition demo_pair_resource :: resource where
  "demo_pair_resource = bare_resource \<lparr>rid_type = ''role_assignment'', rid_resource = ''g1:s1:r1''\<rparr>"

lemma demo_assignments:
  "concat (map page_value assignment_pages) =
    [assignment_of ''a'' ''p2'' (role_definition_id ''s1'' ''r1''), assignment_of ''b'' ''p1'' ''other'',
     assignment_of ''c'' ''p1'' (role_definition_id ''s1'' ''r1'')]"
  by (simp add: assignment_pages_def)

lemma assignment_of_simps [simp]:
  "assignment_role (assignment_of n p r) = Ok r" "assignment_principal (assignment_of n p r) = Ok p"
  "assigned_pair (assignment_of n p r) = Some (r, p)"
  by (simp_all add: assignment_role_def assignment_principal_def assigned_pair_def assignment_of_def)

lemma people_known:
  "known_principals (principal_kind (people_env assignment_pages) people_site ''t'') rd
    (concat (map page_value assignment_pages))"
  by (auto simp: known_principals_def demo_assignments people_kind synced_type_def)

lemma people_expected:
  "List.map_filter (expected_grant (principal_kind (people_env assignment_pages) people_site ''t'') r
      (role_definition_id ''s1'' ''r1'')) (concat (map page_value assignment_pages)) =
    [the (grant_for r ''#microsoft.graph.user'' ''p2''), the (grant_for r ''#microsoft.graph.user'' ''p1'')]"
  by (simp add: demo_assignments List.map_filter_simps expected_grant_def people_kind grant_for_def
      synced_type_def)
    (simp add: role_definition_id_def)

lemma demo_keys:
  "role_key demo_role_resource = (''s1'', ''r1'')" "group_role_key demo_pair_resource = (''s1'', ''g1'', ''r1'')"
  by code_simp+

theorem roles_grants_exact_witness:
  "fst (roles_grants (people_env assignment_pages) demo_role_resource [] start_world) =
    Ok ([the (grant_for demo_role_resource ''#microsoft.graph.user'' ''p2''),
         the (grant_for demo_role_resource ''#microsoft.graph.user'' ''p1'')], [])"
  using roles_grants_exact [OF people_env_facts(1,2) demo_keys(1) _ people_env_facts(3) people_env_serves(1)
      _ HOL.refl assigned_env_facts(4) people_known]
  by (simp add: people_expected people_env_facts(4) start_world_def) (simp add: assignment_pages_def)

section \<open>Principals the connector does not know\<close>

text \<open>
  C26: one principal the connector does not know ends the grants of its role with a panic.
  When Graph says that the principal of an assignment of the role is of another kind (a
  device, a directory role, or nothing that any of the four endpoints could tell), all the
  grants are lost with it, those before it too.
\<close>

theorem unknown_principal_panics:
  assumes "stable_env env site tok" and "cache_agrees site w" and "role_key r = (s, n)"
    and "role_cache w s = Some (as @ a # bs)" and "\<forall>x\<in>set as. formed x"
    and "known_principals (principal_kind env site tok) (role_definition_id s n) as"
    and "assignment_role a = Ok (role_definition_id s n)" and "assignment_principal a = Ok pid"
    and "principal_kind env site tok pid = Inr t"
    and "t \<notin> {''#microsoft.graph.user'', ''#microsoft.graph.group'', ''Application'', ''ManagedIdentity''}"
  shows "\<exists>p. fst (roles_grants env r token w) = Panic p"
proof -
  let ?rd = "role_definition_id s n"
  obtain w1 where w1: "grants_of_assignments env r ?rd [] as w =
      (Ok (List.map_filter (expected_grant (principal_kind env site tok) r ?rd) as), w1)" "cache_agrees site w1"
    using grants_of_assignments_stable [OF assms(1,2,5,6), of r "[]"] by auto
  obtain w2 where w2: "get_principal_type env pid w1 = (Ok t, w2)"
    using principal_type_stable [OF assms(1) w1(2), of pid] assms(9) by auto
  have "principal_resource_type t = None" using assms(10) by (simp add: principal_resource_type_def)
  then have "grant_of_assignment env r ?rd a w1 = (Panic (PanicMessage ''principal resource must have a valid resource ID''), w2)"
    using assms(7,8) w2 by (simp add: grant_of_assignment_def get_principal_id_resource_def new_grant_def)
  then have "grants_of_assignments env r ?rd [] (as @ a # bs) w =
      (Panic (PanicMessage ''principal resource must have a valid resource ID''), w2)"
    using w1(1) by (simp add: grants_of_assignments_def fold_io_append bind_io_def)
  then show ?thesis
    using roles_grants_hit [OF assms(3) cache_role_assignments_hit [OF assms(4)] assms(4)]
    by (simp add: bind_io_def)
qed

definition device_site :: "string \<Rightarrow> response" where
  "device_site key = json_response 200 ''{\"@odata.type\":\"#microsoft.graph.device\"}''"

definition device_env :: env where
  "device_env = quiet_env (\<lambda>req. Received (device_site (cache_key req)))"

definition assigned_world :: builders where
  "assigned_world = start_world\<lparr>role_cache := [''s1'' \<mapsto> [assignment_of ''a'' ''p1'' (role_definition_id ''s1'' ''r1'')]]\<rparr>"

lemma device_env_facts:
  "stable_env device_env device_site ''t''" "cache_agrees device_site assigned_world"
  "principal_kind device_env device_site ''t'' ''p1'' = Inr ''#microsoft.graph.device''"
  "role_cache assigned_world ''s1'' = Some ([] @ assignment_of ''a'' ''p1'' (role_definition_id ''s1'' ''r1'') # [])"
proof -
  show "principal_kind device_env device_site ''t'' ''p1'' = Inr ''#microsoft.graph.device''" by code_simp
qed (simp_all add: device_env_def quiet_env_def stable_env_def cache_agrees_def assigned_world_def start_world_def)

theorem unknown_principal_panics_witness:
  "\<exists>p. fst (roles_grants device_env demo_role_resource [] assigned_world) = Panic p"
  by (rule unknown_principal_panics [OF device_env_facts(1,2) demo_keys(1) device_env_facts(4) _ _ _ _
        device_env_facts(3)])
    (simp_all add: known_principals_def)

section \<open>How often Graph is asked\<close>

definition asks_endpoint :: "string \<Rightarrow> request \<Rightarrow> bool" where
  "asks_endpoint pid req \<longleftrightarrow> req_method req = ''GET'' \<and>
     (\<exists>ep\<in>set principal_endpoints. \<exists>a tok. url_parse (build_url (ep @ ''/'' @ pid) []) = Inr a \<and>
        new_request ''GET'' a tok NoBody = Inr req)"

lemma principal_loop_requests:
  assumes "principal_type_loop env pid data eps w = (x, w')" and "set eps \<subseteq> set principal_endpoints"
  shows "\<exists>es. history w' = history w @ es \<and> length (requests_in es) \<le> length eps \<and>
    list_all (asks_endpoint pid) (requests_in es)"
  using assms
proof (induction eps arbitrary: data w)
  case (Cons ep eps)
  obtain y w1 where q: "query env graph_read_scopes ''GET'' (build_url (ep @ ''/'' @ pid) []) NoBody (Some dec_map) data w
      = (y, w1)" by fastforce
  obtain es where es: "history w1 = history w @ TokenRequest graph_read_scopes # es" and
    sent: "es = [] \<or> (\<exists>a tok req. url_parse (build_url (ep @ ''/'' @ pid) []) = Inr a \<and>
      new_request ''GET'' a tok NoBody = Inr req \<and> es = [HttpEvent req])"
    using query_history [OF q] by blast
  have asked: "length (requests_in es) \<le> 1 \<and> list_all (asks_endpoint pid) (requests_in es)"
    using sent
  proof (elim disjE exE conjE)
    fix a tok req
    assume r: "url_parse (build_url (ep @ ''/'' @ pid) []) = Inr a" "new_request ''GET'' a tok NoBody = Inr req"
      "es = [HttpEvent req]"
    have "asks_endpoint pid req"
      unfolding asks_endpoint_def using r(1,2) Cons.prems(2) new_request_body [OF r(2)] by auto
    with r(3) show ?thesis by simp
  qed simp
  show ?case
  proof (cases "w' = w1")
    case True
    with es asked show ?thesis by (intro exI [of _ "TokenRequest graph_read_scopes # es"]) auto
  next
    case False
    obtain d where "principal_type_loop env pid d eps w1 = (x, w')"
      using Cons.prems(1) q False by (cases y; cases "fst y") (auto split: option.splits)
    from Cons.IH [OF this] Cons.prems(2) obtain fs where "history w' = history w1 @ fs"
      "length (requests_in fs) \<le> length eps" "list_all (asks_endpoint pid) (requests_in fs)" by auto
    with es asked show ?thesis
      by (intro exI [of _ "TokenRequest graph_read_scopes # es @ fs"]) auto
  qed
qed (auto intro: exI [of _ "[]"])

text \<open>
  C36: finding out what a principal is takes at most one request for each of the four
  endpoints, and every request is a GET of the principal at one of them.
\<close>

theorem principal_lookup_bounded:
  "length (sent w (snd (get_principal_type env pid w))) \<le> 4 \<and>
   list_all (asks_endpoint pid) (sent w (snd (get_principal_type env pid w)))"
proof -
  obtain x w' where x: "get_principal_type env pid w = (x, w')" by fastforce
  from principal_loop_requests [OF this [unfolded get_principal_type_def]]
  obtain es where "history w' = history w @ es" "length (requests_in es) \<le> length principal_endpoints"
    "list_all (asks_endpoint pid) (requests_in es)" by auto
  with x show ?thesis by (simp add: sent_def new_events_def principal_endpoints_def)
qed

section \<open>Resource groups\<close>

lemma assignments_loop_stable:
  fixes w :: "'z world_scheme"
  assumes "stable_env env site tok" and "cache_agrees site w"
    and "serves_from f cur ps" and "length ps \<le> n"
    and "\<forall>a\<in>set (concat (map page_value ps)). formed a"
    and "known_principals (principal_kind env site tok) rd (concat (map page_value ps))"
  shows "\<exists>w'. pager_loop n (arm_fetch l f)
      (\<lambda>rv as. bind_io (grants_of_assignments env r rd rv as) (\<lambda>rv'. return_io (Continue rv')))
      (\<lambda>rv. rv) cur rv w =
    (Ok (rv @ List.map_filter (expected_grant (principal_kind env site tok) r rd) (concat (map page_value ps))), w')"
proof -
  let ?x = "List.map_filter (expected_grant (principal_kind env site tok) r rd)"
  have "\<exists>w'. pager_loop n (arm_fetch l f)
      (\<lambda>rv as. bind_io (grants_of_assignments env r rd rv as) (\<lambda>rv'. return_io (Continue rv')))
      (\<lambda>rv. rv) cur rv w = (Ok (rv @ concat (map (\<lambda>p. ?x (page_value p)) ps)), w') \<and> cache_agrees site w'"
  proof (rule pager_loop_collect [where I = "cache_agrees site" and F = ?x, OF assms(3,4,2)])
    fix p rv and w :: "'z world_scheme"
    assume p: "p \<in> set ps" and "cache_agrees site w"
    moreover have "known_principals (principal_kind env site tok) rd (page_value p)"
      using assms(6) p unfolding known_principals_def by (simp only: set_concat set_map UN_iff) blast
    ultimately show "\<exists>w'. bind_io (grants_of_assignments env r rd rv (page_value p)) (\<lambda>rv'. return_io (Continue rv')) w =
        (Ok (Continue (rv @ ?x (page_value p))), w') \<and> cache_agrees site w'"
      using grants_of_assignments_stable [OF assms(1), of w "page_value p" rd r rv] assms(5)
      by (auto simp: bind_io_def return_io_def)
  qed simp
  then show ?thesis by (auto simp: map_filter_concat)
qed

text \<open>
  The grants of a resource group and a role are exactly the assignments of the role at
  the group's scope, over all pages, in their order and under the types Graph gives.
\<close>

theorem group_role_grants_exact:
  assumes "stable_env env site tok" and "cache_agrees site w" and "group_role_key r = (s, g, n)"
    and "env_arm_client env = None"
    and "serves_from (env_assignments_for_scope env s (resource_group_scope s g)) None ps"
    and "length ps \<le> env_max_pages env"
    and "as = concat (map page_value ps)" and "\<forall>a\<in>set as. formed a"
    and "known_principals (principal_kind env site tok) (role_definition_id s n) as"
  shows "fst (role_assignments_grants env r token w) =
    Ok (List.map_filter (expected_grant (principal_kind env site tok) r (role_definition_id s n)) as, [])"
proof -
  obtain w' where "pager_loop (env_max_pages env)
      (arm_fetch (ListAssignmentsForScope s (resource_group_scope s g)) (env_assignments_for_scope env s (resource_group_scope s g)))
      (\<lambda>rv as. bind_io (grants_of_assignments env r (role_definition_id s n) rv as) (\<lambda>rv'. return_io (Continue rv')))
      (\<lambda>rv. rv) None [] w =
    (Ok (List.map_filter (expected_grant (principal_kind env site tok) r (role_definition_id s n)) as), w')"
    using assignments_loop_stable [OF assms(1,2,5,6), of "role_definition_id s n"
        "ListAssignmentsForScope s (resource_group_scope s g)" r "[]"] assms(7-9) by auto
  with assms(3,4) show ?thesis
    by (simp add: role_assignments_grants_def new_arm_client_def bind_io_def return_io_def)
qed

theorem group_role_grants_exact_witness:
  "fst (role_assignments_grants (people_env assignment_pages) demo_pair_resource [] start_world) =
    Ok ([the (grant_for demo_pair_resource ''#microsoft.graph.user'' ''p2''),
         the (grant_for demo_pair_resource ''#microsoft.graph.user'' ''p1'')], [])"
  using group_role_grants_exact [OF people_env_facts(1,2) demo_keys(2) people_env_facts(3) people_env_serves(2)
      _ HOL.refl assigned_env_facts(4) people_known]
  by (simp add: people_expected people_env_facts(4)) (simp add: assignment_pages_def)

end
