(* ===== verification/Grant_Laws.thy ===== *)
theory Grant_Laws
  imports App_Laws Role_Grants
begin

text \<open>
  Grants and entitlements together: what a sync of the grants of a resource returns refers to
  entitlements that the same resource has, and to principals of types the connector serves.
\<close>

section \<open>Groups\<close>

definition relation_states :: "bag \<Rightarrow> bool" where
  "relation_states b \<longleftrightarrow> bag_wf b \<and> (\<forall>s\<in>set (bag_stack b). ps_resource_type_id s \<in> {type_members, type_owners})"

lemma group_grants_origin:
  assumes "get_group_grants ms r ps = Ok gs" and "g \<in> set gs"
  shows "\<exists>gm. group_grant r (ps_resource_type_id ps) gm = Some g"
proof -
  let ?f = "\<lambda>p. bind_outcome (deref p) (\<lambda>gm. Ok (group_grant r (ps_resource_type_id ps) gm))"
  obtain h where h: "\<forall>t\<in>set ms. ?f t = Ok (h t)" "gs = convert h ms"
    using assms(1) by (auto simp: get_group_grants_def convert_err_Ok)
  then obtain t where t: "t \<in> set ms" "h t = Some g"
    using assms(2) by (auto simp: set_convert)
  from h(1) t(1) have "?f t = Ok (h t)" by blast
  with t(2) show ?thesis by (cases t) auto
qed

lemma groups_step_origin:
  assumes "groups_step (env, conn, r) b w = (Ok (xs, nx), w1)" and "relation_states b"
  shows "(\<forall>g\<in>set xs. \<exists>relation\<in>{type_members, type_owners}. \<exists>gm. group_grant r relation gm = Some g) \<and>
    (\<forall>b'. nx = Some b' \<longrightarrow> relation_states b')"
proof -
  obtain ps where ps: "bag_current b = Some ps"
    using assms(1) by (cases "bag_current b") (simp_all add: groups_step_def)
  then have t: "ps_resource_type_id ps \<in> {type_members, type_owners}"
    using assms(2) by (simp add: relation_states_def bag_stack_def)
  obtain e resp w2 where q: "query env graph_read_scopes ''GET'' (ps_token ps) NoBody
      (Some dec_membership_list) zero_graph_list w = ((e, resp), w2)" by (metis prod.collapse)
  obtain tok b' where n: "bag_next_token (trusted_next_link resp) b = (tok, b')" by fastforce
  show ?thesis
  proof (cases e)
    case None
    then obtain gs where gs: "get_group_grants (gl_value resp) r ps = Ok gs" "xs = gs" "nx = next_state b'"
      using assms(1) ps q n by (cases "get_group_grants (gl_value resp) r ps") (auto simp: groups_step_def)
    have "bag_wf b" using assms(2) by (simp add: relation_states_def)
    from bag_next_token_stack [OF this n] have "bag_wf b'" "bag_stack b' = stack_next (trusted_next_link resp) (bag_stack b)"
      by simp_all
    moreover have "bag_stack b = ps # tl (bag_stack b)" using ps by (simp add: bag_stack_def)
    ultimately have "relation_states b'"
      using assms(2) t unfolding relation_states_def
      by (cases "bag_stack b") (auto simp: stack_next_def)
    with gs group_grants_origin [OF gs(1)] t show ?thesis by (auto simp: next_state_def split: if_splits)
  next
    case (Some err)
    with assms(1) ps q show ?thesis by (auto simp: groups_step_def split: if_splits)
  qed
qed

lemma groups_states_origin:
  assumes "state_pages n (groups_step (env, conn, r)) b w = (Ok gs, w')" and "relation_states b" and "g \<in> set gs"
  shows "\<exists>relation\<in>{type_members, type_owners}. \<exists>gm. group_grant r relation gm = Some g"
  using assms
proof (induction n arbitrary: b w gs)
  case (Suc n)
  obtain xs nx w1 where st: "groups_step (env, conn, r) b w = (Ok (xs, nx), w1)"
    and rest: "(case nx of None \<Rightarrow> return_io xs
        | Some s' \<Rightarrow> bind_io (state_pages n (groups_step (env, conn, r)) s') (\<lambda>ys. return_io (xs @ ys))) w1 = (Ok gs, w')"
    using Suc.prems(1) by (auto elim!: bind_io_Ok_E split: prod.splits)
  note step = groups_step_origin [OF st Suc.prems(2)]
  show ?case
  proof (cases nx)
    case None
    with rest step Suc.prems(3) show ?thesis by (auto simp: return_io_def)
  next
    case (Some b')
    with rest obtain ys where ys: "state_pages n (groups_step (env, conn, r)) b' w1 = (Ok ys, w')" "gs = xs @ ys"
      by (auto elim!: bind_io_Ok_E simp: return_io_def)
    with Suc.IH [OF ys(1)] step Some Suc.prems(3) show ?thesis by auto
  qed
qed (simp add: lift_io_def)

section \<open>Every builder\<close>

lemma group_grant_refers:
  assumes "group_grant r relation gm = Some g"
  shows "ent_resource (grant_entitlement g) = r" "ent_id (grant_entitlement g) = ''group:'' @ rid_resource (res_id r) @ '':'' @ relation"
    "rid_type (res_id (grant_principal g)) \<in> {''user'', ''group'', ''enterprise_application'', ''managed_identity''}"
  using assms
  by (auto simp: group_grant_def member_principal_def bare_entitlement_def bare_resource_def resource_type_defs Let_def
      split: option.splits if_splits)

lemma principal_types:
  "get_principal_id_resource t pid = Some p \<Longrightarrow>
    rid_type p \<in> {''user'', ''resource_group'', ''enterprise_application'', ''managed_identity''}"
  by (auto simp: get_principal_id_resource_def principal_resource_type_def resource_type_defs split: if_splits)

lemma assignment_grant_refers:
  assumes "grant_of_assignment env r role_def a w = (Ok (Some g), w')"
  shows "ent_resource (grant_entitlement g) = r \<and> ent_id (grant_entitlement g) = new_entitlement_id r type_assigned \<and>
    rid_type (res_id (grant_principal g)) \<in> {''user'', ''resource_group'', ''enterprise_application'', ''managed_identity''}"
proof -
  obtain t pid where "new_grant r type_assigned (get_principal_id_resource t pid) = Ok g"
    using assms unfolding grant_of_assignment_def
    by (auto elim!: bind_io_Ok_E simp: return_io_def lift_io_def split: if_splits prod.splits outcome.splits)
  then show ?thesis
    using principal_types [of t pid]
    by (cases "get_principal_id_resource t pid") (auto simp: new_grant_def bare_entitlement_def bare_resource_def Let_def)
qed

lemma assignment_grants_refer:
  fixes w :: "'z world_scheme"
  assumes "grants_of_assignments env r role_def acc as w = (Ok gs, w')" and "g \<in> set gs"
  shows "g \<in> set acc \<or> (\<exists>a (v :: 'z world_scheme) v'. grant_of_assignment env r role_def a v = (Ok (Some g), v'))"
  using assms(1)
proof (induction as arbitrary: acc w)
  case Nil
  with assms(2) show ?case by (simp add: grants_of_assignments_def return_io_def)
next
  case (Cons a as)
  obtain x w1 where x: "grant_of_assignment env r role_def a w = (Ok x, w1)"
    and rest: "grants_of_assignments env r role_def (case x of None \<Rightarrow> acc | Some g \<Rightarrow> acc @ [g]) as w1 = (Ok gs, w')"
    using Cons.prems by (auto simp: grants_of_assignments_def return_io_def elim!: bind_io_Ok_E)
  from Cons.IH [OF rest] x show ?case by (cases x) auto
qed

definition refers :: "resource \<Rightarrow> string list \<Rightarrow> string set \<Rightarrow> grant \<Rightarrow> bool" where
  "refers r ids types g \<longleftrightarrow> ent_resource (grant_entitlement g) = r \<and> ent_id (grant_entitlement g) \<in> set ids \<and>
     rid_type (res_id (grant_principal g)) \<in> types"

lemma roles_sync_refers:
  assumes "sync_pages n (roles_grants env r) [] w = (Ok gs, w')" and "g \<in> set gs"
  shows "refers r [new_entitlement_id r type_assigned] {''user'', ''resource_group'', ''enterprise_application'', ''managed_identity''} g"
proof -
  obtain m where n: "n = Suc m" using assms(1) by (cases n) (auto simp: lift_io_def)
  obtain s role where k: "role_key r = (s, role)" by fastforce
  obtain as v where "grants_of_assignments env r (role_definition_id s role) [] as v = (Ok gs, w')"
    using assms(1) unfolding n
    by (auto elim!: bind_io_Ok_E simp: roles_grants_def k return_io_def Let_def split: if_splits)
  from assignment_grants_refer [OF this assms(2)] show ?thesis
    using assignment_grant_refers by (fastforce simp: refers_def)
qed

text \<open>
  Applications: the grants are those of the assignments in the cache, and an entitlement of
  the default role or of a role that users may have is the only kind that is listed.
\<close>

definition listed_role :: "service_principal \<Rightarrow> string \<Rightarrow> bool" where
  "listed_role sp role \<longleftrightarrow> role = ''00000000-0000-0000-0000-000000000000'' \<or>
     (\<exists>rl. Some rl \<in> set (spn_app_roles sp) \<and> arl_id rl = role \<and> ''User'' \<in> set (arl_allowed_member_types rl))"

lemma listed_role_ids:
  "None \<notin> set (spn_app_roles sp) \<Longrightarrow>
    (app_prefix r @ '':assignment:'' @ role \<in> set (app_entitlement_ids r sp)) \<longleftrightarrow> listed_role sp role"
  by (auto simp: app_entitlement_ids_def listed_role_def user_roles_def default_app_role_assignment_id_def image_iff)
    (metis option.exhaust_sel)

definition assignment_refers :: "(string \<Rightarrow> 'x option) \<Rightarrow> resource \<Rightarrow> grant \<Rightarrow> 'z builders_scheme \<Rightarrow> bool" where
  "assignment_refers srv r g w \<longleftrightarrow>
     (\<exists>sp a. app_cache w (rid_resource (res_id r)) = Some sp \<and> Some a \<in> set (spn_app_roles_assigned_to sp) \<and>
        grant_id g = ara_id a \<and> ent_resource (grant_entitlement g) = r \<and>
        (None \<notin> set (spn_app_roles sp) \<longrightarrow>
          (\<exists>es. enterprise_apps_entitlements r [] w = (Ok (es, []), w) \<and>
            (ent_id (grant_entitlement g) \<in> set (map ent_id es) \<longleftrightarrow> listed_role sp (ara_app_role_id a)))) \<and>
        (rid_type (res_id (grant_principal g)) \<in> dom srv \<longleftrightarrow>
          ara_principal_type a \<in> {''User'', ''Group'', ''ServicePrincipal''}))"

lemma apps_sync_refers:
  fixes w :: "'z builders_scheme"
  assumes "sync_pages n (enterprise_apps_grants env conn r) [] w = (Ok gs, w')" and "g \<in> set gs"
    and "{''user'', ''group'', ''managed_identity''} \<subseteq> dom srv" and "[] \<notin> dom srv"
  shows "assignment_refers srv (trim_application r) g w"
proof -
  let ?r = "trim_application r"
  obtain m where n: "n = Suc m" using assms(1) by (cases n) (auto simp: lift_io_def)
  obtain sp where sp: "app_cache w (rid_resource (res_id ?r)) = Some sp"
    using assms(1) unfolding n
    by (cases "app_cache w (rid_resource (res_id ?r))")
      (auto simp: bind_io_def first_grants assignment_grants_def app_cache_get_def)
  have "convert_all (\<lambda>p. bind_outcome (deref p) (\<lambda>a. Ok (assignment_grant ?r a))) (spn_app_roles_assigned_to sp) = Ok gs"
    using assms(1) sp unfolding n
    by (cases "convert_all (\<lambda>p. bind_outcome (deref p) (\<lambda>a. Ok (assignment_grant ?r a))) (spn_app_roles_assigned_to sp)")
      (auto simp: bind_io_def return_io_def first_grants assignment_grants_def app_cache_get_def)
  from convert_all_member [OF this assms(2)] obtain p where
    p: "p \<in> set (spn_app_roles_assigned_to sp)" "bind_outcome (deref p) (\<lambda>a. Ok (assignment_grant ?r a)) = Ok g"
    by blast
  from p(2) obtain a where "p = Some a" "g = assignment_grant ?r a" by auto
  with p(1) have a: "Some a \<in> set (spn_app_roles_assigned_to sp)" "g = assignment_grant ?r a" by simp_all
  have g: "ent_id (grant_entitlement g) = app_prefix ?r @ '':assignment:'' @ ara_app_role_id a"
    "ent_resource (grant_entitlement g) = ?r" "grant_id g = ara_id a"
    by (simp_all add: a(2) assignment_grant_def bare_entitlement_def app_prefix_def)
  have types: "rid_type (res_id (grant_principal g)) \<in> dom srv \<longleftrightarrow>
      ara_principal_type a \<in> {''User'', ''Group'', ''ServicePrincipal''}"
    using assms(3,4) by (auto simp: a(2) assignment_grant_def assigned_principal_def bare_resource_def Let_def)
  have listed: "\<exists>es. enterprise_apps_entitlements ?r [] w = (Ok (es, []), w) \<and>
      (ent_id (grant_entitlement g) \<in> set (map ent_id es) \<longleftrightarrow> listed_role sp (ara_app_role_id a))"
    if roles: "None \<notin> set (spn_app_roles sp)"
  proof -
    obtain es where es: "enterprise_apps_entitlements ?r [] w = (Ok (es, []), w)" "map ent_id es = app_entitlement_ids ?r sp"
      using entitlements_cached [OF sp roles, of "[]"] by (elim exE conjE) (rule that)
    show ?thesis
      by (rule exI [of _ es], rule conjI, rule es(1)) (unfold es(2) g(1), rule listed_role_ids [OF roles])
  qed
  show ?thesis
    unfolding assignment_refers_def
    by (rule exI [of _ sp], rule exI [of _ a]) (intro conjI impI, rule sp, rule a(1), rule g(3), rule g(2), erule listed, rule types)
qed

text \<open>
  C4: what is synced hangs together. Whatever Graph and the Resource Manager answer, when a
  sync of the grants of a resource succeeds, each grant is one of an entitlement of that
  very resource, by the id under which \<open>Entitlements\<close> lists it, and goes to a principal of a
  resource type that the connector serves. Applications are the exception: their grants
  are those of the cached assignments of the application (with \<open>applications/\<close> cut from its
  id), the entitlement is listed exactly when the assignment is of the default role or of a
  role of the application that users may have, and the principal's type is served exactly
  when the assignment is to a user, a group or a service principal.
\<close>

theorem synced_grants_refer:
  fixes w :: "'z builders_scheme"
  assumes "connector_server = Inr srv" and "srv (rid_type (res_id r)) = Some b"
    and "sync_pages n (builder_grants env conn b r) [] w = (Ok gs, w')" and "g \<in> set gs"
  shows "if b = EnterpriseApplicationsBuilder then assignment_refers srv (trim_application r) g w
    else ent_resource (grant_entitlement g) = r \<and>
      (\<exists>es. builder_entitlements b r [] w = (Ok (es, []), w) \<and> ent_id (grant_entitlement g) \<in> set (map ent_id es)) \<and>
      rid_type (res_id (grant_principal g)) \<in> dom srv"
proof -
  have srv: "srv = [''user'' \<mapsto> UserBuilder, ''group'' \<mapsto> GroupBuilder, ''subscription'' \<mapsto> SubscriptionBuilder,
     ''tenant'' \<mapsto> TenantBuilder, ''resource_group'' \<mapsto> ResourceGroupBuilder,
     ''managed_identity'' \<mapsto> ManagedIdentityBuilder,
     ''enterprise_application'' \<mapsto> EnterpriseApplicationsBuilder, ''role'' \<mapsto> RoleBuilder]"
    using assms(1) by (simp add: connector_server_eq)
  have "b = EnterpriseApplicationsBuilder \<or> b = GroupBuilder \<and> rid_type (res_id r) = ''group'' \<or> b = RoleBuilder \<or>
      b \<in> {UserBuilder, SubscriptionBuilder, TenantBuilder, ResourceGroupBuilder, ManagedIdentityBuilder}"
    using assms(2) unfolding srv by (auto split: if_splits)
  then show ?thesis
  proof (elim disjE conjE)
    assume b: "b = EnterpriseApplicationsBuilder"
    have "sync_pages n (enterprise_apps_grants env conn r) [] w = (Ok gs, w')" using assms(3) by (simp add: b)
    from apps_sync_refers [OF this assms(4), of srv] show ?thesis by (simp add: b srv)
  next
    assume b: "b = GroupBuilder" and ty: "rid_type (res_id r) = ''group''"
    have st: "state_pages n (groups_step (env, conn, r)) (groups_start conn r empty_bag) w = (Ok gs, w')"
      using assms(3) by (simp add: b groups_fresh(3))
    have rs: "relation_states (groups_start conn r empty_bag)"
      using groups_fresh(1,2) [of conn r] by (simp add: relation_states_def bag_live_def group_page_def)
    from groups_states_origin [OF st rs assms(4)] obtain relation gm where
      rel: "relation \<in> {type_members, type_owners}" "group_grant r relation gm = Some g" by (elim bexE exE) (rule that)
    from group_grant_refers [OF rel(2)] rel(1) ty show ?thesis
      by (auto simp: b groups_entitlements_def return_io_def new_permission_entitlement_def new_assignment_entitlement_def
          new_entitlement_id_def srv)
  next
    assume b: "b = RoleBuilder"
    have "sync_pages n (roles_grants env r) [] w = (Ok gs, w')" using assms(3) by (simp add: b)
    from roles_sync_refers [OF this assms(4)] show ?thesis
      by (auto simp: b refers_def roles_entitlements_def return_io_def new_permission_entitlement_def
          new_assignment_entitlement_def srv)
  next
    assume "b \<in> {UserBuilder, SubscriptionBuilder, TenantBuilder, ResourceGroupBuilder, ManagedIdentityBuilder}"
    then have "builder_grants env conn b r [] w = (Ok ([], []), w)"
      by (auto simp: users_grants_def subscriptions_grants_def tenants_grants_def resource_groups_grants_def
          managed_identities_grants_def return_io_def)
    with assms(3) have "gs = []" by (cases n) (simp_all add: bind_io_def return_io_def lift_io_def)
    with assms(4) show ?thesis by simp
  qed
qed

definition filled_world :: builders where
  "filled_world = start_world\<lparr>role_cache := [''s1'' \<mapsto> concat (map page_value assignment_pages)]\<rparr>"

lemma filled_sync:
  "\<exists>w'. sync_pages 1 (builder_grants (people_env assignment_pages) plain_conn RoleBuilder demo_role_resource) [] filled_world =
    (Ok [the (grant_for demo_role_resource ''#microsoft.graph.user'' ''p2''),
         the (grant_for demo_role_resource ''#microsoft.graph.user'' ''p1'')], w')"
proof -
  have hit: "role_cache filled_world ''s1'' = Some (concat (map page_value assignment_pages))"
    by (simp add: filled_world_def)
  have c: "cache_role_assignments (people_env assignment_pages) ''s1'' filled_world = (Ok (), filled_world)"
    by (rule cache_role_assignments_hit [OF hit])
  have "cache_agrees people_site filled_world"
    using people_env_facts(2) by (simp add: filled_world_def cache_agrees_def)
  from grants_of_assignments_stable [OF people_env_facts(1) this assigned_env_facts(4) people_known,
      of demo_role_resource "role_definition_id ''s1'' ''r1''" "[]"]
  show ?thesis
    by (elim exE) (simp add: people_expected roles_grants_hit [OF demo_keys(1) c hit] bind_io_def return_io_def numeral_eq_Suc)
qed

lemma cached_app_sync:
  "sync_pages 1 (builder_grants (people_env assignment_pages) plain_conn EnterpriseApplicationsBuilder demo_app) [] cached_world =
    (Ok [assignment_grant demo_app demo_assignment], cached_world)"
proof -
  have "trim_application demo_app = demo_app" using cached_world_facts(4) by (simp add: trim_application_def trim_prefix_def)
  then show ?thesis
    using cached_world_facts(1)
    by (simp add: bind_io_def return_io_def first_grants assignment_grants_def app_cache_get_def cached_app_def)
qed

theorem synced_grants_refer_witness:
  "\<exists>g h srv es w'. connector_server = Inr srv \<and>
    sync_pages 1 (builder_grants (people_env assignment_pages) plain_conn RoleBuilder demo_role_resource) [] filled_world = (Ok [g, h], w') \<and>
    builder_entitlements RoleBuilder demo_role_resource [] filled_world = (Ok (es, []), filled_world) \<and>
    ent_id (grant_entitlement g) \<in> set (map ent_id es) \<and>
    assignment_refers srv (trim_application demo_app) (assignment_grant demo_app demo_assignment) cached_world"
proof -
  let ?g = "the (grant_for demo_role_resource ''#microsoft.graph.user'' ''p2'')"
    and ?h = "the (grant_for demo_role_resource ''#microsoft.graph.user'' ''p1'')"
  obtain srv where srv: "connector_server = Inr srv" "srv (rid_type (res_id demo_role_resource)) = Some RoleBuilder"
      "srv (rid_type (res_id demo_app)) = Some EnterpriseApplicationsBuilder"
    by (simp add: connector_server_eq demo_role_resource_def demo_app_def bare_resource_def)
  obtain w' where s: "sync_pages 1 (builder_grants (people_env assignment_pages) plain_conn RoleBuilder demo_role_resource) []
      filled_world = (Ok [?g, ?h], w')"
    using filled_sync by (elim exE) (rule that)
  have m: "?g \<in> set [?g, ?h]" "assignment_grant demo_app demo_assignment \<in> set [assignment_grant demo_app demo_assignment]" by simp_all
  have "assignment_refers srv (trim_application demo_app) (assignment_grant demo_app demo_assignment) cached_world"
    using synced_grants_refer [OF srv(1,3) cached_app_sync m(2)] by simp
  moreover obtain es where "builder_entitlements RoleBuilder demo_role_resource [] filled_world = (Ok (es, []), filled_world)"
      "ent_id (grant_entitlement ?g) \<in> set (map ent_id es)"
    using synced_grants_refer [OF srv(1,2) s m(1)] by (simp only: builder.distinct if_False) (elim conjE exE, rule that)
  ultimately show ?thesis using srv(1) s by blast
qed

end
