(* ===== verification/Role_Cache.thy ===== *)
theory Role_Cache
  imports Role_Grants
begin

text \<open>
  Calls of \<open>cacheRoleAssignments\<close> that overlap. The mutex makes each \<open>cacheGet\<close> and each
  \<open>cacheSet\<close> atomic, but not the two together, so a caller may store what it read before
  another one stored. The configurations are the shared cache and the point each call has
  reached; a step is one call moving on. \<open>Role_Locks\<close> has the mutex itself.
\<close>

section \<open>The step relation\<close>

text \<open>
  A call has been made, is about to fetch a page, has it and is about to read the cache, or
  has read the cache and is about to store; or it has returned. Pages are counted from 0.
\<close>

datatype caller =
    Idle
  | Called string
  | Fetching string nat
  | Reading string nat
  | Storing string nat "role_assignment list"
  | Returned string
  | Failed string

record config =
  shared :: "string \<Rightarrow> role_assignment list option"
  callers :: "nat \<Rightarrow> caller"

definition at :: "nat \<Rightarrow> caller \<Rightarrow> config \<Rightarrow> config" where
  "at i x c = c\<lparr>callers := (callers c)(i := x)\<rparr>"

definition shared_list :: "string \<Rightarrow> config \<Rightarrow> role_assignment list" where
  "shared_list s c = (case shared c s of None \<Rightarrow> [] | Some as \<Rightarrow> as)"

definition stored :: "(string \<Rightarrow> role_assignment list list) \<Rightarrow> string \<Rightarrow> nat \<Rightarrow> role_assignment list \<Rightarrow> config \<Rightarrow> config" where
  "stored pages s k as c = c\<lparr>shared := (shared c)(s \<mapsto> as @ pages s ! k)\<rparr>"

definition after_page :: "(string \<Rightarrow> role_assignment list list) \<Rightarrow> string \<Rightarrow> nat \<Rightarrow> caller" where
  "after_page pages s k = (if Suc k < length (pages s) then Fetching s (Suc k) else Returned s)"

inductive cache_step :: "(string \<Rightarrow> role_assignment list list) \<Rightarrow> config \<Rightarrow> config \<Rightarrow> bool"
  for pages where
  call: "callers c i = Idle \<Longrightarrow> cache_step pages c (at i (Called s) c)"
| hit: "callers c i = Called s \<Longrightarrow> shared c s \<noteq> None \<Longrightarrow> cache_step pages c (at i (Returned s) c)"
| miss: "callers c i = Called s \<Longrightarrow> shared c s = None \<Longrightarrow> cache_step pages c (at i (Fetching s 0) c)"
| no_client: "callers c i = Called s \<Longrightarrow> shared c s = None \<Longrightarrow> cache_step pages c (at i (Failed s) c)"
| fetch: "callers c i = Fetching s k \<Longrightarrow> k < length (pages s) \<Longrightarrow> cache_step pages c (at i (Reading s k) c)"
| fail: "callers c i = Fetching s k \<Longrightarrow> cache_step pages c (at i (Failed s) c)"
| read: "callers c i = Reading s k \<Longrightarrow> cache_step pages c (at i (Storing s k (shared_list s c)) c)"
| store: "callers c i = Storing s k as \<Longrightarrow>
    cache_step pages c (at i (after_page pages s k) (stored pages s k as c))"

definition initial :: config where
  "initial = \<lparr>shared = Map.empty, callers = (\<lambda>_. Idle)\<rparr>"

inductive reachable :: "(string \<Rightarrow> role_assignment list list) \<Rightarrow> config \<Rightarrow> bool" for pages where
  start: "reachable pages initial"
| step: "reachable pages c \<Longrightarrow> cache_step pages c c' \<Longrightarrow> reachable pages c'"

lemma config_simps [simp]:
  "shared (at i x c) = shared c" "callers (at i x c) = (callers c)(i := x)"
  "shared (stored pages s k as c) = (shared c)(s \<mapsto> as @ pages s ! k)"
  "callers (stored pages s k as c) = callers c"
  "shared initial s = None" "callers initial i = Idle"
  by (simp_all add: at_def stored_def initial_def)

section \<open>What holds whatever the order\<close>

text \<open>The subscription and the page a call works on, and the assignments it holds.\<close>

fun fills :: "caller \<Rightarrow> (string \<times> nat) option" where
  "fills (Fetching s k) = Some (s, k)"
| "fills (Reading s k) = Some (s, k)"
| "fills (Storing s k as) = Some (s, k)"
| "fills _ = None"

definition genuine :: "(string \<Rightarrow> role_assignment list list) \<Rightarrow> config \<Rightarrow> bool" where
  "genuine pages c \<longleftrightarrow>
     (\<forall>s as. shared c s = Some as \<longrightarrow> set as \<subseteq> set (concat (pages s))) \<and>
     (\<forall>i s k as. callers c i = Storing s k as \<longrightarrow> k < length (pages s) \<and> set as \<subseteq> set (concat (pages s))) \<and>
     (\<forall>i s k. callers c i = Reading s k \<longrightarrow> k < length (pages s)) \<and>
     (\<forall>i s. callers c i = Returned s \<longrightarrow> shared c s \<noteq> None)"

lemma nth_page: "k < length xs \<Longrightarrow> set (xs ! k) \<subseteq> set (concat xs)"
  by (auto intro: nth_mem)

lemma step_genuine: "cache_step pages c c' \<Longrightarrow> genuine pages c \<Longrightarrow> genuine pages c'"
proof (induction rule: cache_step.induct)
  case (store c i s k as)
  then have k: "k < length (pages s)" and "set as \<subseteq> set (concat (pages s))"
    unfolding genuine_def by blast+
  with nth_page [OF k] have "set (as @ pages s ! k) \<subseteq> set (concat (pages s))" by (metis Un_least set_append)
  with store show ?case by (auto simp: genuine_def after_page_def split: if_splits)
next
  case (read c i s k)
  then have "set (shared_list s c) \<subseteq> set (concat (pages s))"
    by (cases "shared c s") (simp_all add: genuine_def shared_list_def)
  with read show ?case by (auto simp: genuine_def split: if_splits)
qed (auto simp: genuine_def split: if_splits)

lemma reachable_genuine: "reachable pages c \<Longrightarrow> genuine pages c"
proof (induction rule: reachable.induct)
  case start
  show ?case by (simp add: genuine_def)
qed (rule step_genuine)

inductive_cases cache_stepE: "cache_step pages c c'"

lemma step_keeps: "cache_step pages c c' \<Longrightarrow> shared c s \<noteq> None \<Longrightarrow> shared c' s \<noteq> None"
  by (erule cache_stepE) (auto split: if_splits)

text \<open>
  C22: however calls overlap, the cache holds role assignments of the subscription only, a
  call that returned without an error left an entry, and no step takes an entry away.
\<close>

theorem cached_assignments_genuine:
  assumes "reachable pages c"
  shows "(shared c s = Some as \<longrightarrow> set as \<subseteq> set (concat (pages s))) \<and>
    (callers c i = Returned s \<longrightarrow> shared c s \<noteq> None) \<and>
    (cache_step pages c c' \<longrightarrow> shared c s \<noteq> None \<longrightarrow> shared c' s \<noteq> None)"
  using reachable_genuine [OF assms] step_keeps [of pages c c' s] unfolding genuine_def by blast

section \<open>Calls that do not overlap\<close>

text \<open>Runs in which no call fails and at most one call is under way at a time.\<close>

fun busy :: "caller \<Rightarrow> bool" where
  "busy (Called s) \<longleftrightarrow> True"
| "busy x \<longleftrightarrow> fills x \<noteq> None"

definition one_at_a_time :: "config \<Rightarrow> bool" where
  "one_at_a_time c \<longleftrightarrow>
     (\<forall>i j. busy (callers c i) \<longrightarrow> busy (callers c j) \<longrightarrow> i = j) \<and> (\<forall>i s. callers c i \<noteq> Failed s)"

inductive serial :: "(string \<Rightarrow> role_assignment list list) \<Rightarrow> config \<Rightarrow> bool" for pages where
  start: "serial pages initial"
| step: "serial pages c \<Longrightarrow> cache_step pages c c' \<Longrightarrow> one_at_a_time c' \<Longrightarrow> serial pages c'"

text \<open>What a call on page \<open>k\<close> finds in the cache: the pages before it.\<close>

definition prefix :: "(string \<Rightarrow> role_assignment list list) \<Rightarrow> config \<Rightarrow> string \<Rightarrow> nat \<Rightarrow> bool" where
  "prefix pages c s k \<longleftrightarrow> k < length (pages s) \<and>
     shared c s = (if k = 0 then None else Some (concat (take k (pages s))))"

fun fine :: "(string \<Rightarrow> role_assignment list list) \<Rightarrow> config \<Rightarrow> caller \<Rightarrow> bool" where
  "fine pages c (Fetching s k) \<longleftrightarrow> prefix pages c s k"
| "fine pages c (Reading s k) \<longleftrightarrow> prefix pages c s k"
| "fine pages c (Storing s k as) \<longleftrightarrow> prefix pages c s k \<and> as = concat (take k (pages s))"
| "fine pages c (Returned s) \<longleftrightarrow> shared c s = Some (concat (pages s))"
| "fine pages c x \<longleftrightarrow> True"

definition settled :: "(string \<Rightarrow> role_assignment list list) \<Rightarrow> config \<Rightarrow> string \<Rightarrow> bool" where
  "settled pages c s \<longleftrightarrow> shared c s = None \<or> shared c s = Some (concat (pages s))"

definition in_step :: "(string \<Rightarrow> role_assignment list list) \<Rightarrow> config \<Rightarrow> bool" where
  "in_step pages c \<longleftrightarrow> (\<forall>i. fine pages c (callers c i)) \<and>
     (\<forall>s. (\<forall>i k. fills (callers c i) \<noteq> Some (s, k)) \<longrightarrow> settled pages c s)"

lemma at_same_cache [simp]:
  "prefix pages (at i x c) = prefix pages c" "settled pages (at i x c) = settled pages c"
  by (simp_all add: fun_eq_iff prefix_def settled_def)

lemma at_fine [simp]: "fine pages (at i x c) y = fine pages c y"
  by (cases y) simp_all

text \<open>A call moves on without storing.\<close>

lemma at_in_step:
  assumes "in_step pages c" and "fine pages c x"
    and "\<And>s k. fills (callers c i) = Some (s, k) \<Longrightarrow> fills x = Some (s, k)"
  shows "in_step pages (at i x c)"
  using assms unfolding in_step_def by (auto split: if_splits) metis

lemma concat_take_Suc: "k < length xs \<Longrightarrow> concat (take (Suc k) xs) = concat (take k xs) @ xs ! k"
  by (simp add: take_Suc_conv_app_nth)

lemma concat_prefix_full:
  assumes "k < length xs" and "concat (take k xs) = concat xs"
  shows "concat (take k xs) @ xs ! k = concat xs"
proof -
  have "concat xs = concat (take k xs) @ xs ! k @ concat (drop (Suc k) xs)"
    using id_take_nth_drop [OF assms(1)] by (metis append.assoc concat.simps(2) concat_append)
  with assms(2) show ?thesis by simp
qed

lemma store_in_step:
  assumes "in_step pages c" and "one_at_a_time c" and i: "callers c i = Storing s k as"
  shows "in_step pages (at i (after_page pages s k) (stored pages s k as c))"
proof -
  let ?c = "stored pages s k as c" and ?x = "after_page pages s k"
  have p: "prefix pages c s k" and "as = concat (take k (pages s))"
    using assms(1) i unfolding in_step_def by (metis fine.simps(3))+
  then have k: "k < length (pages s)" and new: "shared ?c s = Some (concat (take (Suc k) (pages s)))"
    by (simp_all add: prefix_def concat_take_Suc)
  have x: "fine pages ?c ?x"
    using k new by (simp add: after_page_def prefix_def)
  have other: "fine pages ?c (callers c j)" if "j \<noteq> i" for j
  proof (cases "callers c j")
    case (Returned t)
    then have t: "shared c t = Some (concat (pages t))"
      using assms(1) unfolding in_step_def by (metis fine.simps(4))
    show ?thesis
    proof (cases "t = s")
      case True
      with t p have "concat (take k (pages s)) = concat (pages s)" by (simp add: prefix_def split: if_splits)
      from concat_prefix_full [OF k this] new True Returned show ?thesis
        by (simp only: fine.simps concat_take_Suc [OF k])
    qed (use t Returned in simp)
  qed (use assms(2) i that in \<open>auto simp: one_at_a_time_def\<close>)
  have "settled pages ?c t" if none: "\<forall>j l. fills (if j = i then ?x else callers c j) \<noteq> Some (t, l)" for t
  proof (cases "t = s")
    case True
    with spec [OF none, of i] have "\<not> Suc k < length (pages s)" by (auto simp: after_page_def)
    with new True k show ?thesis by (simp add: settled_def)
  next
    case False
    have "fills (callers c j) \<noteq> Some (t, l)" for j l
      using spec [OF spec [OF none, of j], of l] i False by (cases "j = i") simp_all
    then have "settled pages c t" using assms(1) unfolding in_step_def by blast
    with False show ?thesis by (simp add: settled_def)
  qed
  with x other show ?thesis unfolding in_step_def by simp
qed

lemma step_in_step:
  assumes "cache_step pages c c'" and "in_step pages c" and "one_at_a_time c" and "one_at_a_time c'"
    and "\<And>s. pages s \<noteq> []"
  shows "in_step pages c'"
  using assms
proof (induction rule: cache_step.induct)
  case (hit c i s)
  have "\<forall>j k. fills (callers c j) \<noteq> Some (s, k)"
  proof (intro allI notI)
    fix j k
    assume f: "fills (callers c j) = Some (s, k)"
    then have "busy (callers c j)" by (cases "callers c j") simp_all
    with hit(1,4) have "j = i" by (auto simp: one_at_a_time_def)
    with f hit(1) show False by simp
  qed
  with hit(3) have "settled pages c s" unfolding in_step_def by blast
  with hit(2) have "shared c s = Some (concat (pages s))" by (auto simp: settled_def)
  with hit(1,3) show ?case by (intro at_in_step) simp_all
next
  case (read c i s k)
  then have "prefix pages c s k" unfolding in_step_def by (metis fine.simps(2))
  then have "fine pages c (Storing s k (shared_list s c))" by (simp add: prefix_def shared_list_def)
  with read(1,2) show ?case by (intro at_in_step) simp_all
next
  case (fetch c i s k)
  then have "prefix pages c s k" unfolding in_step_def by (metis fine.simps(1))
  with fetch(1,3) show ?case by (intro at_in_step) simp_all
next
  case (store c i s k as)
  then show ?case by (intro store_in_step)
next
  case (call c i s)
  then show ?case by (intro at_in_step) simp_all
next
  case (miss c i s)
  from miss(6) have "fine pages c (Fetching s 0)" using miss(2) by (simp add: prefix_def)
  with miss(1,3) show ?case by (intro at_in_step) simp_all
next
  case (no_client c i s)
  then have "callers (at i (Failed s) c) i \<noteq> Failed s" unfolding one_at_a_time_def by blast
  then show ?case by simp
next
  case (fail c i s k)
  then have "callers (at i (Failed s) c) i \<noteq> Failed s" unfolding one_at_a_time_def by blast
  then show ?case by simp
qed

lemma serial_in_step:
  assumes "serial pages c" and "\<And>s. pages s \<noteq> []"
  shows "in_step pages c \<and> one_at_a_time c"
  using assms(1)
proof (induction rule: serial.induct)
  case start
  show ?case by (simp add: in_step_def settled_def one_at_a_time_def)
next
  case (step c c')
  with step_in_step [OF step.hyps(2) _ _ step.hyps(3) assms(2)] show ?case by blast
qed

text \<open>
  C20: calls that do not overlap fill the cache completely, and the sequential model is what
  they do: when a call has returned, the cache has every assignment of the subscription, in
  the order of the pages, which is what \<open>cacheRoleAssignments\<close> leaves when it runs alone
  against a service with these pages.
\<close>

theorem serial_calls_refine:
  assumes "serial pages c" and "\<And>t. pages t \<noteq> []" and "callers c i = Returned s"
    and "serves_from (env_role_assignments env s) None ps" and "map page_value ps = pages s"
    and "length ps \<le> env_max_pages env" and "env_arm_client env = None" and "role_cache w s = None"
  shows "shared c s = role_cache (snd (cache_role_assignments env s w)) s \<and>
    shared c s = Some (concat (pages s))"
proof -
  have "fine pages c (callers c i)"
    using serial_in_step [OF assms(1,2)] unfolding in_step_def by blast
  then have "shared c s = Some (concat (pages s))" using assms(3) by simp
  with cache_filled [OF assms(8,7,4,6)] assms(5) show ?thesis by (simp add: log_events_def role_cache_set_def)
qed

section \<open>A run of given turns\<close>

text \<open>The next step of a call that does not fail, as a function.\<close>

definition turn :: "(string \<Rightarrow> role_assignment list list) \<Rightarrow> nat \<Rightarrow> config \<Rightarrow> config option" where
  "turn pages i c =
     (case callers c i of
        Called s \<Rightarrow> Some (at i (if shared c s = None then Fetching s 0 else Returned s) c)
      | Fetching s k \<Rightarrow> if k < length (pages s) then Some (at i (Reading s k) c) else None
      | Reading s k \<Rightarrow> Some (at i (Storing s k (shared_list s c)) c)
      | Storing s k as \<Rightarrow> Some (at i (after_page pages s k) (stored pages s k as c))
      | _ \<Rightarrow> None)"

fun turns :: "(string \<Rightarrow> role_assignment list list) \<Rightarrow> nat list \<Rightarrow> config \<Rightarrow> config option" where
  "turns pages [] c = Some c"
| "turns pages (i # is) c = Option.bind (turn pages i c) (turns pages is)"

lemma turn_step: "turn pages i c = Some c' \<Longrightarrow> cache_step pages c c'"
  by (auto simp: turn_def split: caller.splits if_splits intro: cache_step.intros)

lemma turns_reachable: "turns pages is c = Some c' \<Longrightarrow> reachable pages c \<Longrightarrow> reachable pages c'"
  by (induction "is" arbitrary: c) (auto simp: bind_eq_Some_conv dest: turn_step intro: reachable.step)

definition two_calls :: "string \<Rightarrow> config" where
  "two_calls s = at 1 (Called s) (at 0 (Called s) initial)"

lemma two_calls_reachable: "reachable pages (two_calls s)"
  unfolding two_calls_def by (intro reachable.step [OF _ cache_step.call] reachable.start) simp_all

definition race_pages :: "string \<Rightarrow> role_assignment list list" where
  "race_pages s = [[assignment_of ''x'' [] []], [assignment_of ''y'' [] []], [assignment_of ''z'' [] []]]"

section \<open>Overlapping calls lose a page\<close>

text \<open>Two calls for three pages, with the turns that lose the second page.\<close>

definition losing_turns :: "nat list" where
  "losing_turns = [0, 0, 0, 1, 0, 0, 0, 1, 1, 0, 0, 1, 0, 1, 1, 1, 0, 1, 1, 1]"

lemma losing_run:
  "map_option (\<lambda>c. (map (callers c) [0, 1], map_option (map ra_name) (shared c ''s'')))
      (turns race_pages losing_turns (two_calls ''s'')) =
    Some ([Returned ''s'', Returned ''s''], Some (map Some [''x'', ''x'', ''z'', ''z'']))"
  by code_simp

text \<open>
  C19: calls that overlap can lose a page. There is a service with three pages and an
  interleaving of two calls for the same subscription, both of which return without an
  error, after which a role assignment that the service served to both is not in the cache,
  where every later call takes the entry for complete: \<open>cacheGet\<close> and \<open>cacheSet\<close> each hold the
  mutex, but not across the update.
\<close>

theorem overlapping_calls_lose_page:
  "\<exists>c as a. reachable race_pages c \<and> callers c 0 = Returned ''s'' \<and> callers c 1 = Returned ''s'' \<and>
    shared c ''s'' = Some as \<and> a \<in> set (concat (race_pages ''s'')) \<and> a \<notin> set as"
proof -
  obtain c where c: "turns race_pages losing_turns (two_calls ''s'') = Some c"
    and r: "callers c 0 = Returned ''s''" "callers c 1 = Returned ''s''"
    and n: "map_option (map ra_name) (shared c ''s'') = Some (map Some [''x'', ''x'', ''z'', ''z''])"
    using losing_run by auto
  from n obtain as where as: "shared c ''s'' = Some as" "map ra_name as = map Some [''x'', ''x'', ''z'', ''z'']"
    by auto
  have "Some ''y'' \<notin> set (map ra_name as)" unfolding as(2) by simp
  then have "assignment_of ''y'' [] [] \<notin> set as"
    by (auto simp: assignment_of_def image_iff dest: bspec)
  moreover have "assignment_of ''y'' [] [] \<in> set (concat (race_pages ''s''))" by (simp add: race_pages_def)
  ultimately show ?thesis
    using turns_reachable [OF c two_calls_reachable] r as(1) by blast
qed

theorem cached_assignments_genuine_witness:
  "\<exists>c as. reachable race_pages c \<and> shared c ''s'' = Some as \<and> set as \<subseteq> set (concat (race_pages ''s''))"
proof -
  obtain c where c: "turns race_pages losing_turns (two_calls ''s'') = Some c" and "shared c ''s'' \<noteq> None"
    using losing_run by auto
  then obtain as where as: "shared c ''s'' = Some as" by blast
  have r: "reachable race_pages c" by (rule turns_reachable [OF c two_calls_reachable])
  with cached_assignments_genuine [OF r, of "''s''" as 0 c] as show ?thesis by blast
qed

text \<open>One call alone is serial.\<close>

definition lone :: "config \<Rightarrow> bool" where
  "lone c \<longleftrightarrow> (\<forall>j. j \<noteq> 0 \<longrightarrow> callers c j = Idle) \<and> (\<forall>s. callers c 0 \<noteq> Failed s)"

lemma lone_one: "lone c \<Longrightarrow> one_at_a_time c"
  unfolding lone_def one_at_a_time_def
proof (intro conjI allI impI; elim conjE)
  fix i j
  assume idle: "\<forall>j. j \<noteq> 0 \<longrightarrow> callers c j = Idle" and "busy (callers c i)" "busy (callers c j)"
  then show "i = j" by (cases "i = 0"; cases "j = 0") simp_all
next
  fix i s
  assume "\<forall>j. j \<noteq> 0 \<longrightarrow> callers c j = Idle" "\<forall>s. callers c 0 \<noteq> Failed s"
  then show "callers c i \<noteq> Failed s" by (cases "i = 0") simp_all
qed

lemma turn_lone: "turn pages 0 c = Some c' \<Longrightarrow> lone c \<Longrightarrow> lone c'"
  by (auto simp: turn_def lone_def after_page_def split: caller.splits if_splits)

lemma turns_serial: "turns pages (replicate n 0) c = Some c' \<Longrightarrow> lone c \<Longrightarrow> serial pages c \<Longrightarrow> serial pages c'"
proof (induction n arbitrary: c)
  case (Suc n)
  then obtain c1 where t: "turn pages 0 c = Some c1" "turns pages (replicate n 0) c1 = Some c'"
    by (auto simp: bind_eq_Some_conv)
  have l: "lone c1" by (rule turn_lone [OF t(1) Suc.prems(2)])
  show ?case by (rule Suc.IH [OF t(2) l serial.step [OF Suc.prems(3) turn_step [OF t(1)] lone_one [OF l]]])
qed simp

lemma lone_run:
  "map_option (\<lambda>c. callers c 0) (turns (\<lambda>_. map page_value assignment_pages) (replicate 7 0) (at 0 (Called ''s1'') initial)) =
    Some (Returned ''s1'')"
  by code_simp

theorem serial_calls_refine_witness:
  "\<exists>c. serial (\<lambda>_. map page_value assignment_pages) c \<and> callers c 0 = Returned ''s1'' \<and>
    shared c ''s1'' = role_cache (snd (cache_role_assignments (people_env assignment_pages) ''s1'' start_world)) ''s1'' \<and>
    shared c ''s1'' = Some (concat (map page_value assignment_pages))"
proof -
  let ?pages = "\<lambda>_. map page_value assignment_pages"
  obtain c where c: "turns ?pages (replicate 7 0) (at 0 (Called ''s1'') initial) = Some c"
    and r: "callers c 0 = Returned ''s1''"
    using lone_run by auto
  have l: "lone (at 0 (Called ''s1'') initial)" by (simp add: lone_def)
  have "serial ?pages (at 0 (Called ''s1'') initial)"
    by (rule serial.step [OF serial.start cache_step.call _, OF _ lone_one [OF l]]) simp
  from turns_serial [OF c l this] have s: "serial ?pages c" .
  have ne: "map page_value assignment_pages \<noteq> []" by (simp add: assignment_pages_def)
  have len: "length assignment_pages \<le> env_max_pages (people_env assignment_pages)"
    by (simp add: people_env_facts(4)) (simp add: assignment_pages_def)
  have none: "role_cache start_world ''s1'' = None" by (simp add: start_world_def)
  show ?thesis
    using serial_calls_refine [OF s ne r people_env_serves(1) HOL.refl len people_env_facts(3) none] s r
    by blast
qed

end
