(* ===== verification/Role_Locks.thy ===== *)
theory Role_Locks
  imports Role_Cache
begin

text \<open>
  The mutex of the role cache. Every \<open>cacheGet\<close> takes the \<open>sync.RWMutex\<close> for reading and
  every \<open>cacheSet\<close> takes it for writing, and both release it as they return. Here taking,
  waiting, reading or writing, and releasing are steps of their own, so that a call can be
  blocked by others: a machine below that of \<open>Role_Cache\<close>, which it refines, and in which
  the calls still return.
\<close>

section \<open>Calls with the mutex\<close>

text \<open>
  Where a call is with respect to the mutex: outside; holding it for reading, before and
  after it has read; or announced as the writer, which keeps new readers and writers out
  while it waits for the readers there are, then holding it for writing, before and after
  it has written.
\<close>

datatype phase = Outside | InRead | OutRead | Announced | InWrite | OutWrite

record locked =
  lk_calls :: config
  lk_phase :: "nat \<Rightarrow> phase"
  lk_readers :: "nat set"
  lk_writer :: "nat option"

fun reads :: "caller \<Rightarrow> bool" where
  "reads (Called s) \<longleftrightarrow> True"
| "reads (Reading s k) \<longleftrightarrow> True"
| "reads _ \<longleftrightarrow> False"

fun writes :: "caller \<Rightarrow> bool" where
  "writes (Storing s k as) \<longleftrightarrow> True"
| "writes _ \<longleftrightarrow> False"

definition lk_at :: "nat \<Rightarrow> phase \<Rightarrow> locked \<Rightarrow> locked" where
  "lk_at i p l = l\<lparr>lk_phase := (lk_phase l)(i := p)\<rparr>"

text \<open>The steps of calls that do not fail. A page is fetched outside the mutex.\<close>

inductive proceed :: "(string \<Rightarrow> role_assignment list list) \<Rightarrow> locked \<Rightarrow> locked \<Rightarrow> bool" for pages where
  rlock: "lk_phase l i = Outside \<Longrightarrow> reads (callers (lk_calls l) i) \<Longrightarrow> lk_writer l = None \<Longrightarrow>
    proceed pages l (lk_at i InRead (l\<lparr>lk_readers := insert i (lk_readers l)\<rparr>))"
| get: "lk_phase l i = InRead \<Longrightarrow> turn pages i (lk_calls l) = Some c \<Longrightarrow>
    proceed pages l (lk_at i OutRead (l\<lparr>lk_calls := c\<rparr>))"
| runlock: "lk_phase l i = OutRead \<Longrightarrow>
    proceed pages l (lk_at i Outside (l\<lparr>lk_readers := lk_readers l - {i}\<rparr>))"
| lock: "lk_phase l i = Outside \<Longrightarrow> writes (callers (lk_calls l) i) \<Longrightarrow> lk_writer l = None \<Longrightarrow>
    proceed pages l (lk_at i Announced (l\<lparr>lk_writer := Some i\<rparr>))"
| alone: "lk_phase l i = Announced \<Longrightarrow> lk_readers l = {} \<Longrightarrow> proceed pages l (lk_at i InWrite l)"
| put: "lk_phase l i = InWrite \<Longrightarrow> turn pages i (lk_calls l) = Some c \<Longrightarrow>
    proceed pages l (lk_at i OutWrite (l\<lparr>lk_calls := c\<rparr>))"
| unlock: "lk_phase l i = OutWrite \<Longrightarrow> proceed pages l (lk_at i Outside (l\<lparr>lk_writer := None\<rparr>))"
| fetch: "lk_phase l i = Outside \<Longrightarrow> callers (lk_calls l) i = Fetching s k \<Longrightarrow> turn pages i (lk_calls l) = Some c \<Longrightarrow>
    proceed pages l (l\<lparr>lk_calls := c\<rparr>)"

text \<open>A call may be made, and the service or the making of its client may fail, at any time.\<close>

inductive lock_step :: "(string \<Rightarrow> role_assignment list list) \<Rightarrow> locked \<Rightarrow> locked \<Rightarrow> bool" for pages where
  proceed: "proceed pages l l' \<Longrightarrow> lock_step pages l l'"
| call: "callers (lk_calls l) i = Idle \<Longrightarrow> lock_step pages l (l\<lparr>lk_calls := at i (Called s) (lk_calls l)\<rparr>)"
| fail: "lk_phase l i = Outside \<Longrightarrow> callers (lk_calls l) i = Fetching s k \<Longrightarrow>
    lock_step pages l (l\<lparr>lk_calls := at i (Failed s) (lk_calls l)\<rparr>)"

definition lk_initial :: locked where
  "lk_initial = \<lparr>lk_calls = initial, lk_phase = (\<lambda>_. Outside), lk_readers = {}, lk_writer = None\<rparr>"

inductive lk_reachable :: "(string \<Rightarrow> role_assignment list list) \<Rightarrow> locked \<Rightarrow> bool" for pages where
  start: "lk_reachable pages lk_initial"
| step: "lk_reachable pages l \<Longrightarrow> lock_step pages l l' \<Longrightarrow> lk_reachable pages l'"

lemma lk_simps [simp]:
  "lk_calls (lk_at i p l) = lk_calls l" "lk_phase (lk_at i p l) = (lk_phase l)(i := p)"
  "lk_readers (lk_at i p l) = lk_readers l" "lk_writer (lk_at i p l) = lk_writer l"
  by (simp_all add: lk_at_def)

section \<open>Refinement\<close>

text \<open>A step is one of \<open>Role_Cache\<close>'s, at the moment of the access, or none that shows there.\<close>

lemma lock_step_refines:
  "lock_step pages l l' \<Longrightarrow> lk_calls l' = lk_calls l \<or> cache_step pages (lk_calls l) (lk_calls l')"
  by (auto elim!: lock_step.cases proceed.cases dest: turn_step intro: cache_step.intros)

lemma locked_refines: "lk_reachable pages l \<Longrightarrow> reachable pages (lk_calls l)"
proof (induction rule: lk_reachable.induct)
  case start
  show ?case by (simp add: lk_initial_def reachable.start)
next
  case (step l l')
  from lock_step_refines [OF step.hyps(2)] step.IH show ?case by (auto intro: reachable.step)
qed

section \<open>The invariant of the mutex\<close>

definition in_range :: "(string \<Rightarrow> role_assignment list list) \<Rightarrow> caller \<Rightarrow> bool" where
  "in_range pages x \<longleftrightarrow> (\<forall>s k. fills x = Some (s, k) \<longrightarrow> k < length (pages s))"

definition phase_fits :: "caller \<Rightarrow> phase \<Rightarrow> bool" where
  "phase_fits x p \<longleftrightarrow> (p = InRead \<longrightarrow> reads x) \<and> (p = Announced \<or> p = InWrite \<longrightarrow> writes x) \<and> (x = Idle \<longrightarrow> p = Outside)"

definition mutex_ok :: "(string \<Rightarrow> role_assignment list list) \<Rightarrow> locked \<Rightarrow> bool" where
  "mutex_ok pages l \<longleftrightarrow>
     finite {i. callers (lk_calls l) i \<noteq> Idle} \<and>
     lk_readers l = {i. lk_phase l i \<in> {InRead, OutRead}} \<and>
     (\<forall>i. lk_writer l = Some i \<longleftrightarrow> lk_phase l i \<in> {Announced, InWrite, OutWrite}) \<and>
     (\<forall>i. lk_phase l i \<in> {InWrite, OutWrite} \<longrightarrow> lk_readers l = {}) \<and>
     (\<forall>i. phase_fits (callers (lk_calls l) i) (lk_phase l i) \<and> in_range pages (callers (lk_calls l) i))"

lemma turn_caller:
  assumes "turn pages i c = Some c'"
  shows "callers c i \<noteq> Idle" "callers c' i \<noteq> Idle" "callers c' = (callers c)(i := callers c' i)"
    and "in_range pages (callers c i) \<Longrightarrow> (\<And>s. pages s \<noteq> []) \<Longrightarrow> in_range pages (callers c' i)"
    and "j \<noteq> i \<Longrightarrow> callers c' j = callers c j"
  using assms by (auto simp: turn_def fun_eq_iff in_range_def after_page_def split: caller.splits if_splits)

lemma phase_fits_simps [simp]:
  "phase_fits x Outside" "x \<noteq> Idle \<Longrightarrow> phase_fits x OutRead" "x \<noteq> Idle \<Longrightarrow> phase_fits x OutWrite"
  "phase_fits Idle p \<longleftrightarrow> p = Outside"
  by (auto simp: phase_fits_def)

lemma mutex_okD:
  assumes "mutex_ok pages l"
  shows "finite {i. callers (lk_calls l) i \<noteq> Idle}" "lk_readers l = {i. lk_phase l i \<in> {InRead, OutRead}}"
    "lk_writer l = Some i \<longleftrightarrow> lk_phase l i \<in> {Announced, InWrite, OutWrite}"
    "lk_phase l i \<in> {InWrite, OutWrite} \<Longrightarrow> lk_readers l = {}"
    "phase_fits (callers (lk_calls l) i) (lk_phase l i)" "in_range pages (callers (lk_calls l) i)"
  using assms unfolding mutex_ok_def by blast+

text \<open>One call moves: the others stay as they are.\<close>

lemma mutex_okI:
  assumes ok: "mutex_ok pages l" and c: "callers (lk_calls l') = (callers (lk_calls l))(i := x)" and p: "lk_phase l' = (lk_phase l)(i := p)"
    and fits: "phase_fits x p" "in_range pages x"
    and r: "lk_readers l' = (if p \<in> {InRead, OutRead} then insert i (lk_readers l) else lk_readers l - {i})"
    and w: "lk_writer l' = (if p \<in> {Announced, InWrite, OutWrite} then Some i else if lk_writer l = Some i then None else lk_writer l)"
    and free: "p \<in> {Announced, InWrite, OutWrite} \<Longrightarrow> lk_writer l \<in> {None, Some i}"
    and alone: "p \<in> {InWrite, OutWrite} \<Longrightarrow> lk_readers l' = {}"
    and others: "p \<in> {InRead, OutRead} \<Longrightarrow> lk_phase l i \<in> {InRead, OutRead} \<or> lk_writer l = None"
  shows "mutex_ok pages l'"
proof -
  have fin: "finite {j. callers (lk_calls l') j \<noteq> Idle}"
    by (rule finite_subset [OF _ finite.insertI [OF mutex_okD(1) [OF ok], of i]]) (auto simp: c)
  have rd: "j \<in> lk_readers l' \<longleftrightarrow> lk_phase l' j \<in> {InRead, OutRead}" for j
  proof (cases "j = i")
    case False
    with r have "j \<in> lk_readers l' \<longleftrightarrow> j \<in> lk_readers l" by simp
    with False show ?thesis by (simp add: p mutex_okD(2) [OF ok])
  qed (simp add: r p)
  have wr: "lk_writer l' = Some j \<longleftrightarrow> lk_phase l' j \<in> {Announced, InWrite, OutWrite}" for j
  proof (cases "j = i")
    case False
    have "lk_writer l' = Some j \<longleftrightarrow> lk_writer l = Some j" using False w free by auto
    with False show ?thesis by (simp add: p mutex_okD(3) [OF ok, of j])
  qed (simp add: w p)
  have al: "lk_readers l' = {}" if j: "lk_phase l' j \<in> {InWrite, OutWrite}" for j
  proof (cases "j = i")
    case True
    with j p alone show ?thesis by simp
  next
    case False
    with j p have j: "lk_phase l j \<in> {InWrite, OutWrite}" by simp
    have none: "lk_readers l = {}" by (rule mutex_okD(4) [OF ok j])
    moreover have "lk_writer l = Some j" using j mutex_okD(3) [OF ok, of j] by simp
    moreover have "lk_phase l i \<notin> {InRead, OutRead}" using none mutex_okD(2) [OF ok] by blast
    ultimately show ?thesis using r others by (cases "p \<in> {InRead, OutRead}") simp_all
  qed
  show ?thesis
    unfolding mutex_ok_def using fin rd wr al fits mutex_okD(5,6) [OF ok] by (auto simp: c p)
qed

lemma proceed_mutex:
  assumes "proceed pages l l'" and "mutex_ok pages l" and ne: "\<And>s. pages s \<noteq> []"
  shows "mutex_ok pages l'"
  using assms(1)
proof cases
  case (rlock i)
  show ?thesis
    by (rule mutex_okI [OF assms(2), of _ i "callers (lk_calls l) i" InRead])
      (use rlock mutex_okD(5,6) [OF assms(2), of i] in \<open>auto simp: phase_fits_def\<close>)
next
  case (get i c)
  note t = turn_caller [OF get(3)]
  have "in_range pages (callers c i)" by (rule t(4) [OF mutex_okD(6) [OF assms(2)] ne])
  then show ?thesis
    by (intro mutex_okI [OF assms(2), of _ i "callers c i" OutRead])
      (use get t(1,2,3) mutex_okD(2,3) [OF assms(2)] in \<open>auto split: if_splits\<close>)
next
  case (runlock i)
  show ?thesis
    by (rule mutex_okI [OF assms(2), of _ i "callers (lk_calls l) i" Outside])
      (use runlock mutex_okD(3,6) [OF assms(2), of i] in auto)
next
  case (lock i)
  show ?thesis
    by (rule mutex_okI [OF assms(2), of _ i "callers (lk_calls l) i" Announced])
      (use lock mutex_okD(2,6) [OF assms(2)] in \<open>auto simp: phase_fits_def\<close>)
next
  case (alone i)
  show ?thesis
    by (rule mutex_okI [OF assms(2), of _ i "callers (lk_calls l) i" InWrite])
      (use alone mutex_okD(3,5,6) [OF assms(2), of i] in \<open>auto simp: phase_fits_def\<close>)
next
  case (put i c)
  note t = turn_caller [OF put(3)]
  have "in_range pages (callers c i)" by (rule t(4) [OF mutex_okD(6) [OF assms(2)] ne])
  then show ?thesis
    by (intro mutex_okI [OF assms(2), of _ i "callers c i" OutWrite])
      (use put t(1,2,3) mutex_okD(3,4) [OF assms(2), of i] in \<open>auto split: if_splits\<close>)
next
  case (unlock i)
  show ?thesis
    by (rule mutex_okI [OF assms(2), of _ i "callers (lk_calls l) i" Outside])
      (use unlock mutex_okD(2) [OF assms(2)] mutex_okD(3,6) [OF assms(2), of i] in auto)
next
  case (fetch i s k c)
  note t = turn_caller [OF fetch(4)]
  have "in_range pages (callers c i)" by (rule t(4) [OF mutex_okD(6) [OF assms(2)] ne])
  then show ?thesis
    by (intro mutex_okI [OF assms(2), of _ i "callers c i" Outside])
      (use fetch t(1,2,3) mutex_okD(2,3) [OF assms(2)] in \<open>auto split: if_splits\<close>)
qed

lemma reachable_mutex:
  assumes "lk_reachable pages l" and ne: "\<And>s. pages s \<noteq> []"
  shows "mutex_ok pages l"
  using assms(1)
proof (induction rule: lk_reachable.induct)
  case start
  show ?case by (simp add: mutex_ok_def lk_initial_def in_range_def)
next
  case (step l l')
  have other: "mutex_ok pages (l\<lparr>lk_calls := at i x (lk_calls l)\<rparr>)"
    if "lk_phase l i = Outside" "fills x = None" for i x
    by (rule mutex_okI [OF step.IH, of _ i x Outside])
      (use that mutex_okD(2,3) [OF step.IH] in \<open>auto simp: in_range_def\<close>)
  from step.hyps(2) show ?case
  proof cases
    case proceed
    then show ?thesis using proceed_mutex [OF _ step.IH ne] by simp
  next
    case (call i s)
    then have "lk_phase l i = Outside" using mutex_okD(5) [OF step.IH, of i] by simp
    with call other [of i "Called s"] show ?thesis by simp
  next
    case (fail i s k)
    with other [of i "Failed s"] show ?thesis by simp
  qed
qed

section \<open>No call is stuck\<close>

definition under_way :: "locked \<Rightarrow> nat \<Rightarrow> bool" where
  "under_way l i \<longleftrightarrow> lk_phase l i \<noteq> Outside \<or> busy (callers (lk_calls l) i)"

lemma turn_enabled:
  "reads (callers c i) \<or> writes (callers c i) \<Longrightarrow> \<exists>c'. turn pages i c = Some c'"
  "callers c i = Fetching s k \<Longrightarrow> in_range pages (callers c i) \<Longrightarrow> \<exists>c'. turn pages i c = Some c'"
  by (cases "callers c i"; simp add: turn_def in_range_def)+

text \<open>
  A holder of the mutex can go on; with no holder the writer that waits can; and with the
  mutex free any call that is under way can.
\<close>

lemma not_stuck:
  assumes ok: "mutex_ok pages l" and i: "under_way l i"
  shows "\<exists>l'. proceed pages l l'"
proof (rule ccontr)
  assume "\<not> ?thesis"
  then have no: "\<not> proceed pages l l'" for l' by blast
  have phases: "lk_phase l j \<in> {Outside, Announced}" for j
  proof (cases "lk_phase l j")
    case InRead
    then have "reads (callers (lk_calls l) j)" using mutex_okD(5) [OF ok, of j] by (simp add: phase_fits_def)
    with turn_enabled(1) obtain c where "turn pages j (lk_calls l) = Some c" by blast
    with InRead no proceed.get show ?thesis by blast
  next
    case InWrite
    then have "writes (callers (lk_calls l) j)" using mutex_okD(5) [OF ok, of j] by (simp add: phase_fits_def)
    with turn_enabled(1) obtain c where "turn pages j (lk_calls l) = Some c" by blast
    with InWrite no proceed.put show ?thesis by blast
  qed (use no proceed.runlock proceed.unlock in \<open>blast+\<close>)
  then have "lk_phase l j \<notin> {InRead, OutRead}" for j by (metis insertE phase.distinct singletonD)
  then have free: "lk_readers l = {}" using mutex_okD(2) [OF ok] by simp
  have out: "lk_phase l j = Outside" for j
    using phases [of j] no proceed.alone [OF _ free] by blast
  then have none: "lk_writer l = None" using mutex_okD(3) [OF ok] by (cases "lk_writer l") auto
  from i out have busy: "busy (callers (lk_calls l) i)" by (simp add: under_way_def)
  moreover have "\<not> reads (callers (lk_calls l) i)" using no proceed.rlock [OF out _ none] by blast
  moreover have "\<not> writes (callers (lk_calls l) i)" using no proceed.lock [OF out _ none] by blast
  ultimately obtain s k where f: "callers (lk_calls l) i = Fetching s k" by (cases "callers (lk_calls l) i") auto
  obtain c where "turn pages i (lk_calls l) = Some c" using turn_enabled(2) [OF f mutex_okD(6) [OF ok]] by blast
  with no proceed.fetch [OF out f] show False by blast
qed

section \<open>Every run ends\<close>

text \<open>The steps a call has still before it at most: three for each reading, four for each storing, one for each fetch.\<close>

fun rest :: "(string \<Rightarrow> role_assignment list list) \<Rightarrow> caller \<Rightarrow> nat" where
  "rest pages (Called s) = 8 * length (pages s) + 3"
| "rest pages (Fetching s k) = 8 * (length (pages s) - k)"
| "rest pages (Reading s k) = 8 * (length (pages s) - k) - 1"
| "rest pages (Storing s k as) = 8 * (length (pages s) - k) - 4"
| "rest pages _ = 0"

fun steps_left :: "nat \<Rightarrow> phase \<Rightarrow> nat" where
  "steps_left n Outside = n"
| "steps_left n InRead = n - 1"
| "steps_left n OutRead = n + 1"
| "steps_left n Announced = n - 1"
| "steps_left n InWrite = n - 2"
| "steps_left n OutWrite = n + 1"

definition call_work :: "(string \<Rightarrow> role_assignment list list) \<Rightarrow> locked \<Rightarrow> nat \<Rightarrow> nat" where
  "call_work pages l i = steps_left (rest pages (callers (lk_calls l) i)) (lk_phase l i)"

definition work :: "(string \<Rightarrow> role_assignment list list) \<Rightarrow> locked \<Rightarrow> nat" where
  "work pages l = (\<Sum>i\<in>{i. callers (lk_calls l) i \<noteq> Idle}. call_work pages l i)"

lemma access_rest:
  assumes "turn pages i c = Some c'" and "in_range pages (callers c i)"
  shows "reads (callers c i) \<Longrightarrow> rest pages (callers c' i) + 3 \<le> rest pages (callers c i)"
    and "writes (callers c i) \<Longrightarrow> rest pages (callers c' i) + 4 \<le> rest pages (callers c i)"
    and "callers c i = Fetching s k \<Longrightarrow> rest pages (callers c' i) < rest pages (callers c i)"
  using assms by (auto simp: turn_def in_range_def after_page_def split: caller.splits if_splits)

lemma rest_bounds: "in_range pages x \<Longrightarrow> reads x \<Longrightarrow> 3 \<le> rest pages x" "in_range pages x \<Longrightarrow> writes x \<Longrightarrow> 4 \<le> rest pages x"
  by (cases x; auto simp: in_range_def)+

text \<open>A step is one of a single call, which it brings closer to its end.\<close>

lemma proceed_call:
  assumes "proceed pages l l'" and ok: "mutex_ok pages l"
  shows "\<exists>i. callers (lk_calls l) i \<noteq> Idle \<and> callers (lk_calls l') i \<noteq> Idle \<and> call_work pages l' i < call_work pages l i \<and>
    (\<forall>j. j \<noteq> i \<longrightarrow> callers (lk_calls l') j = callers (lk_calls l) j \<and> lk_phase l' j = lk_phase l j)"
  using assms(1)
proof cases
  case (rlock i)
  then show ?thesis
    using rest_bounds(1) [OF mutex_okD(6) [OF ok, of i]] by (intro exI [of _ i]) (auto simp: call_work_def)
next
  case (get i c)
  have r: "reads (callers (lk_calls l) i)" using get(2) mutex_okD(5) [OF ok, of i] by (simp add: phase_fits_def)
  show ?thesis
    using get turn_caller(1,2,5) [OF get(3)] access_rest(1) [OF get(3) mutex_okD(6) [OF ok] r]
    by (intro exI [of _ i]) (auto simp: call_work_def)
next
  case (runlock i)
  then show ?thesis using mutex_okD(5) [OF ok, of i] by (intro exI [of _ i]) (auto simp: call_work_def)
next
  case (lock i)
  then show ?thesis
    using rest_bounds(2) [OF mutex_okD(6) [OF ok, of i]] by (intro exI [of _ i]) (auto simp: call_work_def)
next
  case (alone i)
  have "writes (callers (lk_calls l) i)" using alone(2) mutex_okD(5) [OF ok, of i] by (simp add: phase_fits_def)
  with alone rest_bounds(2) [OF mutex_okD(6) [OF ok, of i]] show ?thesis
    by (intro exI [of _ i]) (auto simp: call_work_def)
next
  case (put i c)
  have r: "writes (callers (lk_calls l) i)" using put(2) mutex_okD(5) [OF ok, of i] by (simp add: phase_fits_def)
  show ?thesis
    using put turn_caller(1,2,5) [OF put(3)] access_rest(2) [OF put(3) mutex_okD(6) [OF ok] r]
    by (intro exI [of _ i]) (auto simp: call_work_def)
next
  case (unlock i)
  then show ?thesis using mutex_okD(5) [OF ok, of i] by (intro exI [of _ i]) (auto simp: call_work_def)
next
  case (fetch i s k c)
  show ?thesis
    using fetch turn_caller(1,2,5) [OF fetch(4)] access_rest(3) [OF fetch(4) mutex_okD(6) [OF ok] fetch(3)]
    by (intro exI [of _ i]) (auto simp: call_work_def)
qed

lemma proceed_work:
  assumes "proceed pages l l'" and ok: "mutex_ok pages l"
  shows "work pages l' < work pages l"
proof -
  obtain i where i: "callers (lk_calls l) i \<noteq> Idle" "callers (lk_calls l') i \<noteq> Idle" "call_work pages l' i < call_work pages l i"
    and same: "\<forall>j. j \<noteq> i \<longrightarrow> callers (lk_calls l') j = callers (lk_calls l) j \<and> lk_phase l' j = lk_phase l j"
    using proceed_call [OF assms] by blast
  have "{j. callers (lk_calls l') j \<noteq> Idle} = {j. callers (lk_calls l) j \<noteq> Idle}" using i(1,2) same by force
  moreover have "call_work pages l' j \<le> call_work pages l j" for j
    using i(3) same by (cases "j = i") (simp_all add: call_work_def)
  ultimately show ?thesis
    using i unfolding work_def by (simp add: sum_strict_mono_strong [OF mutex_okD(1) [OF ok], of i])
qed

text \<open>A call keeps its subscription until it returns.\<close>

definition works_for :: "string \<Rightarrow> caller \<Rightarrow> bool" where
  "works_for s x \<longleftrightarrow> x = Called s \<or> (\<exists>k. fills x = Some (s, k)) \<or> x = Returned s"

lemma turn_works_for: "turn pages i c = Some c' \<Longrightarrow> works_for s (callers c j) \<Longrightarrow> works_for s (callers c' j)"
  by (auto simp: turn_def works_for_def after_page_def split: caller.splits if_splits)

lemma proceed_works_for: "proceed pages l l' \<Longrightarrow> works_for s (callers (lk_calls l) j) \<Longrightarrow> works_for s (callers (lk_calls l') j)"
  by (auto elim!: proceed.cases dest: turn_works_for)

lemma run_ends:
  assumes "(proceed pages ^^ n) l l'" and "mutex_ok pages l" and "\<And>s. pages s \<noteq> []"
  shows "n + work pages l' \<le> work pages l \<and> mutex_ok pages l' \<and>
    (works_for s (callers (lk_calls l) j) \<longrightarrow> works_for s (callers (lk_calls l') j))"
  using assms(1)
proof (induction n arbitrary: l')
  case 0
  with assms(2) show ?case by simp
next
  case (Suc n)
  then obtain l1 where l1: "(proceed pages ^^ n) l l1" "proceed pages l1 l'" by auto
  from Suc.IH [OF l1(1)] have ok: "mutex_ok pages l1" "n + work pages l1 \<le> work pages l" by simp_all
  from proceed_work [OF l1(2) ok(1)] proceed_mutex [OF l1(2) ok(1) assms(3)] ok(2) Suc.IH [OF l1(1)] proceed_works_for [OF l1(2)]
  show ?case by auto
qed

text \<open>
  C21: the calls return, and the mutex does not stop them. From whatever state overlapping
  calls have come to, with readers and writers holding the mutex or waiting for it, no run
  of calls that do not fail is longer than the work there is, which is at most eight steps
  for each page of a call and three more; and when no call can go on, every one that was
  under way has returned and the mutex is free. So no call is blocked for good and none
  goes on for ever, in whatever order they take their turns.
\<close>

theorem calls_return:
  assumes "lk_reachable pages l" and "\<And>s. pages s \<noteq> []" and "(proceed pages ^^ n) l l'"
  shows "n \<le> work pages l \<and>
    ((\<exists>l''. proceed pages l' l'') \<or>
     lk_readers l' = {} \<and> lk_writer l' = None \<and>
     (\<forall>i s. works_for s (callers (lk_calls l) i) \<longrightarrow> callers (lk_calls l') i = Returned s))"
proof -
  have ok: "mutex_ok pages l" by (rule reachable_mutex [OF assms(1,2)])
  note run = run_ends [OF assms(3) ok assms(2)]
  have ok': "mutex_ok pages l'" and n: "n \<le> work pages l" using run by (blast, meson add_leD1)
  have "lk_readers l' = {} \<and> lk_writer l' = None \<and>
      (\<forall>i s. works_for s (callers (lk_calls l) i) \<longrightarrow> callers (lk_calls l') i = Returned s)"
    if no: "\<not> (\<exists>l''. proceed pages l' l'')"
  proof -
    have idle: "\<not> under_way l' i" for i using not_stuck [OF ok', of i] no by blast
    then have out: "lk_phase l' i = Outside" "\<not> busy (callers (lk_calls l') i)" for i by (simp_all add: under_way_def)
    have "lk_readers l' = {}" using mutex_okD(2) [OF ok'] out(1) by simp
    moreover have "lk_writer l' = None" using mutex_okD(3) [OF ok'] out(1) by (cases "lk_writer l'") auto
    moreover have "callers (lk_calls l') i = Returned s" if "works_for s (callers (lk_calls l) i)" for i s
      using run [of s i] that out(2) [of i] by (cases "callers (lk_calls l') i") (auto simp: works_for_def)
    ultimately show ?thesis by blast
  qed
  with n show ?thesis by blast
qed

text \<open>Two calls for the same subscription; \<open>run_out\<close> gives a run that has come to its end.\<close>

lemma run_out:
  assumes "mutex_ok pages l" and "\<And>s. pages s \<noteq> []"
  shows "\<exists>n l'. (proceed pages ^^ n) l l' \<and> (\<nexists>l''. proceed pages l' l'')"
  using assms(1)
proof (induction "work pages l" arbitrary: l rule: less_induct)
  case less
  show ?case
  proof (cases "\<exists>l1. proceed pages l l1")
    case True
    then obtain l1 where l1: "proceed pages l l1" by blast
    from less.hyps [OF proceed_work [OF l1 less.prems] proceed_mutex [OF l1 less.prems assms(2)]]
    obtain n l' where "(proceed pages ^^ n) l1 l'" "\<nexists>l''. proceed pages l' l''" by blast
    with relpowp_Suc_I2 [of "proceed pages", OF l1] show ?thesis by blast
  next
    case False
    then show ?thesis by (intro exI [of _ 0] exI [of _ l]) simp
  qed
qed

definition two_locked :: locked where
  "two_locked = lk_initial\<lparr>lk_calls := two_calls ''s''\<rparr>"

lemma two_locked_reachable: "lk_reachable pages two_locked"
proof -
  have "two_locked = (lk_initial\<lparr>lk_calls := at 0 (Called ''s'') (lk_calls lk_initial)\<rparr>)
      \<lparr>lk_calls := at 1 (Called ''s'') (lk_calls (lk_initial\<lparr>lk_calls := at 0 (Called ''s'') (lk_calls lk_initial)\<rparr>))\<rparr>"
    by (simp add: two_locked_def two_calls_def lk_initial_def)
  moreover have "lk_reachable pages \<dots>"
    by (intro lk_reachable.step [OF _ lock_step.call] lk_reachable.start) (simp_all add: lk_initial_def)
  ultimately show ?thesis by simp
qed

theorem calls_return_witness:
  "\<exists>n l. (proceed race_pages ^^ n) two_locked l \<and> callers (lk_calls l) 0 = Returned ''s'' \<and>
    callers (lk_calls l) 1 = Returned ''s'' \<and> lk_writer l = None"
proof -
  have ne: "race_pages s \<noteq> []" for s by (simp add: race_pages_def)
  obtain n l where l: "(proceed race_pages ^^ n) two_locked l" "\<nexists>l''. proceed race_pages l l''"
    using run_out [where pages = race_pages, OF reachable_mutex [OF two_locked_reachable ne] ne] by blast
  have "works_for ''s'' (callers (lk_calls two_locked) 0)" "works_for ''s'' (callers (lk_calls two_locked) 1)"
    by (simp_all add: two_locked_def two_calls_def works_for_def)
  with calls_return [where pages = race_pages, OF two_locked_reachable ne l(1)] l show ?thesis by blast
qed

end
