(* ===== verification/Cache_Laws.thy ===== *)
theory Cache_Laws
  imports Group_Laws "HOL-Library.Multiset"
begin

text \<open>
  The HTTP cache is invisible. The service is taken to answer by what a request asks, not
  by the key under which the client stores the answer; that two requests with one key ask
  the same is proved of the keys, for requests to Graph whose path has no question mark
  and whose parameters have no separators in them. Every URL the connector builds of plain
  segments makes such a request.
\<close>

section \<open>What a request asks\<close>

definition question ::
  "request \<Rightarrow> string \<times> string \<times> (string \<times> string) multiset \<times> (string \<times> string) list" where
  "question req =
     (url_host (req_url req), to_lower (url_path (req_url req)),
      mset (parse_query (url_raw_query (req_url req))), req_headers req)"

text \<open>
  Requests to Graph under one token whose parts the key keeps apart: no question mark in
  the path, no equals sign in a name and no ampersand in a name or a value.
\<close>

definition separable :: "string \<Rightarrow> request \<Rightarrow> bool" where
  "separable tok req \<longleftrightarrow> url_host (req_url req) = api_domain \<and> req_headers req = graph_headers tok \<and>
     CHR ''?'' \<notin> set (url_path (req_url req)) \<and>
     list_all (\<lambda>(k, v). CHR ''='' \<notin> set k \<and> CHR ''&'' \<notin> set k \<and> CHR ''&'' \<notin> set v)
       (parse_query (url_raw_query (req_url req)))"

lemma lower_char_question: "lower_char c = CHR ''?'' \<Longrightarrow> c = CHR ''?''"
proof (rule ccontr)
  assume l: "lower_char c = CHR ''?''" and "c \<noteq> CHR ''?''"
  then have b: "65 \<le> byte_of c" "byte_of c \<le> 90" and "char_of (byte_of c + 32) = CHR ''?''"
    by (auto simp: lower_char_def split: if_splits)
  from arg_cong [OF this(3), of "of_char :: char \<Rightarrow> nat"] b show False by (simp add: of_char_of)
qed

lemma to_lower_question: "CHR ''?'' \<notin> set p \<Longrightarrow> CHR ''?'' \<notin> set (to_lower p)"
  by (auto simp: to_lower_def dest: lower_char_question [OF sym])

text \<open>The parameters can be read off the sorted list of their texts.\<close>

definition pair_text :: "string \<times> string \<Rightarrow> string" where
  "pair_text kv = fst kv @ ''='' @ snd kv"

lemma pair_text_cut: "CHR ''='' \<notin> set (fst kv) \<Longrightarrow> cut_at (CHR ''='') (pair_text kv) = kv"
  by (cases kv) (simp add: pair_text_def cut_at_fst)

lemma pair_texts_mset:
  assumes "\<forall>kv\<in>set xs. CHR ''='' \<notin> set (fst kv)" and "\<forall>kv\<in>set ys. CHR ''='' \<notin> set (fst kv)"
    and "sort (map pair_text xs) = sort (map pair_text ys)"
  shows "mset xs = mset ys"
proof -
  have undo: "map (cut_at (CHR ''='') \<circ> pair_text) zs = zs" if "\<forall>kv\<in>set zs. CHR ''='' \<notin> set (fst kv)" for zs
    using that by (induction zs) (simp_all add: pair_text_cut)
  have "mset (map pair_text xs) = mset (map pair_text ys)"
    using assms(3) by (metis mset_sort)
  then have "mset (map (cut_at (CHR ''='')) (map pair_text xs)) = mset (map (cut_at (CHR ''='')) (map pair_text ys))"
    by (metis mset_map)
  with undo [OF assms(1)] undo [OF assms(2)] show ?thesis by simp
qed

lemma join_inject:
  assumes "\<forall>x\<in>set xs. x \<noteq> [] \<and> c \<notin> set x" and "\<forall>y\<in>set ys. y \<noteq> [] \<and> c \<notin> set y"
    and "join_with [c] xs = join_with [c] ys"
  shows "xs = ys"
proof -
  have e: "join_with [c] zs = [] \<longleftrightarrow> zs = []" if "\<forall>z\<in>set zs. z \<noteq> [] \<and> c \<notin> set z" for zs
    using that by (cases zs rule: remdups_adj.cases) auto
  show ?thesis
    using e [OF assms(1)] e [OF assms(2)] assms split_at_join [of xs c] split_at_join [of ys c] by metis
qed

lemma cache_key_parts:
  "cache_key req = to_lower (url_path (req_url req)) @ CHR ''?'' #
     join_with ''&'' (sort (map pair_text (parse_query (url_raw_query (req_url req)))))
     @ ''&headers='' @ join_with ''&'' (sort (map pair_text (filter (\<lambda>(k, v). k \<in> {''Accept'', ''Content-Type'', ''Cookie'', ''Range''}) (req_headers req))))"
  by (simp add: cache_key_def pair_text_def [abs_def] case_prod_unfold Let_def)

text \<open>Requests with the same key ask the same.\<close>

lemma cache_key_question:
  assumes "separable tok r" and "separable tok s" and "cache_key r = cache_key s"
  shows "question r = question s"
proof -
  let ?p = "\<lambda>r. to_lower (url_path (req_url r))" and ?q = "\<lambda>r. parse_query (url_raw_query (req_url r))"
  let ?j = "\<lambda>r. join_with ''&'' (sort (map pair_text (?q r)))"
  have h: "req_headers r = req_headers s" "url_host (req_url r) = url_host (req_url s)"
    using assms(1,2) by (simp_all add: separable_def)
  have e: "?p r @ CHR ''?'' # ?j r = ?p s @ CHR ''?'' # ?j s"
    using assms(3) unfolding cache_key_parts h(1) by simp
  have n: "CHR ''?'' \<notin> set (?p r)" "CHR ''?'' \<notin> set (?p s)"
    using assms(1,2) by (simp_all add: separable_def to_lower_question)
  from arg_cong [OF e, of "cut_at (CHR ''?'')"] have p: "?p r = ?p s" and j: "?j r = ?j s"
    by (simp_all add: cut_at_fst n)
  have names: "\<forall>kv\<in>set (?q x). CHR ''='' \<notin> set (fst kv)"
    and texts: "\<forall>t\<in>set (sort (map pair_text (?q x))). t \<noteq> [] \<and> CHR ''&'' \<notin> set t" if "separable tok x" for x
    using that by (auto simp: separable_def list_all_iff pair_text_def)
  have "mset (?q r) = mset (?q s)"
    by (rule pair_texts_mset [OF names [OF assms(1)] names [OF assms(2)]
          join_inject [OF texts [OF assms(1)] texts [OF assms(2)] j]])
  with p h show ?thesis by (simp add: question_def)
qed

section \<open>A service that does not change\<close>

text \<open>One token, and an answer to every GET that is a function of what it asks.\<close>

type_synonym answers =
  "string \<times> string \<times> (string \<times> string) multiset \<times> (string \<times> string) list \<Rightarrow> response"

definition fixed_service :: "env \<Rightarrow> answers \<Rightarrow> string \<Rightarrow> bool" where
  "fixed_service env answer tok \<longleftrightarrow>
     (\<forall>h. env_token env h = Inr tok) \<and>
     (\<forall>h req. req_method req = ''GET'' \<longrightarrow> env_http env h req = Received (answer (question req)))"

text \<open>The same environment when the backend never has an entry.\<close>

definition uncached :: "env \<Rightarrow> env" where
  "uncached env = env\<lparr>env_cache_retains := \<lambda>_ _. False\<rparr>"

text \<open>Every entry is the answer to some request with that key.\<close>

definition holds_answers :: "answers \<Rightarrow> string \<Rightarrow> 'z world_scheme \<Rightarrow> bool" where
  "holds_answers answer tok w \<longleftrightarrow>
     (\<forall>k r. map_of (http_cache w) k = Some r \<longrightarrow>
        (\<exists>req. separable tok req \<and> cache_key req = k \<and> r = answer (question req)))"

text \<open>The request a URL leads to, if any, is separable.\<close>

definition asks_separably :: "string \<Rightarrow> string \<Rightarrow> bool" where
  "asks_separably tok u =
     (case bind_sum (url_parse u) (\<lambda>a. new_request ''GET'' a tok NoBody) of
        Inl e \<Rightarrow> True | Inr req \<Rightarrow> separable tok req)"

lemma holds_answers_log [simp]: "holds_answers answer tok (log_events es w) = holds_answers answer tok w"
  by (simp add: holds_answers_def)

lemma holds_answers_set:
  "holds_answers answer tok w \<Longrightarrow> separable tok req \<Longrightarrow> holds_answers answer tok (cache_set req (answer (question req)) w)"
  by (auto simp: holds_answers_def cache_set_def)

lemma obtain_fixed:
  assumes "fixed_service env answer tok" and "holds_answers answer tok w" and "separable tok req"
    and "req_method req = ''GET''"
  shows "\<exists>w'. obtain_response env req w = (Inr (answer (question req)), w') \<and> holds_answers answer tok w'"
proof (cases "cache_get env req w")
  case None
  with assms show ?thesis by (simp add: obtain_response_def send_def fixed_service_def)
next
  case (Some r)
  then have "map_of (http_cache w) (cache_key req) = Some r" by (auto simp: cache_get_def split: if_splits)
  with assms(2) obtain s where "separable tok s" "cache_key s = cache_key req" "r = answer (question s)"
    by (auto simp: holds_answers_def)
  with cache_key_question [OF assms(3)] Some assms(2,4) show ?thesis
    by (metis obtain_response_def option.simps(5))
qed

text \<open>What \<open>query\<close> makes of a response, wherever it came from.\<close>

lemma query_of_response:
  assumes "env_token env (history w) = Inr tok" and "url_parse u = Inr a" and "new_request ''GET'' a tok NoBody = Inr req"
    and "obtain_response env req (log_event (TokenRequest scopes) w) = (Inr resp, w1)"
  shows "query env scopes ''GET'' u NoBody target cur w =
    (expected_answer env (\<lambda>_. resp) tok u target cur, if resp_status resp = 200 then cache_set req resp w1 else w1)"
proof -
  obtain r oe where wr: "with_response env target resp cur = (r, oe)" by fastforce
  have "req_method req = ''GET''" using new_request_body [OF assms(3)] by simp
  with assms wr show ?thesis
    by (cases "status_result resp (error_list oe)")
      (auto simp: query_def do_request_def base_do_def expected_answer_def error_list_def Let_def)
qed

lemma query_fixed:
  assumes "fixed_service env answer tok" and "holds_answers answer tok w" and "asks_separably tok u"
  shows "\<exists>resp w'. query env scopes ''GET'' u NoBody target cur w = (expected_answer env (\<lambda>_. resp) tok u target cur, w') \<and>
    holds_answers answer tok w' \<and>
    (\<forall>a req. url_parse u = Inr a \<longrightarrow> new_request ''GET'' a tok NoBody = Inr req \<longrightarrow> resp = answer (question req))"
proof -
  have tok: "env_token env h = Inr tok" for h using assms(1) by (simp add: fixed_service_def)
  let ?w = "log_event (TokenRequest scopes) w"
  show ?thesis
  proof (cases "bind_sum (url_parse u) (\<lambda>a. new_request ''GET'' a tok NoBody)")
    case (Inl e)
    with assms(2) show ?thesis
      by (cases "url_parse u") (auto simp: query_def tok do_request_def expected_answer_def Let_def)
  next
    case (Inr req)
    then obtain a where a: "url_parse u = Inr a" "new_request ''GET'' a tok NoBody = Inr req"
      by (cases "url_parse u") auto
    have s: "separable tok req" using assms(3) Inr by (simp add: asks_separably_def)
    have "holds_answers answer tok ?w" using assms(2) by simp
    from obtain_fixed [OF assms(1) this s] new_request_body [OF a(2)] obtain w1 where
      o: "obtain_response env req ?w = (Inr (answer (question req)), w1)" and w1: "holds_answers answer tok w1" by blast
    define w' where "w' = (if resp_status (answer (question req)) = 200 then cache_set req (answer (question req)) w1 else w1)"
    have "query env scopes ''GET'' u NoBody target cur w = (expected_answer env (\<lambda>_. answer (question req)) tok u target cur, w')"
      unfolding w'_def by (rule query_of_response [OF tok a o])
    moreover have "holds_answers answer tok w'" using holds_answers_set [OF w1 s] w1 by (simp add: w'_def)
    ultimately show ?thesis using a by auto
  qed
qed

lemma uncached_fixed: "fixed_service env answer tok \<Longrightarrow> fixed_service (uncached env) answer tok"
  by (simp add: fixed_service_def uncached_def)

lemma uncached_answer: "expected_answer (uncached env) site tok u target cur = expected_answer env site tok u target cur"
proof -
  have e: "with_response (uncached env) target = with_response env target"
    by (rule ext)+ (simp add: with_response_def uncached_def)
  show ?thesis unfolding expected_answer_def e ..
qed


section \<open>The cache changes nothing\<close>

text \<open>
  C28: against a service that does not change, the cache changes nothing. Whatever the
  backend keeps or drops and whatever earlier calls stored, a GET gives what it gives a
  process that has just started and has no cache, though the answers may differ by host,
  path (but for the case of letters), parameters and headers; and the cache then still holds
  only answers to requests with the key they are stored under. The requests are those to
  Graph's host whose path has no question mark and whose parameters have no ampersand, and
  no equals sign in a name: others can share a key and get each other's answer.
\<close>

theorem query_cache_transparent:
  assumes "fixed_service env answer tok" and "holds_answers answer tok w" and "asks_separably tok u"
  shows "fst (query env scopes ''GET'' u NoBody target cur w) = fst (query (uncached env) scopes ''GET'' u NoBody target cur start_world) \<and>
    holds_answers answer tok (snd (query env scopes ''GET'' u NoBody target cur w))"
proof -
  obtain resp w1 where q: "query env scopes ''GET'' u NoBody target cur w = (expected_answer env (\<lambda>_. resp) tok u target cur, w1)"
      "holds_answers answer tok w1"
    and r: "\<forall>a req. url_parse u = Inr a \<longrightarrow> new_request ''GET'' a tok NoBody = Inr req \<longrightarrow> resp = answer (question req)"
    using query_fixed [OF assms] by metis
  have "holds_answers answer tok start_world" by (simp add: holds_answers_def start_world_def)
  from query_fixed [OF uncached_fixed [OF assms(1)] this assms(3)] obtain resp' w2 where
    q': "query (uncached env) scopes ''GET'' u NoBody target cur start_world = (expected_answer env (\<lambda>_. resp') tok u target cur, w2)"
    and r': "\<forall>a req. url_parse u = Inr a \<longrightarrow> new_request ''GET'' a tok NoBody = Inr req \<longrightarrow> resp' = answer (question req)"
    unfolding uncached_answer by metis
  have "expected_answer env (\<lambda>_. resp) tok u target cur = expected_answer env (\<lambda>_. resp') tok u target cur"
    using r r' by (auto simp: expected_answer_def split: sum.split)
  with q q' show ?thesis by simp
qed

text \<open>The URLs the connector builds of plain segments are of this kind.\<close>

lemma built_url_separable:
  assumes "version \<in> {api_version, beta_version}" and "es \<noteq> []" and "\<forall>e\<in>set es. plain_segment e \<and> CHR ''?'' \<notin> set e"
    and "\<forall>(k, v)\<in>set vs. CHR ''='' \<notin> set k \<and> CHR ''&'' \<notin> set k \<and> CHR ''&'' \<notin> set v"
  shows "asks_separably tok (url_string (graph_url version (path_join es) vs))"
proof -
  have "CHR ''?'' \<notin> set (join_with ''/'' es)"
    using assms(3) by (induction "''/''" es rule: join_with.induct) auto
  then have "CHR ''?'' \<notin> set (version @ ''/'' @ join_with ''/'' es)"
    using assms(1) by (auto simp: api_version_def beta_version_def)
  moreover have "\<forall>e\<in>set es. plain_segment e" using assms(3) by blast
  then have "asks_separably tok (url_string (graph_url version (path_join es) vs)) \<longleftrightarrow>
      separable tok \<lparr>req_method = ''GET'', req_url = graph_address (version @ ''/'' @ join_with ''/'' es) vs,
        req_headers = graph_headers tok, req_body = json_body NoBody\<rparr>"
    using graph_url_plain [OF assms(1,2)] by (simp add: asks_separably_def new_request_address)
  ultimately show ?thesis
    using assms(4) by (simp add: separable_def graph_address_def empty_url_def parse_query_encode list_all_iff)
qed

lemma relation_urls_separable:
  assumes "plain_segment (rid_resource (res_id r))" and "CHR ''?'' \<notin> set (rid_resource (res_id r))"
  shows "asks_separably tok (members_url conn r)" "asks_separably tok (owners_url r)"
  unfolding members_url_def owners_url_def build_beta_url_def
  by (rule built_url_separable; use assms in \<open>auto simp: plain_segment_def skip_ad_filter_def set_member_query_def values_set_def assoc_set_def\<close>)+

text \<open>
  A service that answers by the path and the value of \<open>$top\<close>, behind a cache that keeps
  everything: the second of two calls for the users is answered by the first, which has the
  parameters the other way around.
\<close>

definition users_answer :: answers where
  "users_answer q = (case q of (host, path, params, headers) \<Rightarrow>
     json_response 200 (if path = ''/v1.0/users'' \<and> (''$top'', ''1'') \<in># params then ''{\"@odata.nextLink\":\"n\"}'' else ''{}''))"

definition keeping_env :: env where
  "keeping_env = (quiet_env (\<lambda>req. Received (users_answer (question req))))\<lparr>env_cache_retains := \<lambda>_ _. True\<rparr>"

definition ask_users :: "env \<Rightarrow> string \<Rightarrow> builders \<Rightarrow> (error option \<times> user graph_list) \<times> builders" where
  "ask_users env params w = query env graph_read_scopes ''GET'' (''https://graph.microsoft.com/v1.0/users?'' @ params)
     NoBody (Some dec_users_list) zero_graph_list w"

definition asked_world :: builders where
  "asked_world = snd (ask_users keeping_env ''$top=1&$select=id'' start_world)"

theorem query_cache_transparent_witness:
  "fst (ask_users keeping_env ''$select=id&$top=1'' asked_world) = fst (ask_users (uncached keeping_env) ''$select=id&$top=1'' start_world) \<and>
    sent asked_world (snd (ask_users keeping_env ''$select=id&$top=1'' asked_world)) = [] \<and>
    map (\<lambda>r. url_path (req_url r)) (sent start_world asked_world) = [''/v1.0/users'']"
proof (intro conjI)
  have f: "fixed_service keeping_env users_answer ''t''" by (simp add: fixed_service_def keeping_env_def quiet_env_def)
  have s: "asks_separably ''t'' ''https://graph.microsoft.com/v1.0/users?$top=1&$select=id''"
    "asks_separably ''t'' ''https://graph.microsoft.com/v1.0/users?$select=id&$top=1''" by code_simp+
  have "holds_answers users_answer ''t'' start_world" by (simp add: holds_answers_def start_world_def)
  from query_cache_transparent [OF f this s(1), of graph_read_scopes "Some dec_users_list" zero_graph_list] have "holds_answers users_answer ''t'' asked_world"
    by (simp add: asked_world_def ask_users_def)
  from query_cache_transparent [OF f this s(2), of graph_read_scopes "Some dec_users_list" zero_graph_list] show
    "fst (ask_users keeping_env ''$select=id&$top=1'' asked_world) = fst (ask_users (uncached keeping_env) ''$select=id&$top=1'' start_world)"
    by (simp add: ask_users_def)
  show "sent asked_world (snd (ask_users keeping_env ''$select=id&$top=1'' asked_world)) = []"
    "map (\<lambda>r. url_path (req_url r)) (sent start_world asked_world) = [''/v1.0/users'']" by code_simp+
qed

end
