(* ===== verification/Startup_Laws.thy ===== *)
theory Startup_Laws
  imports App_Laws
begin

text \<open>
  Starting up: which configurations give a connector, with which credential, organizations
  and syncers, and what that asks of Graph; and what the process keeps while it serves.
\<close>

section \<open>A connector that starts\<close>

definition expected_credential :: "viper \<Rightarrow> credential" where
  "expected_credential v =
     (let tenant = get_string v ''azure-tenant-id''; client = get_string v ''azure-client-id'';
          secret = get_string v ''azure-client-secret'' in
      if get_bool v ''use-cli-credentials'' then CliCredential
      else if [] \<in> {tenant, client, secret} then DefaultCredential tenant
      else ClientSecretCredential tenant client secret)"

definition organizations_query ::
  "env \<Rightarrow> 'z world_scheme \<Rightarrow> organizations outcome \<times> 'z world_scheme" where
  "organizations_query env =
     query_value env ''GET'' (build_beta_url ''organization'' []) NoBody dec_organizations \<lparr>orgs_value = []\<rparr>"

lemma check_Ok: "check e w = (Ok (), w') \<longleftrightarrow> e = None \<and> w' = w"
  by (auto simp: check_def return_io_def fail_io_def split: option.split)

lemma new_arm_client_Ok: "new_arm_client env w = (Ok u, w') \<longleftrightarrow> env_arm_client env = None \<and> w' = w"
  by (auto simp: new_arm_client_def return_io_def fail_io_def split: option.split)

lemma organization_ids_Ok: "organization_ids resp = Ok ids \<Longrightarrow> map Some ids = map (map_option org_id) (orgs_value resp)"
proof -
  have "convert_all (\<lambda>p. bind_outcome (deref p) (\<lambda>org. Ok (org_id org))) ps = Ok ids \<Longrightarrow>
      map Some ids = map (map_option org_id) ps" for ps ids
    by (induction ps arbitrary: ids) auto
  then show "organization_ids resp = Ok ids \<Longrightarrow> map Some ids = map (map_option org_id) (orgs_value resp)"
    by (simp add: organization_ids_def)
qed

lemma query_value_sent:
  assumes "query_value env m u b dec zero w = (x, w')" and "url_parse u = Inr a"
  shows "\<exists>es. history w' = history w @ TokenRequest graph_read_scopes # es \<and>
    (es = [] \<or> (\<exists>tok req. new_request m a tok b = Inr req \<and> es = [HttpEvent req]))"
proof -
  obtain y where "query env graph_read_scopes m u b (Some dec) zero w = (y, w')"
    using assms(1) by (cases "query env graph_read_scopes m u b (Some dec) zero w")
      (auto simp: query_value_def split: option.splits)
  from query_history [OF this] assms(2) show ?thesis by auto
qed

lemma of_sum_Ok: "of_sum s = Ok x \<longleftrightarrow> s = Inr x"
  by (cases s) simp_all

lemma served_types:
  "connector_server = Inr srv \<Longrightarrow> dom srv = {''user'', ''group'', ''subscription'', ''tenant'',
     ''resource_group'', ''managed_identity'', ''enterprise_application'', ''role''}"
  unfolding connector_server_eq sum.inject by (hypsubst, simp only: dom_fun_upd dom_empty option.distinct if_False) (simp add: insert_commute)

lemma organizations_url:
  "url_parse (build_beta_url ''organization'' []) = Inr (graph_address ''beta/organization'' [])"
proof -
  have "path_join [''organization''] = ''organization''" by code_simp
  then show ?thesis
    using graph_url_plain [of beta_version "[''organization'']" "[]"]
    by (simp add: build_beta_url_def plain_segment_def beta_version_def)
qed

lemma sent_organizations:
  assumes "organizations_query env w = (x, w')"
  shows "length (sent w w') \<le> 1 \<and>
    (\<forall>req\<in>set (sent w w'). req_method req = ''GET'' \<and> url_host (req_url req) = ''graph.microsoft.com'' \<and>
      url_path (req_url req) = ''/beta/organization'')"
proof -
  note u = organizations_url
  obtain es where "history w' = history w @ TokenRequest graph_read_scopes # es"
    and "es = [] \<or> (\<exists>tok req. new_request ''GET'' (graph_address ''beta/organization'' []) tok NoBody = Inr req \<and> es = [HttpEvent req])"
    using query_value_sent [OF assms [unfolded organizations_query_def] u] by (elim exE conjE) (rule that)
  then show ?thesis
    using new_request_path [OF u u]
    by (auto simp: sent_def new_events_def new_request_address api_domain_def)
qed

text \<open>
  C34: the command gives a connector only for a valid configuration. Then its credential is
  the command line's when that is enabled, else the client secret when tenant, client and
  secret are all given, and the default one otherwise; its organizations are those Graph
  named; it serves the eight registered resource types; and starting it sent at most one
  request, a GET of the organizations.
\<close>

theorem connector_starts:
  assumes "get_connector su v w = (Ok (c, env, srv), w')"
  shows "validate_config v = None \<and>
    su_credential su (expected_credential v) = None \<and> env = su_env su (expected_credential v) \<and>
    conn_mailbox_settings c = get_bool v ''mailboxSettings'' \<and> conn_skip_ad_groups c = get_bool v ''skip-ad-groups'' \<and>
    (\<exists>resp. organizations_query env w = (Ok resp, w') \<and>
      map Some (conn_organization_ids c) = map (map_option org_id) (orgs_value resp)) \<and>
    dom srv = {''user'', ''group'', ''subscription'', ''tenant'', ''resource_group'', ''managed_identity'',
      ''enterprise_application'', ''role''} \<and>
    length (sent w w') \<le> 1 \<and>
    (\<forall>req\<in>set (sent w w'). req_method req = ''GET'' \<and> url_host (req_url req) = ''graph.microsoft.com'' \<and>
      url_path (req_url req) = ''/beta/organization'')"
proof -
  let ?cred = "expected_credential v"
  have cred: "choose_credential (get_bool v (fld_name use_cli_credentials)) (get_string v (fld_name azure_tenant_id))
      (get_string v (fld_name azure_client_id)) (get_string v (fld_name azure_client_secret)) = ?cred"
    by (auto simp: choose_credential_def expected_credential_def Let_def is_empty_def field_defs)
  obtain w1 where v: "validate_config v = None" and
      n: "new_connector su (get_bool v (fld_name use_cli_credentials))
         (get_string v (fld_name azure_tenant_id)) (get_string v (fld_name azure_client_id))
         (get_string v (fld_name azure_client_secret)) (get_bool v (fld_name mailbox_settings_field))
         (get_bool v (fld_name skip_ad_groups)) w = (Ok (c, env), w1)" and
      s: "connector_server = Inr srv" "w' = w1"
    using assms unfolding get_connector_def
    by (auto elim!: bind_io_Ok_E simp: check_Ok lift_io_def return_io_def of_sum_Ok)
  from n have t: "su_credential su ?cred = None" "env = su_env su ?cred"
      "new_connector_from_token su env (get_bool v (fld_name mailbox_settings_field))
         (get_bool v (fld_name skip_ad_groups)) w = (Ok c, w1)"
    unfolding new_connector_def cred Let_def
    by (auto elim!: bind_io_Ok_E simp: check_Ok return_io_def)
  then have g: "get_organization_ids env w = (Ok (conn_organization_ids c), w1)"
    and f: "conn_mailbox_settings c = get_bool v ''mailboxSettings''" "conn_skip_ad_groups c = get_bool v ''skip-ad-groups''"
    unfolding new_connector_from_token_def get_role_definitions_client_def
    by (auto elim!: bind_io_Ok_E simp: check_Ok new_arm_client_Ok return_io_def field_defs)
  obtain resp where q: "organizations_query env w = (Ok resp, w1)" and o: "organization_ids resp = Ok (conn_organization_ids c)"
    using g by (auto simp: get_organization_ids_def organizations_query_def split: prod.splits outcome.splits)
  show ?thesis
    using v t f q s sent_organizations [OF q] served_types organization_ids_Ok [OF o] by auto
qed

definition organizations_json :: json where
  "organizations_json = JObj [(''value'', JArr [JObj [(''id'', JStr ''org'')]])]"

definition one_organization :: organizations where
  "one_organization = \<lparr>orgs_value = [Some \<lparr>org_id = ''org''\<rparr>]\<rparr>"

lemma organizations_decoded: "dec_organizations \<lparr>orgs_value = []\<rparr> organizations_json = (one_organization, None)"
  by code_simp

definition demo_startup :: startup where
  "demo_startup = \<lparr>su_http_client = None, su_credential = (\<lambda>_. None), su_base_client = None,
     su_env = (\<lambda>_. answering 200 (json_print organizations_json))\<rparr>"

definition demo_viper :: viper where
  "demo_viper = \<lparr>get_bool = (\<lambda>n. n = ''mailboxSettings''),
     get_string = (\<lambda>n. if n = ''azure-tenant-id'' then ''t'' else if n = ''azure-client-id'' then ''c''
       else if n = ''azure-client-secret'' then ''s'' else [])\<rparr>"

lemma demo_starts: "\<exists>c env srv w'. get_connector demo_startup demo_viper start_world = (Ok (c, env, srv), w')"
proof -
  let ?env = "answering 200 (json_print organizations_json)"
  have ok: "json_ok organizations_json" by code_simp
  obtain w1 where q: "query ?env graph_read_scopes ''GET'' (build_beta_url ''organization'' []) NoBody
      (Some dec_organizations) \<lparr>orgs_value = []\<rparr> start_world = ((None, one_organization), w1)"
    using json_answer [where dec = dec_organizations and scopes = graph_read_scopes, OF organizations_url ok organizations_decoded]
    by (elim exE) (rule that)
  have "organization_ids one_organization = Ok [''org'']" by code_simp
  with q have "get_organization_ids ?env start_world = (Ok [''org''], w1)"
    by (simp add: get_organization_ids_def query_value_def)
  moreover have "env_arm_client ?env = None" by (simp add: answering_def quiet_env_def)
  moreover have "validate_config demo_viper = None" by code_simp
  ultimately show ?thesis
    by (simp add: get_connector_def new_connector_def new_connector_from_token_def get_role_definitions_client_def
        new_arm_client_def check_def demo_startup_def connector_server_eq bind_io_def return_io_def lift_io_def Let_def)
qed

theorem connector_starts_witness:
  "\<exists>c env srv w'. get_connector demo_startup demo_viper start_world = (Ok (c, env, srv), w') \<and>
    su_credential demo_startup (ClientSecretCredential ''t'' ''c'' ''s'') = None \<and> ''role'' \<in> dom srv"
proof -
  obtain c env srv w' where g: "get_connector demo_startup demo_viper start_world = (Ok (c, env, srv), w')"
    using demo_starts by (elim exE)
  have e: "expected_credential demo_viper = ClientSecretCredential ''t'' ''c'' ''s''" by code_simp
  have "su_credential demo_startup (ClientSecretCredential ''t'' ''c'' ''s'') = None" "''role'' \<in> dom srv"
    using connector_starts [OF g] by (simp_all only: e insert_iff simp_thms)
  with g show ?thesis by (intro exI conjI)
qed

end
