(* ===== verification/Sync_Machine.thy ===== *)
theory Sync_Machine
  imports Syncer
begin

text \<open>
  The SDK's syncer as the machine it is (\<open>sync/syncer.go\<close>, \<open>sync/state.go\<close>): a stack of
  actions, a store of what was synced, and a loop that runs the action on top against the
  connector's server. The store never fails and gives each of its lists as one page; its
  tables are lists in which an entry of the same id is replaced in its place. Checkpoints,
  progress, waiting before a retry and ETags, which the connector neither gives nor reads,
  are left out. The expansion of grants is modelled as far as the loading of the graph.
\<close>

section \<open>The stack of actions\<close>

text \<open>Assets are disabled in the source: no action for them is ever pushed.\<close>

datatype sync_op =
    InitOp
  | SyncResourceTypesOp
  | SyncResourcesOp
  | SyncEntitlementsOp
  | SyncGrantsOp
  | SyncGrantExpansionOp

record action =
  act_op :: sync_op
  act_page_token :: string
  act_resource_type_id :: string
  act_resource_id :: string
  act_parent_resource_type_id :: string
  act_parent_resource_id :: string

record sync_state =
  sts_actions :: "action list"
  sts_current :: "action option"
  sts_needs_expansion :: bool

definition op_action :: "sync_op \<Rightarrow> action" where
  "op_action p = \<lparr>act_op = p, act_page_token = [], act_resource_type_id = [], act_resource_id = [],
     act_parent_resource_type_id = [], act_parent_resource_id = []\<rparr>"

definition state_push :: "action \<Rightarrow> sync_state \<Rightarrow> sync_state" where
  "state_push a st =
     (case sts_current st of
        None \<Rightarrow> st\<lparr>sts_current := Some a\<rparr>
      | Some c \<Rightarrow> st\<lparr>sts_actions := sts_actions st @ [c], sts_current := Some a\<rparr>)"

definition state_pop :: "sync_state \<Rightarrow> action option \<times> sync_state" where
  "state_pop st =
     (case sts_current st of
        None \<Rightarrow> (None, st)
      | Some c \<Rightarrow> (Some c,
          if sts_actions st \<noteq> []
          then st\<lparr>sts_current := Some (last (sts_actions st)), sts_actions := butlast (sts_actions st)\<rparr>
          else st\<lparr>sts_current := None\<rparr>))"

definition finish_action :: "sync_state \<Rightarrow> sync_state" where
  "finish_action st = snd (state_pop st)"

definition next_page :: "string \<Rightarrow> sync_state \<Rightarrow> error + sync_state" where
  "next_page token st =
     (case state_pop st of
        (None, st1) \<Rightarrow> Inl (ErrText ''no active syncer action'')
      | (Some a, st1) \<Rightarrow> Inr (state_push (a\<lparr>act_page_token := token\<rparr>) st1))"

text \<open>A new sync starts with the initial action.\<close>

definition initial_state :: sync_state where
  "initial_state = \<lparr>sts_actions = [], sts_current = Some (op_action InitOp), sts_needs_expansion = False\<rparr>"

section \<open>The store\<close>

record sync_store =
  sto_resource_types :: "resource_type list"
  sto_resources :: "resource list"
  sto_entitlements :: "entitlement list"
  sto_grants :: "grant list"

definition empty_store :: sync_store where
  "empty_store = \<lparr>sto_resource_types = [], sto_resources = [], sto_entitlements = [], sto_grants = []\<rparr>"

definition put_entry :: "('a \<Rightarrow> 'k) \<Rightarrow> 'a list \<Rightarrow> 'a \<Rightarrow> 'a list" where
  "put_entry key xs x =
     (if list_ex (\<lambda>y. key y = key x) xs then map (\<lambda>y. if key y = key x then x else y) xs else xs @ [x])"

definition put_entries :: "('a \<Rightarrow> 'k) \<Rightarrow> 'a list \<Rightarrow> 'a list \<Rightarrow> 'a list" where
  "put_entries key xs ys = foldl (put_entry key) xs ys"

definition no_rows :: error where
  "no_rows = ErrText ''sql: no rows in result set''"

definition get_resource_type :: "sync_store \<Rightarrow> string \<Rightarrow> error + resource_type" where
  "get_resource_type sto i =
     (case find (\<lambda>t. rty_id t = i) (sto_resource_types sto) of None \<Rightarrow> Inl no_rows | Some t \<Rightarrow> Inr t)"

definition get_resource :: "sync_store \<Rightarrow> resource_id \<Rightarrow> error + resource" where
  "get_resource sto i =
     (case find (\<lambda>r. res_id r = i) (sto_resources sto) of None \<Rightarrow> Inl no_rows | Some r \<Rightarrow> Inr r)"

definition get_entitlement :: "sync_store \<Rightarrow> string \<Rightarrow> error + entitlement" where
  "get_entitlement sto i =
     (case find (\<lambda>e. ent_id e = i) (sto_entitlements sto) of None \<Rightarrow> Inl no_rows | Some e \<Rightarrow> Inr e)"

section \<open>The machine\<close>

record 'w machine =
  mac_state :: sync_state
  mac_store :: sync_store
  mac_warnings :: "error list"
  mac_world :: 'w

definition with_state :: "(sync_state \<Rightarrow> sync_state) \<Rightarrow> ('w machine, unit) io" where
  "with_state f m = (Ok (), m\<lparr>mac_state := f (mac_state m)\<rparr>)"

definition with_store :: "(sync_store \<Rightarrow> sync_store) \<Rightarrow> ('w machine, unit) io" where
  "with_store f m = (Ok (), m\<lparr>mac_store := f (mac_store m)\<rparr>)"

text \<open>A call of the connector.\<close>

definition connector_call :: "('w, 'a) io \<Rightarrow> ('w machine, 'a) io" where
  "connector_call call m = (case call (mac_world m) of (x, w) \<Rightarrow> (x, m\<lparr>mac_world := w\<rparr>))"

definition go_on :: "string \<Rightarrow> ('w machine, unit) io" where
  "go_on token m =
     (if token = [] then (Ok (), m\<lparr>mac_state := finish_action (mac_state m)\<rparr>)
      else (case next_page token (mac_state m) of
              Inl e \<Rightarrow> (Err e, m)
            | Inr st \<Rightarrow> (Ok (), m\<lparr>mac_state := st\<rparr>)))"

definition push_actions :: "action list \<Rightarrow> ('w machine, unit) io" where
  "push_actions as = with_state (fold state_push as)"

section \<open>Resource types and resources\<close>

definition sync_resource_types :: "resource_type list \<Rightarrow> ('w machine, unit) io" where
  "sync_resource_types types =
     bind_io (with_store (\<lambda>s. s\<lparr>sto_resource_types := put_entries rty_id (sto_resource_types s) types\<rparr>)) (\<lambda>_.
     go_on [])"

definition child_action :: "string \<times> resource_id \<Rightarrow> action" where
  "child_action c =
     (op_action SyncResourcesOp)\<lparr>act_resource_type_id := fst c,
        act_parent_resource_id := rid_resource (snd c), act_parent_resource_type_id := rid_type (snd c)\<rparr>"

text \<open>
  The loop over the resources of a page: those that the store has are skipped, the others
  must carry their traits, and an action is pushed for each of their child types. The
  creation source of a resource is left out.
\<close>

fun new_resources_loop :: "resource list \<Rightarrow> resource list \<Rightarrow> ('w machine, resource list) io" where
  "new_resources_loop acc [] = return_io acc"
| "new_resources_loop acc (r # rs) =
     (\<lambda>m. case get_resource (mac_store m) (res_id r) of
            Inr stored \<Rightarrow> new_resources_loop acc rs m
          | Inl e \<Rightarrow>
              if e \<noteq> no_rows then (Err e, m)
              else (case validate_resource_traits (get_resource_type (mac_store m)) r of
                      Some e \<Rightarrow> (Err e, m)
                    | None \<Rightarrow> bind_io (push_actions (map child_action (get_sub_resources r))) (\<lambda>_.
                        new_resources_loop (acc @ [r]) rs) m))"

definition parent_of :: "action \<Rightarrow> resource_id option" where
  "parent_of a =
     (if act_parent_resource_type_id a \<noteq> [] \<and> act_parent_resource_id a \<noteq> []
      then Some \<lparr>rid_type = act_parent_resource_type_id a, rid_resource = act_parent_resource_id a\<rparr>
      else None)"

definition sync_resources_page :: "env \<Rightarrow> connector \<Rightarrow> server \<Rightarrow> action \<Rightarrow> ('z builders_scheme machine, unit) io" where
  "sync_resources_page env conn srv a =
     bind_io (connector_call (serve_resources env conn srv (act_resource_type_id a) (parent_of a) (act_page_token a)))
       (\<lambda>(rs, next_token).
     bind_io (go_on next_token) (\<lambda>_.
     bind_io (new_resources_loop [] rs) (\<lambda>new.
     with_store (\<lambda>s. s\<lparr>sto_resources := put_entries res_id (sto_resources s) new\<rparr>))))"

definition sync_resources :: "env \<Rightarrow> connector \<Rightarrow> server \<Rightarrow> action \<Rightarrow> ('z builders_scheme machine, unit) io" where
  "sync_resources env conn srv a =
     (if act_resource_type_id a = [] then
        bind_io (go_on []) (\<lambda>_ m.
          push_actions (map (\<lambda>t. (op_action SyncResourcesOp)\<lparr>act_resource_type_id := rty_id t\<rparr>)
            (sto_resource_types (mac_store m))) m)
      else sync_resources_page env conn srv a)"

section \<open>Entitlements and grants\<close>

definition resource_action :: "sync_op \<Rightarrow> resource \<Rightarrow> action" where
  "resource_action p r =
     (op_action p)\<lparr>act_resource_id := rid_resource (res_id r), act_resource_type_id := rid_type (res_id r)\<rparr>"

text \<open>The loop over the stored resources: an action for each whose type does not say to skip.\<close>

fun push_resources :: "sync_op \<Rightarrow> resource list \<Rightarrow> ('w machine, unit) io" where
  "push_resources p [] = return_io ()"
| "push_resources p (r # rs) =
     (\<lambda>m. case get_resource_type (mac_store m) (rid_type (res_id r)) of
            Inl e \<Rightarrow> (Err e, m)
          | Inr t \<Rightarrow>
              if should_skip_entitlements_and_grants t then push_resources p rs m
              else bind_io (push_actions [resource_action p r]) (\<lambda>_. push_resources p rs) m)"

definition push_all_resources :: "sync_op \<Rightarrow> ('w machine, unit) io" where
  "push_all_resources p = bind_io (go_on []) (\<lambda>_ m. push_resources p (sto_resources (mac_store m)) m)"

definition target_of :: "action \<Rightarrow> resource_id" where
  "target_of a = \<lparr>rid_type = act_resource_type_id a, rid_resource = act_resource_id a\<rparr>"

definition is_root :: "action \<Rightarrow> bool" where
  "is_root a \<longleftrightarrow> act_resource_type_id a = [] \<and> act_resource_id a = []"

definition stored_resource :: "resource_id \<Rightarrow> ('w machine, resource) io" where
  "stored_resource i m = (of_sum (get_resource (mac_store m) i), m)"

definition sync_entitlements_for_resource :: "server \<Rightarrow> action \<Rightarrow> ('z builders_scheme machine, unit) io" where
  "sync_entitlements_for_resource srv a =
     bind_io (stored_resource (target_of a)) (\<lambda>r.
     bind_io (connector_call (serve_entitlements srv r (act_page_token a))) (\<lambda>(es, next_token).
     bind_io (with_store (\<lambda>s. s\<lparr>sto_entitlements := put_entries ent_id (sto_entitlements s) es\<rparr>)) (\<lambda>_.
     go_on next_token)))"

definition sync_entitlements :: "server \<Rightarrow> action \<Rightarrow> ('z builders_scheme machine, unit) io" where
  "sync_entitlements srv a =
     (if is_root a then push_all_resources SyncEntitlementsOp else sync_entitlements_for_resource srv a)"

definition is_expandable :: "grant \<Rightarrow> bool" where
  "is_expandable g \<longleftrightarrow> annos_contains KExpandable (grant_annotations g)"

definition sync_grants_for_resource :: "env \<Rightarrow> connector \<Rightarrow> server \<Rightarrow> action \<Rightarrow> ('z builders_scheme machine, unit) io" where
  "sync_grants_for_resource env conn srv a =
     bind_io (stored_resource (target_of a)) (\<lambda>r.
     bind_io (connector_call (serve_grants env conn srv r (act_page_token a))) (\<lambda>(gs, next_token).
     bind_io (with_state (\<lambda>st. if list_ex is_expandable gs then st\<lparr>sts_needs_expansion := True\<rparr> else st)) (\<lambda>_.
     bind_io (with_store (\<lambda>s. s\<lparr>sto_grants := put_entries grant_id (sto_grants s) gs\<rparr>)) (\<lambda>_.
     go_on next_token))))"

definition sync_grants :: "env \<Rightarrow> connector \<Rightarrow> server \<Rightarrow> action \<Rightarrow> ('z builders_scheme machine, unit) io" where
  "sync_grants env conn srv a =
     (if is_root a then push_all_resources SyncGrantsOp else sync_grants_for_resource env conn srv a)"

section \<open>The loading of grants to expand\<close>

text \<open>
  A source entitlement that the store has must be one of the grant's principal; the pairs of
  a source and the entitlement of the grant are the edges of the graph.
\<close>

fun expandable_edges :: "sync_store \<Rightarrow> grant \<Rightarrow> string list \<Rightarrow> error + (string \<times> string) list" where
  "expandable_edges sto g [] = Inr []"
| "expandable_edges sto g (i # is) =
     (case get_entitlement sto i of
        Inl e \<Rightarrow> expandable_edges sto g is
      | Inr src \<Rightarrow>
          if res_id (grant_principal g) \<noteq> res_id (ent_resource src)
          then Inl (ErrText ''source entitlement resource id did not match grant principal id'')
          else bind_sum (expandable_edges sto g is) (\<lambda>edges.
                 Inr ((ent_id src, ent_id (grant_entitlement g)) # edges)))"

definition expandable_ids :: "grant \<Rightarrow> string list" where
  "expandable_ids g =
     (case annos_pick KExpandable (grant_annotations g) of
        Some (GrantExpandable ids shallow types) \<Rightarrow> ids
      | _ \<Rightarrow> [])"

fun load_expansion :: "sync_store \<Rightarrow> grant list \<Rightarrow> error + (string \<times> string) list" where
  "load_expansion sto [] = Inr []"
| "load_expansion sto (g # gs) =
     bind_sum (expandable_edges sto g (expandable_ids g)) (\<lambda>es.
     bind_sum (load_expansion sto gs) (\<lambda>fs. Inr (es @ fs)))"

section \<open>The loop\<close>

text \<open>\<open>status.Code\<close>: the first status in the tree of an error.\<close>

fun first_status :: "error \<Rightarrow> grpc_code option" where
  "first_status (ErrStatus c t) = Some c"
| "first_status (ErrWrap t es) = foldr (\<lambda>e rest. case first_status e of Some c \<Rightarrow> Some c | None \<Rightarrow> rest) es None"
| "first_status (ErrJoin es) = foldr (\<lambda>e rest. case first_status e of Some c \<Rightarrow> Some c | None \<Rightarrow> rest) es None"
| "first_status e = None"

definition status_code :: "error \<Rightarrow> grpc_code" where
  "status_code e = (case first_status e of Some c \<Rightarrow> c | None \<Rightarrow> UnknownCode)"

definition is_warning :: "error \<Rightarrow> bool" where
  "is_warning e \<longleftrightarrow> status_code e = NotFoundCode"

definition should_retry :: "error \<Rightarrow> bool" where
  "should_retry e \<longleftrightarrow> status_code e \<in> {Unavailable, DeadlineExceeded}"

text \<open>
  What the loop makes of an action's error: of entitlements and grants a missing object is a
  warning, which finishes the action; the action stays for a retry; or the sync ends.
\<close>

definition handle_error :: "bool \<Rightarrow> ('w machine, unit) io \<Rightarrow> ('w machine, unit) io" where
  "handle_error may_warn act m =
     (case act m of
        (Err e, m1) \<Rightarrow>
          if may_warn \<and> is_warning e
          then (Ok (), m1\<lparr>mac_warnings := mac_warnings m1 @ [e], mac_state := finish_action (mac_state m1)\<rparr>)
          else if should_retry e then (Ok (), m1)
          else (Err e, m1)
      | r \<Rightarrow> r)"

definition init_sync :: "('w machine, unit) io" where
  "init_sync = with_state (\<lambda>st. fold state_push
     (map op_action [SyncGrantExpansionOp, SyncGrantsOp, SyncEntitlementsOp, SyncResourcesOp, SyncResourceTypesOp])
     (finish_action st))"

text \<open>
  One turn of the loop, for an action on top of the stack. The list of resource types is
  what the server's map gives, in any order. None is a turn outside the model, the
  expansion of grants.
\<close>

definition sync_turn ::
  "env \<Rightarrow> connector \<Rightarrow> server \<Rightarrow> resource_type list \<Rightarrow> sync_state \<Rightarrow> action \<Rightarrow> ('z builders_scheme machine, unit) io option"
where
  "sync_turn env conn srv types st a =
     (case act_op a of
        InitOp \<Rightarrow> Some init_sync
      | SyncResourceTypesOp \<Rightarrow> Some (handle_error False (sync_resource_types types))
      | SyncResourcesOp \<Rightarrow> Some (handle_error False (sync_resources env conn srv a))
      | SyncEntitlementsOp \<Rightarrow> Some (handle_error True (sync_entitlements srv a))
      | SyncGrantsOp \<Rightarrow> Some (handle_error True (sync_grants env conn srv a))
      | SyncGrantExpansionOp \<Rightarrow> if sts_needs_expansion st then None else Some (with_state finish_action))"

text \<open>The message of the source also lists the warnings.\<close>

definition too_many_warnings :: error where
  "too_many_warnings = ErrText ''too many warnings, exiting sync''"

definition sync_loop ::
  "env \<Rightarrow> connector \<Rightarrow> server \<Rightarrow> resource_type list \<Rightarrow> 'z builders_scheme machine
    \<Rightarrow> (unit outcome \<times> 'z builders_scheme machine) option"
where
  "sync_loop env conn srv types m =
     Option.bind (sts_current (mac_state m)) (\<lambda>a.
       if 10 < length (mac_warnings m) then Some (Err too_many_warnings, m)
       else Option.bind (sync_turn env conn srv types (mac_state m) a) (\<lambda>act. Some (act m)))"

text \<open>\<open>ListResourceTypes\<close> of the server: the types of the map's builders, in any order.\<close>

definition list_resource_types :: "server \<Rightarrow> resource_type list \<Rightarrow> bool" where
  "list_resource_types srv types \<longleftrightarrow> distinct types \<and> set types = builder_type ` ran srv"

text \<open>The machines a sync goes through, from the initial state with an empty store.\<close>

definition start_machine :: "'w \<Rightarrow> 'w machine" where
  "start_machine w = \<lparr>mac_state = initial_state, mac_store = empty_store, mac_warnings = [], mac_world = w\<rparr>"

inductive sync_reachable ::
  "env \<Rightarrow> connector \<Rightarrow> server \<Rightarrow> resource_type list \<Rightarrow> 'z builders_scheme machine \<Rightarrow> bool"
  for env conn srv types where
  start: "sync_reachable env conn srv types (start_machine w)"
| turn: "sync_reachable env conn srv types m \<Longrightarrow> sync_loop env conn srv types m = Some (Ok (), m') \<Longrightarrow>
    sync_reachable env conn srv types m'"

end
