(* ===== verification/Sync_Calls.thy ===== *)
theory Sync_Calls
  imports Sync_Machine Grant_Laws App_Laws Effects
begin

text \<open>
  What a sync rests on: the stack of actions as a list with the top first, what the
  machine's operations do to it and to the store, and what the calls of the connector's
  server give (formed entitlements, grants that refer to entitlements and served types,
  applications that are in the cache).
\<close>

section \<open>The stack\<close>

definition state_ok :: "sync_state \<Rightarrow> bool" where
  "state_ok st \<longleftrightarrow> (sts_current st = None \<longrightarrow> sts_actions st = [])"

definition stack_of :: "sync_state \<Rightarrow> action list" where
  "stack_of st = (case sts_current st of None \<Rightarrow> [] | Some c \<Rightarrow> c # rev (sts_actions st))"

definition stacked :: "'w machine \<Rightarrow> action list \<Rightarrow> bool" where
  "stacked m s \<longleftrightarrow> state_ok (mac_state m) \<and> stack_of (mac_state m) = s"

text \<open>The stack after a page: the top is gone, or has the next token.\<close>

definition moved :: "string \<Rightarrow> action list \<Rightarrow> action list" where
  "moved token s = (if token = [] then tl s else (hd s)\<lparr>act_page_token := token\<rparr> # tl s)"

lemma push_stack: "state_ok st \<Longrightarrow> state_ok (state_push a st) \<and> stack_of (state_push a st) = a # stack_of st"
  by (auto simp: state_ok_def stack_of_def state_push_def split: option.splits)

lemma pushes_stack: "state_ok st \<Longrightarrow> state_ok (fold state_push as st) \<and> stack_of (fold state_push as st) = rev as @ stack_of st"
  by (induction as arbitrary: st) (auto simp: push_stack)

lemma pop_stack:
  "state_ok st \<Longrightarrow> \<exists>st'. state_pop st = (sts_current st, st') \<and> state_ok st' \<and> stack_of st' = tl (stack_of st) \<and>
    sts_needs_expansion st' = sts_needs_expansion st"
  by (cases "sts_actions st" rule: rev_cases) (auto simp: state_ok_def stack_of_def state_pop_def split: option.splits)

lemma finish_stack:
  assumes "state_ok st"
  shows "state_ok (finish_action st)" "stack_of (finish_action st) = tl (stack_of st)"
  using pop_stack [OF assms] by (auto simp: finish_action_def)

lemma top_current: "stack_of st = a # s \<Longrightarrow> sts_current st = Some a"
  by (auto simp: stack_of_def split: option.splits)

lemma current_top: "sts_current st = Some a \<Longrightarrow> stack_of st = a # tl (stack_of st)"
  by (simp add: stack_of_def)

lemma next_page_stack:
  assumes "state_ok st" and "stack_of st = a # s"
  shows "\<exists>st'. next_page t st = Inr st' \<and> state_ok st' \<and> stack_of st' = a\<lparr>act_page_token := t\<rparr> # s"
proof -
  obtain st' where st': "state_pop st = (Some a, st')" "state_ok st'" "stack_of st' = s"
    using pop_stack [OF assms(1)] assms(2) top_current [OF assms(2)] by auto
  then show ?thesis using push_stack [of st'] by (auto simp: next_page_def)
qed

text \<open>What a step that only moves the stack leaves alone.\<close>

definition same_rest :: "'w machine \<Rightarrow> 'w machine \<Rightarrow> bool" where
  "same_rest m m' \<longleftrightarrow> mac_store m' = mac_store m \<and> mac_world m' = mac_world m \<and> mac_warnings m' = mac_warnings m"

lemma go_on_stack:
  assumes "stacked m (a # s)"
  shows "\<exists>m'. go_on t m = (Ok (), m') \<and> stacked m' (moved t (a # s)) \<and> same_rest m m'"
  using assms finish_stack [of "mac_state m"] next_page_stack [of "mac_state m" a s t]
  by (auto simp: go_on_def stacked_def moved_def same_rest_def)

lemma push_actions_stack:
  assumes "stacked m s"
  shows "\<exists>m'. push_actions as m = (Ok (), m') \<and> stacked m' (rev as @ s) \<and> same_rest m m'"
  using assms pushes_stack [of "mac_state m" as]
  by (auto simp: push_actions_def with_state_def stacked_def same_rest_def)

lemma with_store_stack: "stacked m s \<Longrightarrow> \<exists>m'. with_store f m = (Ok (), m') \<and> stacked m' s \<and>
    mac_store m' = f (mac_store m) \<and> mac_world m' = mac_world m"
  by (simp add: with_store_def stacked_def)

section \<open>The store\<close>

lemma put_entry_keys: "key ` set (put_entry key xs x) = insert (key x) (key ` set xs)"
  by (auto simp: put_entry_def list_ex_iff image_iff)

lemma put_entries_keys: "key ` set (put_entries key xs ys) = key ` set xs \<union> key ` set ys"
proof (induction ys arbitrary: xs)
  case (Cons y ys)
  then show ?case using put_entry_keys [of key xs y] by (simp add: put_entries_def)
qed (simp add: put_entries_def)

lemma put_entries_from: "set (put_entries key xs ys) \<subseteq> set xs \<union> set ys"
proof (induction ys arbitrary: xs)
  case (Cons y ys)
  have "set (put_entry key xs y) \<subseteq> insert y (set xs)" by (auto simp: put_entry_def split: if_splits)
  with Cons.IH [of "put_entry key xs y"] show ?case by (auto simp: put_entries_def)
qed (simp add: put_entries_def)

lemma put_entries_in: "x \<in> set (put_entries key xs ys) \<Longrightarrow> x \<in> set xs \<or> x \<in> set ys"
  using put_entries_from by fastforce

lemma get_resource_Inr: "get_resource sto i = Inr r \<Longrightarrow> r \<in> set (sto_resources sto) \<and> res_id r = i"
  using find_member [of "\<lambda>r. res_id r = i"] by (auto simp: get_resource_def split: option.splits)

lemma get_resource_Inl: "get_resource sto i = Inl e \<Longrightarrow> e = no_rows \<and> (\<forall>r\<in>set (sto_resources sto). res_id r \<noteq> i)"
  by (auto simp: get_resource_def find_None_iff split: option.splits)

lemma get_entitlement_Inr: "get_entitlement sto i = Inr e \<Longrightarrow> e \<in> set (sto_entitlements sto) \<and> ent_id e = i"
  using find_member [of "\<lambda>e. ent_id e = i"] by (auto simp: get_entitlement_def split: option.splits)

lemma get_entitlement_stored: "i \<in> ent_id ` set (sto_entitlements sto) \<Longrightarrow> \<exists>e. get_entitlement sto i = Inr e"
  by (auto simp: get_entitlement_def find_None_iff split: option.splits)

lemma get_resource_type_Inr: "get_resource_type sto i = Inr t \<Longrightarrow> t \<in> set (sto_resource_types sto) \<and> rty_id t = i"
  using find_member [of "\<lambda>t. rty_id t = i"] by (auto simp: get_resource_type_def split: option.splits)

lemma get_resource_type_stored: "i \<in> rty_id ` set (sto_resource_types sto) \<Longrightarrow> \<exists>t. get_resource_type sto i = Inr t"
  by (auto simp: get_resource_type_def find_None_iff split: option.splits)

section \<open>The steps of the machine\<close>

text \<open>The loop over a page of resources only pushes actions for children.\<close>

lemma resources_loop:
  assumes "new_resources_loop acc rs m = (x, m')" and "stacked m s"
  shows "\<exists>cs. (\<forall>a\<in>set cs. act_op a = SyncResourcesOp) \<and> stacked m' (cs @ s) \<and> same_rest m m' \<and>
    (\<forall>new. x = Ok new \<longrightarrow> (\<forall>r\<in>set new. r \<in> set acc \<or>
       r \<in> set rs \<and> rid_type (res_id r) \<in> rty_id ` set (sto_resource_types (mac_store m))))"
  using assms
proof (induction rs arbitrary: acc m s)
  case Nil
  then show ?case by (intro exI [of _ "[]"]) (auto simp: return_io_def same_rest_def)
next
  case (Cons r rs)
  show ?case
  proof (cases "get_resource (mac_store m) (res_id r) = Inl no_rows")
    case False
    show ?thesis
    proof (cases "get_resource (mac_store m) (res_id r)")
      case (Inl e)
      with False Cons.prems show ?thesis by (intro exI [of _ "[]"]) (auto simp: same_rest_def)
    next
      case (Inr stored)
      with Cons.prems have "new_resources_loop acc rs m = (x, m')" by simp
      from Cons.IH [OF this Cons.prems(2)] show ?thesis by (elim exE) (rule exI, auto)
    qed
  next
    case True
    show ?thesis
    proof (cases "validate_resource_traits (get_resource_type (mac_store m)) r")
      case (Some e)
      with True Cons.prems show ?thesis by (intro exI [of _ "[]"]) (auto simp: same_rest_def)
    next
      case None
      then obtain t where "get_resource_type (mac_store m) (rid_type (res_id r)) = Inr t"
        by (auto simp: validate_resource_traits_def split: sum.splits)
      from get_resource_type_Inr [OF this]
      have t: "rid_type (res_id r) \<in> rty_id ` set (sto_resource_types (mac_store m))" by (metis imageI)
      obtain m1 where m1: "push_actions (map child_action (get_sub_resources r)) m = (Ok (), m1)"
        "stacked m1 (rev (map child_action (get_sub_resources r)) @ s)" "same_rest m m1"
        using push_actions_stack [OF Cons.prems(2), of "map child_action (get_sub_resources r)"]
        by (elim exE conjE) (rule that)
      with True None Cons.prems(1) have "new_resources_loop (acc @ [r]) rs m1 = (x, m')"
        by (simp add: bind_io_def)
      from Cons.IH [OF this m1(2)] obtain cs where cs: "\<forall>a\<in>set cs. act_op a = SyncResourcesOp"
        "stacked m' (cs @ rev (map child_action (get_sub_resources r)) @ s)" "same_rest m1 m'"
        "\<forall>new. x = Ok new \<longrightarrow> (\<forall>r'\<in>set new. r' \<in> set (acc @ [r]) \<or>
           r' \<in> set rs \<and> rid_type (res_id r') \<in> rty_id ` set (sto_resource_types (mac_store m1)))"
        by (elim exE conjE) (rule that)
      let ?cs = "cs @ rev (map child_action (get_sub_resources r))"
      have "\<forall>a\<in>set ?cs. act_op a = SyncResourcesOp"
        using cs(1) by (auto simp: child_action_def op_action_def)
      moreover have "stacked m' (?cs @ s)" using cs(2) by simp
      moreover have "same_rest m m'" "mac_store m1 = mac_store m" using m1(3) cs(3) by (simp_all add: same_rest_def)
      moreover have "\<forall>new. x = Ok new \<longrightarrow> (\<forall>r'\<in>set new. r' \<in> set acc \<or>
          r' \<in> set (r # rs) \<and> rid_type (res_id r') \<in> rty_id ` set (sto_resource_types (mac_store m)))"
      proof (intro allI impI ballI)
        fix new r' assume n: "x = Ok new" "r' \<in> set new"
        have "r' \<in> set (acc @ [r]) \<or> r' \<in> set rs \<and> rid_type (res_id r') \<in> rty_id ` set (sto_resource_types (mac_store m1))"
          using cs(4) n by (elim allE impE) (assumption, erule (1) bspec)
        then show "r' \<in> set acc \<or> r' \<in> set (r # rs) \<and> rid_type (res_id r') \<in> rty_id ` set (sto_resource_types (mac_store m))"
          using t \<open>mac_store m1 = mac_store m\<close> by (elim disjE) auto
      qed
      ultimately show ?thesis by (intro exI [of _ ?cs]) (intro conjI)
    qed
  qed
qed

definition skips :: "sync_store \<Rightarrow> resource \<Rightarrow> bool" where
  "skips sto r = (case get_resource_type sto (rid_type (res_id r)) of
     Inl e \<Rightarrow> False | Inr t \<Rightarrow> should_skip_entitlements_and_grants t)"

definition pushed :: "sync_op \<Rightarrow> sync_store \<Rightarrow> resource list \<Rightarrow> action list" where
  "pushed p sto rs = rev (map (resource_action p) (filter (\<lambda>r. \<not> skips sto r) rs))"

lemma push_resources_stack:
  assumes "stacked m s"
    and "\<forall>r\<in>set rs. rid_type (res_id r) \<in> rty_id ` set (sto_resource_types (mac_store m))"
  shows "\<exists>m'. push_resources p rs m = (Ok (), m') \<and> stacked m' (pushed p (mac_store m) rs @ s) \<and> same_rest m m'"
  using assms
proof (induction rs arbitrary: m s)
  case Nil
  then show ?case by (simp add: return_io_def same_rest_def pushed_def)
next
  case (Cons r rs)
  obtain t where t: "get_resource_type (mac_store m) (rid_type (res_id r)) = Inr t"
    using get_resource_type_stored [of "rid_type (res_id r)" "mac_store m"] Cons.prems(2) by auto
  show ?case
  proof (cases "should_skip_entitlements_and_grants t")
    case True
    with Cons.IH [OF Cons.prems(1)] Cons.prems(2) t show ?thesis by (simp add: pushed_def skips_def)
  next
    case False
    obtain m1 where m1: "push_actions [resource_action p r] m = (Ok (), m1)"
        "stacked m1 (resource_action p r # s)" "same_rest m m1"
      using push_actions_stack [OF Cons.prems(1), of "[resource_action p r]"] by auto
    have st: "mac_store m1 = mac_store m" using m1(3) by (simp add: same_rest_def)
    have "\<forall>r\<in>set rs. rid_type (res_id r) \<in> rty_id ` set (sto_resource_types (mac_store m1))"
      using Cons.prems(2) st by simp
    from Cons.IH [OF m1(2) this] obtain m' where m': "push_resources p rs m1 = (Ok (), m')"
      "stacked m' (pushed p (mac_store m) rs @ resource_action p r # s)" "same_rest m1 m'"
      unfolding st by (elim exE conjE) (rule that)
    have "push_resources p (r # rs) m = (Ok (), m')"
      using t False m1(1) m'(1) by (simp add: bind_io_def)
    moreover have "same_rest m m'" using m1(3) m'(3) by (simp add: same_rest_def)
    ultimately show ?thesis using m'(2) t False by (simp add: pushed_def skips_def)
  qed
qed

section \<open>The calls of a sync\<close>

definition demo_srv :: server where
  "demo_srv = [''user'' \<mapsto> UserBuilder, ''group'' \<mapsto> GroupBuilder, ''subscription'' \<mapsto> SubscriptionBuilder,
     ''tenant'' \<mapsto> TenantBuilder, ''resource_group'' \<mapsto> ResourceGroupBuilder,
     ''managed_identity'' \<mapsto> ManagedIdentityBuilder,
     ''enterprise_application'' \<mapsto> EnterpriseApplicationsBuilder, ''role'' \<mapsto> RoleBuilder]"

lemma server_cases:
  assumes "connector_server = Inr srv" and "srv i = Some b"
  shows "i = rty_id (builder_type b) \<and> b \<noteq> RoleAssignmentResourceGroupBuilder"
  using assms by (auto simp: connector_server_eq builder_type_defs resource_type_defs split: if_splits)

lemma server_builders:
  assumes "connector_server = Inr srv"
  shows "srv ''group'' = Some GroupBuilder" "srv ''role'' = Some RoleBuilder"
    "srv ''enterprise_application'' = Some EnterpriseApplicationsBuilder"
  using assms by (auto simp: connector_server_eq)

text \<open>A served page is a page of the method.\<close>

lemma serve_page_Ok:
  "serve_page what token call w = (Ok p, w') \<longleftrightarrow>
    call w = (Ok p, w') \<and> \<not> (token \<noteq> [] \<and> token = snd p)"
  by (cases p) (auto simp: serve_page_def split: prod.splits outcome.splits if_splits)

lemma serve_page_world: "snd (serve_page what token call w) = snd (call w)"
  by (auto simp: serve_page_def split: prod.splits outcome.splits)

subsection \<open>Entitlements\<close>

definition permissions :: "string \<Rightarrow> string set" where
  "permissions ty = (if ty \<in> {''group'', ''subscription''} then {type_owners, type_members}
     else if ty = ''role'' then {type_owners, type_assigned} else {})"

text \<open>An entitlement has its resource in its id, or its id is one of an application.\<close>

definition entitlement_formed :: "entitlement \<Rightarrow> bool" where
  "entitlement_formed e \<longleftrightarrow>
     (\<exists>x\<in>permissions (rid_type (res_id (ent_resource e))). ent_id e = new_entitlement_id (ent_resource e) x) \<or>
     (\<exists>x. ent_id e = ''enterprise_application:'' @ x)"

lemma granting_entitlements:
  assumes "connector_server = Inr srv" and "rid_type (res_id r) \<in> {''group'', ''role''}"
  shows "\<exists>es. serve_entitlements srv r token w = (Ok (es, []), w) \<and>
    ent_id ` set es = new_entitlement_id r ` permissions (rid_type (res_id r)) \<and> (\<forall>e\<in>set es. entitlement_formed e)"
  using assms(2) server_builders [OF assms(1)]
  by (auto simp: serve_entitlements_def serve_page_def groups_entitlements_def roles_entitlements_def return_io_def
      permissions_def entitlement_formed_def new_permission_entitlement_def new_assignment_entitlement_def)

lemma app_entitlements_formed:
  assumes "enterprise_apps_entitlements r token w = (Ok (es, t), w')" and "e \<in> set es"
  shows "\<exists>x. ent_id e = ''enterprise_application:'' @ x"
proof -
  obtain ids roles where ids: "es = [app_entitlement r (''enterprise_application:'' @ rid_resource (res_id r) @ '':owners'')
        (res_display_name r @ '' Application Owner'') (''Owner of '' @ res_display_name r @ '' Application'') [user_resource_type]
        PurposePermission ''owner'',
      app_entitlement r (''enterprise_application:'' @ rid_resource (res_id r) @ '':assignment:'' @ default_app_role_assignment_id)
        (res_display_name r @ '' Application Assignment'') (''Assigned to '' @ res_display_name r @ '' Application'')
        [user_resource_type, group_resource_type] PurposeAssignment ''assigned''] @ roles"
    and roles: "convert_err (\<lambda>p. bind_outcome (deref p) (app_role_entitlement r)) ids = Ok roles"
    using assms(1) by (auto simp: enterprise_apps_entitlements_def app_role_entitlement_id_def marshal_simps)
  from roles obtain h where h: "\<forall>t\<in>set ids. bind_outcome (deref t) (app_role_entitlement r) = Ok (h t)" "roles = convert h ids"
    by (auto simp: convert_err_Ok)
  show ?thesis
  proof (cases "e \<in> set roles")
    case True
    then obtain t where t: "t \<in> set ids" "h t = Some e" using h(2) by (auto simp: set_convert)
    with h(1) obtain rl where "app_role_entitlement r rl = Ok (Some e)" by (cases t) auto
    then have "role_entitlement_of r rl = Some e" by (simp add: role_entitlement_of_def)
    with role_entitlement_id [of r rl] show ?thesis by (auto simp: app_prefix_def split: if_splits)
  next
    case False
    with assms(2) show ?thesis by (auto simp: ids app_entitlement_def)
  qed
qed

lemma subscription_entitlements_formed:
  assumes "subscriptions_entitlements r token w = (Ok (es, t), w')" and "e \<in> set es"
  shows "ent_resource e = r \<and> ent_id e \<in> new_entitlement_id r ` {type_owners, type_members}"
  using assms by (auto simp: subscriptions_entitlements_def return_io_def new_permission_entitlement_def
      new_assignment_entitlement_def)

lemma no_entitlements:
  assumes "b \<in> {UserBuilder, TenantBuilder, ResourceGroupBuilder, ManagedIdentityBuilder}"
    and "builder_entitlements b r token w = (Ok (es, t), w')"
  shows "es = []"
  using assms by (auto simp: users_entitlements_def tenants_entitlements_def resource_groups_entitlements_def
      managed_identities_entitlements_def return_io_def)

lemma served_entitlements_formed:
  assumes "connector_server = Inr srv" and "serve_entitlements srv r token w = (Ok (es, t), w')" and "e \<in> set es"
  shows "entitlement_formed e"
proof -
  obtain b where b: "srv (rid_type (res_id r)) = Some b" and call: "builder_entitlements b r token w = (Ok (es, t), w')"
    using assms(2) by (auto simp: serve_entitlements_def serve_page_Ok fail_io_def split: option.splits)
  note ty = server_cases [OF assms(1) b]
  show ?thesis
  proof (cases "rid_type (res_id r) \<in> {''group'', ''role''}")
    case True
    from granting_entitlements [OF assms(1) this, of token w] assms(2,3) show ?thesis by auto
  next
    case False
    with ty consider "b = EnterpriseApplicationsBuilder" | "b = SubscriptionBuilder"
        | "b \<in> {UserBuilder, TenantBuilder, ResourceGroupBuilder, ManagedIdentityBuilder}"
      by (cases b) (auto simp: builder_type_defs resource_type_defs)
    then show ?thesis
    proof cases
      case 1
      with app_entitlements_formed [of r token w es t w' e] call assms(3) show ?thesis
        by (simp add: entitlement_formed_def)
    next
      case 2
      then have "rid_type (res_id r) = ''subscription''" using ty by (simp add: builder_type_defs resource_type_defs)
      moreover from 2 call have "subscriptions_entitlements r token w = (Ok (es, t), w')" by simp
      note subscription_entitlements_formed [OF this assms(3)]
      ultimately show ?thesis by (auto simp: entitlement_formed_def permissions_def)
    next
      case 3
      from no_entitlements [OF this call] assms(3) show ?thesis by simp
    qed
  qed
qed

subsection \<open>Grants\<close>

text \<open>A grant that is to be expanded names the members of its own principal, a group.\<close>

definition expands_own :: "grant \<Rightarrow> bool" where
  "expands_own g \<longleftrightarrow> grant_annotations g = [] \<or>
     (\<exists>b ts. grant_annotations g = [GrantExpandable [members_entitlement (rid_resource (res_id (grant_principal g)))] b ts] \<and>
       rid_type (res_id (grant_principal g)) = ''group'')"

lemma grants_expand_own:
  "group_grant r relation gm = Some g \<Longrightarrow> expands_own g"
  "new_grant r name pid = Ok g \<Longrightarrow> expands_own g"
  "expands_own (assignment_grant r a)"
  "owner_grant r gm = Ok (Some g) \<Longrightarrow> expands_own g"
proof -
  assume "group_grant r relation gm = Some g"
  then show "expands_own g"
    by (auto simp: group_grant_def member_principal_def expands_own_def bare_resource_def annos_update_def
        resource_type_defs Let_def split: option.splits if_splits)
next
  assume "new_grant r name pid = Ok g"
  then show "expands_own g" by (auto simp: new_grant_def expands_own_def Let_def split: option.splits)
next
  show "expands_own (assignment_grant r a)"
    by (auto simp: assignment_grant_def assigned_principal_def expands_own_def bare_resource_def annos_update_def
        resource_type_defs Let_def)
next
  assume "owner_grant r gm = Ok (Some g)"
  then show "expands_own g" by (auto simp: owner_grant_def expands_own_def Let_def split: if_splits)
qed

lemma app_grants_formed:
  assumes "enterprise_apps_grants env conn r0 token w = (Ok (gs, t), w')" and "g \<in> set gs"
  shows "expands_own g \<and> rid_type (res_id (ent_resource (grant_entitlement g))) = rid_type (res_id r0)"
proof -
  obtain b0 where b0: "bag_unmarshal token = Inr b0"
    using assms(1) by (cases "bag_unmarshal token") (auto simp: enterprise_apps_grants_def lift_io_def)
  obtain r b where rb: "enterprise_apps_start conn r0 b0 = (r, b)" by fastforce
  then have ty: "rid_type (res_id r) = rid_type (res_id r0)"
    by (auto simp: enterprise_apps_start_def trim_application_def Let_def split: if_splits)
  obtain ps where ps: "bag_current b = Some ps"
    using assms(1) b0 rb by (cases "bag_current b") (auto simp: enterprise_apps_grants_def lift_io_def)
  from assms(1) b0 rb ps consider "assignment_grants r w = (Ok (gs, t), w')" | "owner_grants env r b ps w = (Ok (gs, t), w')"
    by (auto simp: enterprise_apps_grants_def lift_io_def bind_io_def fail_io_def split: if_splits)
  then show ?thesis
  proof cases
    case 1
    then obtain sp :: service_principal where
      "convert_all (\<lambda>p. bind_outcome (deref p) (\<lambda>a. Ok (assignment_grant r a))) (spn_app_roles_assigned_to sp) = Ok gs"
      by (auto simp: assignment_grants_def)
    from convert_all_member [OF this assms(2)] obtain a where "g = assignment_grant r a" by auto
    moreover have "ent_resource (grant_entitlement (assignment_grant r a)) = r"
      by (simp add: assignment_grant_def bare_entitlement_def)
    ultimately show ?thesis using ty grants_expand_own(3) by simp
  next
    case 2
    then obtain ms where "convert_err (\<lambda>p. bind_outcome (deref p) (owner_grant r)) ms = Ok gs \<or> gs = []"
      by (auto simp: owner_grants_def split: prod.splits option.splits if_splits)
    with assms(2) have "convert_err (\<lambda>p. bind_outcome (deref p) (owner_grant r)) ms = Ok gs" by auto
    then obtain h where h: "\<forall>t\<in>set ms. bind_outcome (deref t) (owner_grant r) = Ok (h t)" "gs = convert h ms"
      by (auto simp: convert_err_Ok)
    then obtain t where t: "t \<in> set ms" "h t = Some g" using assms(2) by (auto simp: set_convert)
    with h(1) obtain gm where "owner_grant r gm = Ok (Some g)" by (cases t) auto
    then show ?thesis
      using grants_expand_own(4) ty by (auto simp: owner_grant_def bare_entitlement_def Let_def split: if_splits)
  qed
qed

text \<open>The tokens of a group's grants stand for live stacks of the two relations.\<close>

definition relation_token :: "string \<Rightarrow> bool" where
  "relation_token t \<longleftrightarrow> t = [] \<or> (\<exists>b. bag_live b \<and> relation_states b \<and> t = bag_marshal b)"

lemma groups_call_fresh:
  "groups_grants env conn r [] w = groups_grants env conn r (bag_marshal (groups_start conn r empty_bag)) w"
proof -
  note live = groups_fresh(1) [of conn r]
  have "groups_start conn r (groups_start conn r empty_bag) = groups_start conn r empty_bag"
    by (simp add: groups_start_def empty_bag_def bag_push_def states_of_def)
  then show ?thesis using bag_token.dec_enc [OF live] by (simp add: groups_grants_def bag_unmarshal_def [of "[]"])
qed

lemma groups_page_refers:
  fixes w :: "'z world_scheme"
  assumes "groups_grants env conn r token w = (Ok (gs, t), w')" and "relation_token token"
  shows "relation_token t \<and>
    (\<forall>g\<in>set gs. \<exists>relation\<in>{type_members, type_owners}. \<exists>gm. group_grant r relation gm = Some g)"
proof -
  have fresh: "relation_states (groups_start conn r empty_bag)"
    using groups_fresh(1,2) [of conn r] by (simp add: relation_states_def bag_live_def group_page_def)
  obtain b where b: "bag_live b" "relation_states b" and call: "groups_grants env conn r (bag_marshal b) w = (Ok (gs, t), w')"
  proof (cases "token = []")
    case True
    show ?thesis
      by (rule that [OF groups_fresh(1) fresh]) (use assms(1) True in \<open>simp add: groups_call_fresh [symmetric]\<close>)
  next
    case False
    then show ?thesis using assms that unfolding relation_token_def by blast
  qed
  have "bind_io (groups_step (env, conn, r) b) (\<lambda>(xs, n). return_io (xs, token_of bag_marshal n)) w = (Ok (gs, t), w')"
    using group_pages.call_token [OF bag_token.dec_enc [OF b(1)] b(1), of "(env, conn, r)" w] call by (simp add: groups_call_def)
  then obtain nx where nx: "groups_step (env, conn, r) b w = (Ok (gs, nx), w')" "t = token_of bag_marshal nx"
    by (auto simp: return_io_def elim!: bind_io_Ok_E)
  note step = groups_step_origin [OF nx(1) b(2)]
  have "relation_token t"
  proof (cases nx)
    case (Some b')
    with group_pages.step_live [OF b(1), of "(env, conn, r)" w gs b' w'] nx step show ?thesis
      by (auto simp: relation_token_def token_of_def)
  qed (simp add: nx(2) token_of_def relation_token_def)
  with step show ?thesis by blast
qed

text \<open>What the grants of a resource refer to: an entitlement of it, and a principal of a served type.\<close>

definition refers_to :: "server \<Rightarrow> resource \<Rightarrow> grant \<Rightarrow> bool" where
  "refers_to srv r g \<longleftrightarrow> res_id (ent_resource (grant_entitlement g)) = res_id r \<and>
     ent_id (grant_entitlement g) \<in> new_entitlement_id r ` permissions (rid_type (res_id r)) \<and>
     rid_type (res_id (grant_principal g)) \<in> dom srv"

definition token_fits :: "string \<Rightarrow> string \<Rightarrow> bool" where
  "token_fits ty token \<longleftrightarrow> (ty = ''group'' \<longrightarrow> relation_token token)"

lemma roles_page_refers:
  fixes w :: "'z builders_scheme"
  assumes "roles_grants env r token w = (Ok (gs, t), w')" and "g \<in> set gs"
  shows "expands_own g \<and> refers r [new_entitlement_id r type_assigned]
    {''user'', ''resource_group'', ''enterprise_application'', ''managed_identity''} g"
proof -
  obtain s role where k: "role_key r = (s, role)" by fastforce
  obtain as v where "grants_of_assignments env r (role_definition_id s role) [] as v = (Ok gs, w')"
    using assms(1) by (auto elim!: bind_io_Ok_E simp: roles_grants_def k return_io_def Let_def split: if_splits)
  from assignment_grants_refer [OF this assms(2)] obtain a and v v' :: "'z builders_scheme" where
    g: "grant_of_assignment env r (role_definition_id s role) a v = (Ok (Some g), v')" by auto
  then obtain t pid where "new_grant r type_assigned (get_principal_id_resource t pid) = Ok g"
    unfolding grant_of_assignment_def
    by (auto elim!: bind_io_Ok_E simp: return_io_def lift_io_def split: if_splits prod.splits outcome.splits)
  from grants_expand_own(2) [OF this] assignment_grant_refers [OF g] show ?thesis by (simp add: refers_def)
qed

lemma served_grants_refer:
  fixes w :: "'z builders_scheme"
  assumes srv: "connector_server = Inr srv" and call: "serve_grants env conn srv r token w = (Ok (gs, t), w')"
    and fits: "token_fits (rid_type (res_id r)) token"
  shows "token_fits (rid_type (res_id r)) t \<and> (\<forall>g\<in>set gs. expands_own g \<and>
    (rid_type (res_id r) \<noteq> ''enterprise_application'' \<longrightarrow>
       rid_type (res_id r) \<in> {''group'', ''role''} \<and> refers_to srv r g) \<and>
    (rid_type (res_id r) = ''enterprise_application'' \<longrightarrow>
       rid_type (res_id (ent_resource (grant_entitlement g))) = ''enterprise_application''))"
proof -
  obtain b where b: "srv (rid_type (res_id r)) = Some b" and c: "builder_grants env conn b r token w = (Ok (gs, t), w')"
    using call by (auto simp: serve_grants_def serve_page_Ok fail_io_def split: option.splits)
  have ty: "rid_type (res_id r) = rty_id (builder_type b)" "b \<noteq> RoleAssignmentResourceGroupBuilder"
    using server_cases [OF srv b] by simp_all
  have served: "{''user'', ''group'', ''resource_group'', ''enterprise_application'', ''managed_identity''} \<subseteq> dom srv"
    using srv by (auto simp: connector_server_eq)
  consider "b = GroupBuilder" | "b = RoleBuilder" | "b = EnterpriseApplicationsBuilder"
    | "b \<in> {UserBuilder, SubscriptionBuilder, TenantBuilder, ResourceGroupBuilder, ManagedIdentityBuilder}"
    using ty(2) by (cases b) auto
  then show ?thesis
  proof cases
    case 1
    then have g: "rid_type (res_id r) = ''group''" using ty(1) by (simp add: builder_type_defs resource_type_defs)
    with 1 fits c have "groups_grants env conn r token w = (Ok (gs, t), w')" "relation_token token"
      by (simp_all add: token_fits_def)
    from groups_page_refers [OF this] have t: "relation_token t" and
      o: "\<And>x. x \<in> set gs \<Longrightarrow> \<exists>relation\<in>{type_members, type_owners}. \<exists>gm. group_grant r relation gm = Some x" by blast+
    have "expands_own x \<and> refers_to srv r x" if x: "x \<in> set gs" for x
    proof -
      obtain relation gm where rel: "relation \<in> {type_members, type_owners}" "group_grant r relation gm = Some x"
        using o [OF x] by (elim bexE exE) (rule that)
      from group_grant_refers [OF rel(2)] rel(1) g served
      have "refers_to srv r x" by (auto simp: refers_to_def new_entitlement_id_def permissions_def image_iff)
      with grants_expand_own(1) [OF rel(2)] show ?thesis by simp
    qed
    with t g show ?thesis by (simp add: token_fits_def)
  next
    case 2
    then have g: "rid_type (res_id r) = ''role''" using ty(1) by (simp add: builder_type_defs resource_type_defs)
    from 2 c have "roles_grants env r token w = (Ok (gs, t), w')" by simp
    have "expands_own x \<and> refers_to srv r x" if x: "x \<in> set gs" for x
    proof -
      note x = roles_page_refers [OF \<open>roles_grants env r token w = (Ok (gs, t), w')\<close> x]
      have "rid_type (res_id (grant_principal x)) \<in> dom srv" using x subsetD [OF served] by (auto simp: refers_def)
      with x g show ?thesis by (simp add: refers_def refers_to_def permissions_def)
    qed
    with g show ?thesis by (simp add: token_fits_def)
  next
    case 3
    then have g: "rid_type (res_id r) = ''enterprise_application''" using ty(1) by (simp add: builder_type_defs resource_type_defs)
    from 3 c have "enterprise_apps_grants env conn r token w = (Ok (gs, t), w')" by simp
    from app_grants_formed [OF this] g show ?thesis by (simp add: token_fits_def)
  next
    case 4
    then have "gs = []" "t = []" using c
      by (auto simp: users_grants_def subscriptions_grants_def tenants_grants_def resource_groups_grants_def
          managed_identities_grants_def return_io_def)
    then show ?thesis by (simp add: token_fits_def relation_token_def)
  qed
qed

subsection \<open>Applications\<close>

lemma listed_apps_cached:
  fixes w :: "'z builders_scheme"
  assumes "enterprise_apps_list env conn parent token w = (Ok (rs, t), w')" and "r \<in> set rs"
  shows "app_cache w' (rid_resource (res_id r)) \<noteq> None"
proof -
  obtain b where b: "parse_page_token token \<lparr>rid_type = ''user'', rid_resource = []\<rparr> = Inr b"
    using assms(1) by (cases "parse_page_token token \<lparr>rid_type = ''user'', rid_resource = []\<rparr>")
      (auto simp: enterprise_apps_list_def lift_io_def resource_type_defs elim!: bind_io_Ok_E)
  obtain resp w1 sps where q: "app_query env b w = (Ok resp, w1)"
    and sps: "collect_owned (conn_organization_ids conn) (gl_value resp) w1 = (Ok sps, w')"
    using assms(1) b by (auto simp: enterprise_apps_list_def app_query_def lift_io_def resource_type_defs return_io_def elim!: bind_io_Ok_E)
  have "None \<notin> set ps" if "collect_owned orgs ps v = (Ok qs, v')" for orgs ps qs and v v' :: "'z builders_scheme"
    using that
  proof (induction ps arbitrary: v qs)
    case (Cons p ps)
    then show ?case by (cases p) (auto simp: lift_io_def return_io_def elim!: bind_io_Ok_E split: if_splits)
  qed simp
  from this [OF sps] have n: "None \<notin> set (gl_value resp)" .
  from trans [OF assms(1) [symmetric] apps_list_eq [OF b q n, of conn parent]]
  have rs: "convert_all (\<lambda>app. enterprise_application_resource app parent) (owned conn (gl_value resp)) = Ok rs"
    and w': "w' = w1\<lparr>app_cache := app_caches (owned conn (gl_value resp)) (app_cache w1)\<rparr>"
    by (cases "convert_all (\<lambda>app. enterprise_application_resource app parent) (owned conn (gl_value resp))"; simp)+
  from convert_all_member [OF rs assms(2)] obtain sp where
    sp: "sp \<in> set (owned conn (gl_value resp))" "enterprise_application_resource sp parent = Ok r" by blast
  from app_caches_member [OF sp(1)] app_resource_id [OF sp(2)] w' show ?thesis by auto
qed

definition apps_cached :: "'z builders_scheme \<Rightarrow> resource list \<Rightarrow> bool" where
  "apps_cached w rs \<longleftrightarrow> (\<forall>r\<in>set rs. rid_type (res_id r) = ''enterprise_application'' \<longrightarrow> app_cache w (rid_resource (res_id r)) \<noteq> None)"

lemma apps_stay_cached: "caches_grow orgs w w' \<Longrightarrow> apps_cached w rs \<Longrightarrow> apps_cached w' rs"
  unfolding apps_cached_def caches_grow_def by blast

lemma caches_grow_refl [simp]: "caches_grow orgs w w"
  by (simp add: caches_grow_def)

lemma served_grow:
  fixes w :: "'z builders_scheme"
  shows "caches_grow (conn_organization_ids conn) w (snd (serve_resources env conn srv ty parent token w))"
    and "caches_grow (conn_organization_ids conn) w (snd (serve_entitlements srv r token w))"
    and "caches_grow (conn_organization_ids conn) w (snd (serve_grants env conn srv r token w))"
proof -
  let ?R = "caches_grow (conn_organization_ids conn) :: 'z builders_scheme \<Rightarrow> 'z builders_scheme \<Rightarrow> bool"
  have "?R w (snd (builder_list env conn b parent token w))"
    "?R w (snd (builder_entitlements b r token w))" "?R w (snd (builder_grants env conn b r token w))" for b
    using keeping.builders_reader(1) [OF HOL.refl, of conn] keeping.builders_reader(2,3)
    unfolding obeys_def by blast+
  then show "?R w (snd (serve_resources env conn srv ty parent token w))"
    "?R w (snd (serve_entitlements srv r token w))" "?R w (snd (serve_grants env conn srv r token w))"
    by (simp_all add: serve_resources_def serve_entitlements_def serve_grants_def serve_page_world fail_io_def
        split: option.split)
qed

lemma served_apps_cached:
  assumes srv: "connector_server = Inr srv" and call: "serve_resources env conn srv ty parent token w = (Ok (rs, t), w')"
  shows "apps_cached w' rs"
proof -
  obtain b where b: "srv ty = Some b" and c: "builder_list env conn b parent token w = (Ok (rs, t), w')"
    using call by (auto simp: serve_resources_def serve_page_Ok fail_io_def split: option.splits)
  show ?thesis unfolding apps_cached_def
  proof (intro ballI impI)
    fix r assume r: "r \<in> set rs" and a: "rid_type (res_id r) = ''enterprise_application''"
    have "has_type (builder_type b) r" by (rule builder_list_typed [OF c r])
    with a server_cases [OF srv b] have "ty = ''enterprise_application''" by (simp add: has_type_def)
    with b server_builders [OF srv] c have "enterprise_apps_list env conn parent token w = (Ok (rs, t), w')" by simp
    from listed_apps_cached [OF this r] show "app_cache w' (rid_resource (res_id r)) \<noteq> None" .
  qed
qed

end
