(* ===== verification/Sync_Turns.thy ===== *)
theory Sync_Turns
  imports Sync_Calls
begin

text \<open>
  The invariant of a sync, \<open>sync_fits\<close>: the actions on the stack come in the order of their
  kinds, what was served before them is in the store, and what the store has refers to what
  it has. Every turn of the loop keeps it, whatever the services answer.
\<close>

section \<open>What holds at every turn\<close>

fun rank :: "sync_op \<Rightarrow> nat" where
  "rank InitOp = 0"
| "rank SyncResourceTypesOp = 1"
| "rank SyncResourcesOp = 2"
| "rank SyncEntitlementsOp = 3"
| "rank SyncGrantsOp = 4"
| "rank SyncGrantExpansionOp = 5"

text \<open>
  The actions on the stack come in the order of their kinds; while resources are listed the
  action that starts the entitlements waits below; the tokens of grants are the method's own.
\<close>

definition token_ok :: "action \<Rightarrow> bool" where
  "token_ok a \<longleftrightarrow> (act_op a = SyncGrantsOp \<longrightarrow> token_fits (act_resource_type_id a) (act_page_token a))"

definition stack_fits :: "action list \<Rightarrow> bool" where
  "stack_fits s \<longleftrightarrow>
     sorted_wrt (\<lambda>a b. rank (act_op a) \<le> rank (act_op b)) s \<and>
     ((\<exists>a\<in>set s. act_op a = InitOp) \<longrightarrow> s = [op_action InitOp]) \<and>
     ((\<exists>a\<in>set s. act_op a \<in> {SyncResourceTypesOp, SyncResourcesOp}) \<longrightarrow> op_action SyncEntitlementsOp \<in> set s) \<and>
     (\<forall>a\<in>set s. token_ok a)"

lemma stack_fitsD:
  assumes "stack_fits s"
  shows "sorted_wrt (\<lambda>a b. rank (act_op a) \<le> rank (act_op b)) s"
    and "a \<in> set s \<Longrightarrow> act_op a = InitOp \<Longrightarrow> s = [op_action InitOp]"
    and "a \<in> set s \<Longrightarrow> act_op a \<in> {SyncResourceTypesOp, SyncResourcesOp} \<Longrightarrow> op_action SyncEntitlementsOp \<in> set s"
    and "a \<in> set s \<Longrightarrow> token_ok a"
  using assms unfolding stack_fits_def by blast+

text \<open>
  The store: resources have stored types, which the server has; the grants refer to stored
  resources and entitlements.
\<close>

definition grant_stored :: "server \<Rightarrow> sync_store \<Rightarrow> grant \<Rightarrow> bool" where
  "grant_stored srv sto g \<longleftrightarrow>
     res_id (ent_resource (grant_entitlement g)) \<in> res_id ` set (sto_resources sto) \<and>
     ent_id (grant_entitlement g) \<in> ent_id ` set (sto_entitlements sto) \<and>
     ent_id (grant_entitlement g) \<in> new_entitlement_id (ent_resource (grant_entitlement g)) `
       permissions (rid_type (res_id (ent_resource (grant_entitlement g)))) \<and>
     rid_type (res_id (grant_principal g)) \<in> dom srv"

definition of_application :: "grant \<Rightarrow> bool" where
  "of_application g \<longleftrightarrow> rid_type (res_id (ent_resource (grant_entitlement g))) = ''enterprise_application''"

definition store_fits :: "server \<Rightarrow> sync_store \<Rightarrow> bool" where
  "store_fits srv sto \<longleftrightarrow>
     (\<forall>t\<in>set (sto_resource_types sto). \<exists>b. srv (rty_id t) = Some b \<and> t = builder_type b) \<and>
     (\<forall>r\<in>set (sto_resources sto). rid_type (res_id r) \<in> rty_id ` set (sto_resource_types sto)) \<and>
     (\<forall>e\<in>set (sto_entitlements sto). entitlement_formed e) \<and>
     (\<forall>g\<in>set (sto_grants sto). expands_own g \<and> (\<not> of_application g \<longrightarrow> grant_stored srv sto g))"

lemma store_fitsD:
  assumes "store_fits srv sto"
  shows "t \<in> set (sto_resource_types sto) \<Longrightarrow> \<exists>b. srv (rty_id t) = Some b \<and> t = builder_type b"
    and "r \<in> set (sto_resources sto) \<Longrightarrow> \<exists>t\<in>set (sto_resource_types sto). rty_id t = rid_type (res_id r)"
    and "e \<in> set (sto_entitlements sto) \<Longrightarrow> entitlement_formed e"
    and "g \<in> set (sto_grants sto) \<Longrightarrow> expands_own g"
    and "g \<in> set (sto_grants sto) \<Longrightarrow> \<not> of_application g \<Longrightarrow> grant_stored srv sto g"
  using assms unfolding store_fits_def image_iff by (blast, metis, blast+)

text \<open>
  Once the action that starts the entitlements is gone, every resource that can be granted
  has its entitlements in the store or an action that will fetch them.
\<close>

definition can_be_granted :: "resource \<Rightarrow> bool" where
  "can_be_granted r \<longleftrightarrow> rid_type (res_id r) \<in> {''group'', ''role''}"

definition entitled :: "sync_store \<Rightarrow> resource \<Rightarrow> bool" where
  "entitled sto r \<longleftrightarrow> new_entitlement_id r ` permissions (rid_type (res_id r)) \<subseteq> ent_id ` set (sto_entitlements sto)"

definition covered :: "action list \<Rightarrow> sync_store \<Rightarrow> bool" where
  "covered s sto \<longleftrightarrow>
     (\<forall>a\<in>set s. act_op a = SyncEntitlementsOp \<longrightarrow> \<not> is_root a) \<longrightarrow>
     (\<forall>r\<in>set (sto_resources sto). can_be_granted r \<longrightarrow>
        entitled sto r \<or> (\<exists>a\<in>set s. act_op a = SyncEntitlementsOp \<and> target_of a = res_id r))"

definition sync_fits :: "server \<Rightarrow> 'z builders_scheme machine \<Rightarrow> bool" where
  "sync_fits srv m \<longleftrightarrow> (\<exists>s. stacked m s \<and> stack_fits s \<and> covered s (mac_store m)) \<and>
     store_fits srv (mac_store m) \<and> apps_cached (mac_world m) (sto_resources (mac_store m))"

lemma sync_fitsI:
  "stacked m s \<Longrightarrow> stack_fits s \<Longrightarrow> covered s (mac_store m) \<Longrightarrow> store_fits srv (mac_store m) \<Longrightarrow>
    apps_cached (mac_world m) (sto_resources (mac_store m)) \<Longrightarrow> sync_fits srv m"
  unfolding sync_fits_def by blast

section \<open>The stack from turn to turn\<close>

lemma rank_simps: "rank p \<le> 2 \<longleftrightarrow> p \<in> {InitOp, SyncResourceTypesOp, SyncResourcesOp}"
  by (cases p) simp_all

lemma stack_step:
  assumes s: "stack_fits (a # s)" and a: "act_op a \<noteq> InitOp" and cs: "\<forall>c\<in>set cs. act_op c = act_op a \<and> token_ok c"
  shows "stack_fits (cs @ s)"
proof -
  have below: "\<forall>b\<in>set s. rank (act_op a) \<le> rank (act_op b)"
    and srt: "sorted_wrt (\<lambda>a b. rank (act_op a) \<le> rank (act_op b)) s"
    using stack_fitsD(1) [OF s] by simp_all
  define p where "p = act_op a"
  have cp: "act_op c = p" "token_ok c" if "c \<in> set cs" for c using cs that by (simp_all add: p_def)
  have ps: "rank p \<le> rank (act_op b)" if "b \<in> set s" for b using below that by (simp add: p_def)
  have bp: "rank p \<le> rank (act_op b)" if "b \<in> set (cs @ s)" for b
    using that ps cp(1) by (cases "b \<in> set cs") simp_all
  have sorted: "sorted_wrt (\<lambda>a b. rank (act_op a) \<le> rank (act_op b)) (cs @ s)"
    unfolding sorted_wrt_append
  proof (intro conjI ballI srt)
    show "sorted_wrt (\<lambda>a b. rank (act_op a) \<le> rank (act_op b)) cs"
      by (rule sorted_wrt_mono_rel [of _ "\<lambda>_ _. True"]) (use cp in \<open>auto simp: sorted_wrt_true\<close>)
    show "rank (act_op c) \<le> rank (act_op b)" if "c \<in> set cs" "b \<in> set s" for b c
      using cp(1) [OF that(1)] bp [of b] that(2) by simp
  qed
  have no_init: "\<not> (\<exists>b\<in>set (cs @ s). act_op b = InitOp)"
  proof
    assume "\<exists>b\<in>set (cs @ s). act_op b = InitOp"
    then obtain b where "b \<in> set (cs @ s)" "act_op b = InitOp" by blast
    with bp [of b] have "rank p = 0" by simp
    then show False using a by (cases p) (simp_all add: p_def [symmetric])
  qed
  have waits: "op_action SyncEntitlementsOp \<in> set (cs @ s)"
    if low: "\<exists>b\<in>set (cs @ s). act_op b \<in> {SyncResourceTypesOp, SyncResourcesOp}"
  proof -
    obtain b where b: "b \<in> set (cs @ s)" "act_op b \<in> {SyncResourceTypesOp, SyncResourcesOp}" using low by blast
    have "rank p \<le> rank (act_op b)" by (rule bp [OF b(1)])
    also have "\<dots> \<le> 2" using b(2) by auto
    finally have k: "p \<in> {SyncResourceTypesOp, SyncResourcesOp}" using a by (auto simp: rank_simps p_def)
    then have "op_action SyncEntitlementsOp \<in> set (a # s)"
      unfolding p_def by (rule stack_fitsD(3) [OF s list.set_intros(1)])
    moreover have "op_action SyncEntitlementsOp \<noteq> a"
    proof
      assume eq: "op_action SyncEntitlementsOp = a"
      have "p = SyncEntitlementsOp" unfolding p_def eq [symmetric] by (simp add: op_action_def)
      with k show False by simp
    qed
    ultimately show ?thesis by auto
  qed
  have tokens: "token_ok b" if "b \<in> set (cs @ s)" for b
    using that unfolding set_append by (elim UnE) (erule cp(2), erule stack_fitsD(4) [OF s list.set_intros(2)])
  show ?thesis
    unfolding stack_fits_def
  proof (intro conjI impI ballI)
    show "cs @ s = [op_action InitOp]" if "\<exists>b\<in>set (cs @ s). act_op b = InitOp" using that no_init by simp
  qed (fact sorted, erule waits, erule tokens)
qed

lemma moved_step: "\<exists>cs. moved t (a # s) = cs @ s \<and> (cs = [] \<and> t = [] \<or> cs = [a\<lparr>act_page_token := t\<rparr>])"
  by (cases "t = []") (simp_all add: moved_def)

lemma stack_moved:
  assumes "stack_fits (a # s)" and "act_op a \<noteq> InitOp" and "token_ok (a\<lparr>act_page_token := t\<rparr>)"
  shows "stack_fits (moved t (a # s))"
  using stack_step [OF assms(1,2), of "[]"] stack_step [OF assms(1,2), of "[a\<lparr>act_page_token := t\<rparr>]"] assms(3)
  by (simp add: moved_def)

lemma resources_below:
  assumes "stack_fits (a # s)" and "act_op a \<in> {SyncResourceTypesOp, SyncResourcesOp}"
  shows "covered (cs @ s) sto"
proof -
  have "op_action SyncEntitlementsOp \<in> set (a # s)" by (rule stack_fitsD(3) [OF assms(1) list.set_intros(1) assms(2)])
  moreover have root: "is_root (op_action SyncEntitlementsOp)" "act_op (op_action SyncEntitlementsOp) = SyncEntitlementsOp"
    by (simp_all add: is_root_def op_action_def)
  ultimately have "op_action SyncEntitlementsOp \<in> set (cs @ s)" using assms(2) by auto
  with root show ?thesis unfolding covered_def by blast
qed

text \<open>The actions of entitlements alone decide what is covered.\<close>

lemma covered_step:
  assumes "covered (a # s) sto" and "act_op a \<noteq> SyncEntitlementsOp" and "\<forall>c\<in>set cs. act_op c \<noteq> SyncEntitlementsOp"
    and "sto_resources sto' = sto_resources sto" and "sto_entitlements sto' = sto_entitlements sto"
  shows "covered (cs @ s) sto'"
  unfolding covered_def
proof (intro impI ballI)
  fix r
  assume n: "\<forall>a\<in>set (cs @ s). act_op a = SyncEntitlementsOp \<longrightarrow> \<not> is_root a"
    and r: "r \<in> set (sto_resources sto')" "can_be_granted r"
  have "\<forall>b\<in>set (a # s). act_op b = SyncEntitlementsOp \<longrightarrow> \<not> is_root b" using n assms(2) by simp
  with assms(1) r assms(4) have "entitled sto r \<or> (\<exists>b\<in>set (a # s). act_op b = SyncEntitlementsOp \<and> target_of b = res_id r)"
    unfolding covered_def by simp
  with assms(2,5) show "entitled sto' r \<or> (\<exists>b\<in>set (cs @ s). act_op b = SyncEntitlementsOp \<and> target_of b = res_id r)"
    by (auto simp: entitled_def)
qed

text \<open>When grants are fetched every resource that can be granted has its entitlements.\<close>

lemma grants_entitled:
  assumes "stack_fits (a # s)" and "covered (a # s) sto" and "act_op a \<in> {SyncGrantsOp, SyncGrantExpansionOp}"
    and "r \<in> set (sto_resources sto)" and "can_be_granted r"
  shows "entitled sto r"
proof -
  have "act_op b \<noteq> SyncEntitlementsOp" if b: "b \<in> set (a # s)" for b
  proof -
    have "b = a \<or> rank (act_op a) \<le> rank (act_op b)" using stack_fitsD(1) [OF assms(1)] b by auto
    with assms(3) show ?thesis by auto
  qed
  with assms(2,4,5) show ?thesis unfolding covered_def by blast
qed

section \<open>Failures\<close>

lemma handle_error_Ok:
  assumes "handle_error warn act m = (Ok (), m')"
  shows "act m = (Ok (), m') \<or>
    (\<exists>e m1. act m = (Err e, m1) \<and>
       (if warn \<and> is_warning e then m' = m1\<lparr>mac_warnings := mac_warnings m1 @ [e], mac_state := finish_action (mac_state m1)\<rparr>
        else should_retry e \<and> m' = m1))"
  using assms by (auto simp: handle_error_def split: prod.splits outcome.splits if_splits)

lemma no_rows_fatal: "\<not> is_warning no_rows" "\<not> should_retry no_rows"
  by (simp_all add: no_rows_def is_warning_def should_retry_def status_code_def)

lemma finish_stacked:
  "stacked m (a # s) \<Longrightarrow> stacked (m\<lparr>mac_warnings := ws, mac_state := finish_action (mac_state m)\<rparr>) s"
  using finish_stack [of "mac_state m"] by (simp add: stacked_def)

section \<open>Every kind of turn\<close>

lemma store_fits_resources:
  assumes "store_fits srv sto" and "\<forall>r\<in>set new. rid_type (res_id r) \<in> rty_id ` set (sto_resource_types sto)"
  shows "store_fits srv (sto\<lparr>sto_resources := put_entries res_id (sto_resources sto) new\<rparr>)"
proof -
  have "rid_type (res_id r) \<in> rty_id ` set (sto_resource_types sto)"
    if "r \<in> set (put_entries res_id (sto_resources sto) new)" for r
    using put_entries_in [OF that] assms unfolding store_fits_def by blast
  with assms(1) show ?thesis
    unfolding store_fits_def grant_stored_def by (simp add: put_entries_keys)
qed

lemma store_fits_types:
  assumes "store_fits srv sto" and "\<forall>t\<in>set types. \<exists>b. srv (rty_id t) = Some b \<and> t = builder_type b"
  shows "store_fits srv (sto\<lparr>sto_resource_types := put_entries rty_id (sto_resource_types sto) types\<rparr>)"
proof -
  have "\<exists>b. srv (rty_id t) = Some b \<and> t = builder_type b"
    if "t \<in> set (put_entries rty_id (sto_resource_types sto) types)" for t
    using put_entries_in [OF that] assms unfolding store_fits_def by blast
  with assms(1) show ?thesis
    unfolding store_fits_def grant_stored_def by (simp add: put_entries_keys)
qed

lemma store_fits_entitlements:
  assumes "store_fits srv sto" and "\<forall>e\<in>set es. entitlement_formed e"
  shows "store_fits srv (sto\<lparr>sto_entitlements := put_entries ent_id (sto_entitlements sto) es\<rparr>)"
proof -
  have "entitlement_formed e" if "e \<in> set (put_entries ent_id (sto_entitlements sto) es)" for e
    using put_entries_in [OF that] assms unfolding store_fits_def by blast
  with assms(1) show ?thesis
    unfolding store_fits_def grant_stored_def by (simp add: put_entries_keys)
qed

lemma store_fits_grants:
  assumes "store_fits srv sto" and "\<forall>g\<in>set gs. expands_own g \<and> (\<not> of_application g \<longrightarrow> grant_stored srv sto g)"
  shows "store_fits srv (sto\<lparr>sto_grants := put_entries grant_id (sto_grants sto) gs\<rparr>)"
proof -
  have "expands_own g \<and> (\<not> of_application g \<longrightarrow> grant_stored srv sto g)"
    if "g \<in> set (put_entries grant_id (sto_grants sto) gs)" for g
    using put_entries_in [OF that] assms unfolding store_fits_def by blast
  with assms(1) show ?thesis unfolding store_fits_def by (simp add: grant_stored_def)
qed

lemma apps_cached_put:
  assumes "apps_cached w rs" and "apps_cached w new"
  shows "apps_cached w (put_entries res_id rs new)"
  unfolding apps_cached_def
proof (intro ballI)
  fix r assume "r \<in> set (put_entries res_id rs new)"
  from put_entries_in [OF this] assms
  show "rid_type (res_id r) = ''enterprise_application'' \<longrightarrow> app_cache w (rid_resource (res_id r)) \<noteq> None"
    unfolding apps_cached_def by blast
qed

lemma token_ok_others [simp]: "act_op a \<noteq> SyncGrantsOp \<Longrightarrow> token_ok (a\<lparr>act_page_token := t\<rparr>)" "act_op a \<noteq> SyncGrantsOp \<Longrightarrow> token_ok a"
  by (simp_all add: token_ok_def)

lemma op_action_simps [simp]:
  "act_op (op_action p) = p" "act_page_token (op_action p) = []" "act_resource_type_id (op_action p) = []"
  "act_resource_id (op_action p) = []"
  by (simp_all add: op_action_def)

lemma resource_action_simps [simp]:
  "act_op (resource_action p r) = p" "act_page_token (resource_action p r) = []" "target_of (resource_action p r) = res_id r"
  "act_resource_type_id (resource_action p r) = rid_type (res_id r)"
  by (simp_all add: resource_action_def target_of_def)

text \<open>The parts of the invariant at a turn with the action on top.\<close>

lemma sync_fitsE:
  assumes "sync_fits srv m" and "sts_current (mac_state m) = Some a"
  obtains s where "stacked m (a # s)" "stack_fits (a # s)" "covered (a # s) (mac_store m)"
    "store_fits srv (mac_store m)" "apps_cached (mac_world m) (sto_resources (mac_store m))"
proof -
  obtain s where s: "stacked m s" "stack_fits s" "covered s (mac_store m)"
    using assms(1) unfolding sync_fits_def by blast
  then have "s = a # tl s" using current_top [OF assms(2)] by (simp add: stacked_def)
  with s assms(1) that [of "tl s"] show thesis by (simp add: sync_fits_def)
qed

subsection \<open>The start, the end and the types\<close>

lemma turn_init:
  assumes "sync_fits srv m" and "sts_current (mac_state m) = Some a" and "act_op a = InitOp"
    and "init_sync m = (Ok (), m')"
  shows "sync_fits srv m'"
proof -
  obtain s where s: "stacked m (a # s)" "stack_fits (a # s)" "covered (a # s) (mac_store m)"
    "store_fits srv (mac_store m)" "apps_cached (mac_world m) (sto_resources (mac_store m))"
    by (rule sync_fitsE [OF assms(1,2)])
  have "s = []" using stack_fitsD(2) [OF s(2) list.set_intros(1) assms(3)] by simp
  let ?ops = "[SyncGrantExpansionOp, SyncGrantsOp, SyncEntitlementsOp, SyncResourcesOp, SyncResourceTypesOp]"
  have m': "m' = m\<lparr>mac_state := fold state_push (map op_action ?ops) (finish_action (mac_state m))\<rparr>"
    using assms(4) by (simp add: init_sync_def with_state_def)
  have st: "state_ok (mac_state m)" "stack_of (mac_state m) = a # s" using s(1) by (simp_all add: stacked_def)
  have "stacked m' (rev (map op_action ?ops))"
    using pushes_stack [OF finish_stack(1) [OF st(1)], of "map op_action ?ops"] finish_stack(2) [OF st(1)] st(2) \<open>s = []\<close>
    unfolding m' stacked_def by simp
  moreover have "stack_fits (rev (map op_action ?ops))"
    by (simp add: stack_fits_def token_ok_def token_fits_def)
  moreover have "covered (rev (map op_action ?ops)) (mac_store m')"
    by (simp add: covered_def is_root_def)
  ultimately show ?thesis using s(4,5) by (intro sync_fitsI) (simp_all add: m')
qed

lemma turn_finish:
  assumes "sync_fits srv m" and "sts_current (mac_state m) = Some a" and "act_op a = SyncGrantExpansionOp"
    and "with_state finish_action m = (Ok (), m')"
  shows "sync_fits srv m'"
proof -
  obtain s where s: "stacked m (a # s)" "stack_fits (a # s)" "covered (a # s) (mac_store m)"
    "store_fits srv (mac_store m)" "apps_cached (mac_world m) (sto_resources (mac_store m))"
    by (rule sync_fitsE [OF assms(1,2)])
  have m': "m' = m\<lparr>mac_state := finish_action (mac_state m)\<rparr>"
    using assms(4) by (simp add: with_state_def)
  have "stacked m' s" using s(1) finish_stack [of "mac_state m"] by (simp add: m' stacked_def)
  moreover have "stack_fits s" using stack_step [OF s(2), of "[]"] assms(3) by simp
  moreover have "covered s (mac_store m')" using covered_step [OF s(3), of "[]"] assms(3) by (simp add: m')
  ultimately show ?thesis using s(4,5) by (intro sync_fitsI) (simp_all add: m')
qed

lemma turn_types:
  assumes srv: "connector_server = Inr srv" "list_resource_types srv types"
    and m: "sync_fits srv m" and "sts_current (mac_state m) = Some a" and op: "act_op a = SyncResourceTypesOp"
    and "handle_error False (sync_resource_types types) m = (Ok (), m')"
  shows "sync_fits srv m'"
proof -
  obtain s where s: "stacked m (a # s)" "stack_fits (a # s)" "covered (a # s) (mac_store m)"
    "store_fits srv (mac_store m)" "apps_cached (mac_world m) (sto_resources (mac_store m))"
    by (rule sync_fitsE [OF m assms(4)])
  define sto where "sto = (mac_store m)\<lparr>sto_resource_types := put_entries rty_id (sto_resource_types (mac_store m)) types\<rparr>"
  have "stacked (m\<lparr>mac_store := sto\<rparr>) (a # s)" using s(1) by (simp add: stacked_def)
  from go_on_stack [OF this, of "[]"] obtain m1 where m1: "go_on [] (m\<lparr>mac_store := sto\<rparr>) = (Ok (), m1)"
      "stacked m1 s" "same_rest (m\<lparr>mac_store := sto\<rparr>) m1" by (auto simp: moved_def)
  have "sync_resource_types types m = (Ok (), m1)"
    using m1(1) by (simp add: sync_resource_types_def bind_io_def with_store_def sto_def)
  with assms(6) have m': "m' = m1" by (simp add: handle_error_def)
  have "\<exists>b. srv (rty_id t) = Some b \<and> t = builder_type b" if "t \<in> set types" for t
  proof -
    have "t \<in> builder_type ` ran srv" using that srv(2) by (simp add: list_resource_types_def)
    then obtain i b where "srv i = Some b" "t = builder_type b" by (auto simp: ran_def)
    with server_cases [OF srv(1)] show ?thesis by auto
  qed
  then have "store_fits srv sto" unfolding sto_def by (intro store_fits_types s(4)) blast
  moreover have "stack_fits s" using stack_step [OF s(2), of "[]"] op by simp
  moreover have "covered s sto" using resources_below [OF s(2), of "[]"] op by simp
  ultimately show ?thesis
    using m1(2,3) s(5) by (intro sync_fitsI [of m' s]) (simp_all add: m' same_rest_def sto_def)
qed

subsection \<open>Resources\<close>

lemma sync_resources_root:
  assumes "act_resource_type_id a = []" and "stacked m (a # s)"
  shows "\<exists>m' cs. sync_resources env conn srv a m = (Ok (), m') \<and> stacked m' (cs @ s) \<and> same_rest m m' \<and>
    (\<forall>c\<in>set cs. act_op c = SyncResourcesOp)"
proof -
  obtain m1 where m1: "go_on [] m = (Ok (), m1)" "stacked m1 s" "same_rest m m1"
    using go_on_stack [OF assms(2), of "[]"] by (auto simp: moved_def)
  let ?as = "map (\<lambda>t. (op_action SyncResourcesOp)\<lparr>act_resource_type_id := rty_id t\<rparr>) (sto_resource_types (mac_store m1))"
  obtain m2 where m2: "push_actions ?as m1 = (Ok (), m2)" "stacked m2 (rev ?as @ s)" "same_rest m1 m2"
    using push_actions_stack [OF m1(2), of ?as] by (elim exE conjE) (rule that)
  have "sync_resources env conn srv a m = (Ok (), m2)"
    using m1(1) m2(1) assms(1) by (simp add: sync_resources_def bind_io_def)
  moreover have "\<forall>c\<in>set (rev ?as). act_op c = SyncResourcesOp" by simp
  moreover have "same_rest m m2" using m1(3) m2(3) by (simp add: same_rest_def)
  ultimately show ?thesis using m2(2) by blast
qed

lemma sync_resources_page_result:
  fixes m :: "'z builders_scheme machine"
  assumes "sync_resources_page env conn srv a m = (x, m')" and "stacked m (a # s)" and "act_op a = SyncResourcesOp"
    and x: "x = Ok () \<or> (\<exists>e. x = Err e)"
  defines "call \<equiv> serve_resources env conn srv (act_resource_type_id a) (parent_of a) (act_page_token a) (mac_world m)"
  shows "mac_world m' = snd call \<and> (\<exists>cs. (\<forall>c\<in>set cs. act_op c = SyncResourcesOp) \<and> stacked m' (cs @ s)) \<and>
    (mac_store m' = mac_store m \<or> (\<exists>rs t new. fst call = Ok (rs, t) \<and> set new \<subseteq> set rs \<and>
       (\<forall>r\<in>set new. rid_type (res_id r) \<in> rty_id ` set (sto_resource_types (mac_store m))) \<and>
       mac_store m' = (mac_store m)\<lparr>sto_resources := put_entries res_id (sto_resources (mac_store m)) new\<rparr>))"
proof -
  obtain y w1 where call: "call = (y, w1)" by fastforce
  let ?m1 = "m\<lparr>mac_world := w1\<rparr>"
  have st1: "stacked ?m1 (a # s)" using assms(2) by (simp add: stacked_def)
  have step: "connector_call (serve_resources env conn srv (act_resource_type_id a) (parent_of a) (act_page_token a)) m = (y, ?m1)"
    using call by (simp add: connector_call_def call_def)
  show ?thesis
  proof (cases y)
    case (Ok p)
    obtain rs t where p: "p = (rs, t)" by (cases p)
    obtain m2 where m2: "go_on t ?m1 = (Ok (), m2)" "stacked m2 (moved t (a # s))" "same_rest ?m1 m2"
      using go_on_stack [OF st1, of t] by (elim exE conjE) (rule that)
    obtain z m3 where loop: "new_resources_loop [] rs m2 = (z, m3)" by fastforce
    from resources_loop [OF this m2(2)] obtain cs where cs: "\<forall>a\<in>set cs. act_op a = SyncResourcesOp"
      "stacked m3 (cs @ moved t (a # s))" "same_rest m2 m3"
      "\<forall>new. z = Ok new \<longrightarrow> (\<forall>r\<in>set new. r \<in> set [] \<or>
       r \<in> set rs \<and> rid_type (res_id r) \<in> rty_id ` set (sto_resource_types (mac_store m2)))"
      by (elim exE conjE) (rule that)
    obtain ds where ds: "moved t (a # s) = ds @ s" "\<forall>d\<in>set ds. act_op d = SyncResourcesOp"
      using moved_step [of t a s] assms(3) by auto
    have st: "stacked m3 ((cs @ ds) @ s)" "\<forall>c\<in>set (cs @ ds). act_op c = SyncResourcesOp"
      using cs(1,2) ds by auto
    have same: "mac_store m3 = mac_store m" "mac_world m3 = w1" "mac_store m2 = mac_store m"
      using m2(3) cs(3) by (simp_all add: same_rest_def)
    have res: "sync_resources_page env conn srv a m = bind_io (\<lambda>_. (z, m3)) (\<lambda>new.
        with_store (\<lambda>s. s\<lparr>sto_resources := put_entries res_id (sto_resources s) new\<rparr>)) m2"
      using step Ok p m2(1) loop by (simp add: sync_resources_page_def bind_io_def)
    show ?thesis
    proof (cases z)
      case z: (Ok new)
      have m': "m' = m3\<lparr>mac_store := (mac_store m3)\<lparr>sto_resources := put_entries res_id (sto_resources (mac_store m3)) new\<rparr>\<rparr>"
        using res z assms(1) by (simp add: bind_io_def with_store_def)
      have "stacked m' ((cs @ ds) @ s)" using st(1) by (simp add: m' stacked_def)
      moreover have "set new \<subseteq> set rs"
        "\<forall>r\<in>set new. rid_type (res_id r) \<in> rty_id ` set (sto_resource_types (mac_store m))"
        using cs(4) z same(3) by auto
      ultimately show ?thesis using st(2) same call Ok p
        by (intro conjI) (simp add: m', blast, intro disjI2 exI [of _ rs] exI [of _ t] exI [of _ new], simp add: m')
    next
      case (Err e)
      then have "m' = m3" using res assms(1) by (simp add: bind_io_def)
      with st same call show ?thesis by (intro conjI) (simp, blast, simp)
    qed (use res assms(1) x in \<open>auto simp: bind_io_def\<close>)
  next
    case (Err e)
    then have "m' = ?m1" using step assms(1) by (simp add: sync_resources_page_def bind_io_def)
    with st1 assms(3) call show ?thesis by (intro conjI) (simp, intro exI [of _ "[a]"], simp, simp)
  qed (use step assms(1) x in \<open>auto simp: sync_resources_page_def bind_io_def\<close>)
qed

lemma turn_resources:
  fixes m :: "'z builders_scheme machine"
  assumes srv: "connector_server = Inr srv"
    and m: "sync_fits srv m" and "sts_current (mac_state m) = Some a" and op: "act_op a = SyncResourcesOp"
    and act: "handle_error False (sync_resources env conn srv a) m = (Ok (), m')"
  shows "sync_fits srv m'"
proof -
  obtain s where s: "stacked m (a # s)" "stack_fits (a # s)" "covered (a # s) (mac_store m)"
    "store_fits srv (mac_store m)" "apps_cached (mac_world m) (sto_resources (mac_store m))"
    by (rule sync_fitsE [OF m assms(3)])
  have stack: "stack_fits (cs @ s)" "covered (cs @ s) sto" if "\<forall>c\<in>set cs. act_op c = SyncResourcesOp" for cs sto
    using stack_step [OF s(2), of cs] resources_below [OF s(2), of cs sto] op that by simp_all
  show ?thesis
  proof (cases "act_resource_type_id a = []")
    case True
    from sync_resources_root [OF this s(1), of env conn srv] obtain m1 cs where
      m1: "sync_resources env conn srv a m = (Ok (), m1)" "stacked m1 (cs @ s)" "same_rest m m1"
        "\<forall>c\<in>set cs. act_op c = SyncResourcesOp" by (elim exE conjE) (rule that)
    with act have "m' = m1" by (simp add: handle_error_def)
    with m1 stack [OF m1(4)] s(4,5) show ?thesis by (intro sync_fitsI [of m' "cs @ s"]) (simp_all add: same_rest_def)
  next
    case False
    then have eq: "sync_resources env conn srv a = sync_resources_page env conn srv a" by (simp add: sync_resources_def)
    obtain x where page: "sync_resources_page env conn srv a m = (x, m')" and x: "x = Ok () \<or> (\<exists>e. x = Err e)"
      using handle_error_Ok [OF act] unfolding eq by auto
    let ?call = "serve_resources env conn srv (act_resource_type_id a) (parent_of a) (act_page_token a) (mac_world m)"
    note r = sync_resources_page_result [OF page s(1) op x]
    obtain cs where cs: "\<forall>c\<in>set cs. act_op c = SyncResourcesOp" "stacked m' (cs @ s)" using r by blast
    have w: "mac_world m' = snd ?call" using r by blast
    have "caches_grow (conn_organization_ids conn) (mac_world m) (mac_world m')" unfolding w by (rule served_grow)
    from apps_stay_cached [OF this s(5)] have old: "apps_cached (mac_world m') (sto_resources (mac_store m))" .
    consider "mac_store m' = mac_store m" | rs t new where "fst ?call = Ok (rs, t)" "set new \<subseteq> set rs"
       "\<forall>r\<in>set new. rid_type (res_id r) \<in> rty_id ` set (sto_resource_types (mac_store m))"
       "mac_store m' = (mac_store m)\<lparr>sto_resources := put_entries res_id (sto_resources (mac_store m)) new\<rparr>"
      using r by blast
    then show ?thesis
    proof cases
      case 1
      with cs stack [OF cs(1)] s(4) old show ?thesis by (intro sync_fitsI [of m' "cs @ s"]) simp_all
    next
      case 2
      have "?call = (Ok (rs, t), mac_world m')" using 2(1) w by (simp add: prod_eq_iff)
      from served_apps_cached [OF srv this] 2(2) have "apps_cached (mac_world m') new"
        unfolding apps_cached_def by blast
      from apps_cached_put [OF old this] have "apps_cached (mac_world m') (sto_resources (mac_store m'))" by (simp add: 2(4))
      moreover have "store_fits srv (mac_store m')" unfolding 2(4) by (rule store_fits_resources [OF s(4) 2(3)])
      ultimately show ?thesis using cs stack [OF cs(1)] by (intro sync_fitsI [of m' "cs @ s"]) simp_all
    qed
  qed
qed

subsection \<open>Entitlements and grants\<close>

lemma push_all_resources_stack:
  assumes "stacked m (a # s)"
    and "\<forall>r\<in>set (sto_resources (mac_store m)). rid_type (res_id r) \<in> rty_id ` set (sto_resource_types (mac_store m))"
  shows "\<exists>m'. push_all_resources p m = (Ok (), m') \<and> same_rest m m' \<and>
    stacked m' (pushed p (mac_store m) (sto_resources (mac_store m)) @ s)"
proof -
  obtain m1 where m1: "go_on [] m = (Ok (), m1)" "stacked m1 s" "same_rest m m1"
    using go_on_stack [OF assms(1), of "[]"] by (auto simp: moved_def)
  have st: "mac_store m1 = mac_store m" using m1(3) by (simp add: same_rest_def)
  from push_resources_stack [OF m1(2), of "sto_resources (mac_store m1)" p] assms(2) obtain m2 where
    m2: "push_resources p (sto_resources (mac_store m1)) m1 = (Ok (), m2)" "same_rest m1 m2"
      "stacked m2 (pushed p (mac_store m) (sto_resources (mac_store m)) @ s)"
    unfolding st by (elim meta_impE) auto
  have "push_all_resources p m = (Ok (), m2)" using m1(1) m2(1) by (simp add: push_all_resources_def bind_io_def)
  moreover have "same_rest m m2" using m1(3) m2(2) by (simp add: same_rest_def)
  ultimately show ?thesis using m2(3) by blast
qed

lemma push_all_resources_result:
  assumes "stacked m (a # s)" and "store_fits srv (mac_store m)"
  shows "\<exists>m' cs. push_all_resources p m = (Ok (), m') \<and> stacked m' (cs @ s) \<and> same_rest m m' \<and>
    (\<forall>c\<in>set cs. \<exists>r\<in>set (sto_resources (mac_store m)). c = resource_action p r) \<and>
    (\<forall>r\<in>set (sto_resources (mac_store m)). can_be_granted r \<longrightarrow> resource_action p r \<in> set cs)"
proof -
  let ?sto = "mac_store m"
  have types: "\<forall>r\<in>set (sto_resources ?sto). rid_type (res_id r) \<in> rty_id ` set (sto_resource_types ?sto)"
    using assms(2) unfolding store_fits_def by blast
  have "\<not> skips ?sto r" if r: "r \<in> set (sto_resources ?sto)" "can_be_granted r" for r
  proof -
    obtain t where t: "get_resource_type ?sto (rid_type (res_id r)) = Inr t"
      using types r(1) get_resource_type_stored [of "rid_type (res_id r)" ?sto] by auto
    from get_resource_type_Inr [OF t] store_fitsD(1) [OF assms(2)] obtain b where
      "t = builder_type b" "rty_id t = rid_type (res_id r)" by blast
    with r(2) t show ?thesis
      by (cases b) (auto simp: skips_def can_be_granted_def should_skip_entitlements_and_grants_def builder_type_defs
          resource_type_defs annos_contains_def)
  qed
  then have "\<forall>r\<in>set (sto_resources ?sto). can_be_granted r \<longrightarrow> resource_action p r \<in> set (pushed p ?sto (sto_resources ?sto))"
    by (simp add: pushed_def)
  moreover have "\<forall>c\<in>set (pushed p ?sto (sto_resources ?sto)). \<exists>r\<in>set (sto_resources ?sto). c = resource_action p r"
    by (auto simp: pushed_def)
  ultimately show ?thesis using push_all_resources_stack [OF assms(1) types, of p] by blast
qed

lemma new_entitlement_id_cong: "res_id r = res_id r' \<Longrightarrow> new_entitlement_id r = new_entitlement_id r'"
  by (simp add: fun_eq_iff new_entitlement_id_def)

lemma can_be_granted_id:
  assumes "res_id r = res_id r'"
  shows "can_be_granted r = can_be_granted r'" "entitled sto r = entitled sto r'"
  using assms new_entitlement_id_cong [OF assms] by (simp_all add: can_be_granted_def entitled_def)

text \<open>After the entitlements of a resource came, it needs no action any more.\<close>

lemma covered_done:
  assumes "covered (a # s) sto" and "sto_resources sto' = sto_resources sto"
    and mono: "ent_id ` set (sto_entitlements sto) \<subseteq> ent_id ` set (sto_entitlements sto')"
    and now: "\<And>r. r \<in> set (sto_resources sto) \<Longrightarrow> can_be_granted r \<Longrightarrow> target_of a = res_id r \<Longrightarrow> entitled sto' r"
    and "\<not> is_root a"
  shows "covered s sto'"
  unfolding covered_def
proof (intro impI ballI)
  fix r
  assume n: "\<forall>a\<in>set s. act_op a = SyncEntitlementsOp \<longrightarrow> \<not> is_root a"
    and r: "r \<in> set (sto_resources sto')" "can_be_granted r"
  have "entitled sto r \<or> (\<exists>b\<in>set (a # s). act_op b = SyncEntitlementsOp \<and> target_of b = res_id r)"
    using assms(1) n r assms(2,5) unfolding covered_def by simp
  moreover have "entitled sto r \<Longrightarrow> entitled sto' r" using mono unfolding entitled_def by blast
  ultimately show "entitled sto' r \<or> (\<exists>b\<in>set s. act_op b = SyncEntitlementsOp \<and> target_of b = res_id r)"
    using now r assms(2) by auto
qed

lemma covered_more:
  assumes "covered (a # s) sto" and "sto_resources sto' = sto_resources sto"
    and "ent_id ` set (sto_entitlements sto) \<subseteq> ent_id ` set (sto_entitlements sto')"
  shows "covered (a\<lparr>act_page_token := t\<rparr> # s) sto'"
  unfolding covered_def
proof (intro impI ballI)
  fix r
  assume n: "\<forall>b\<in>set (a\<lparr>act_page_token := t\<rparr> # s). act_op b = SyncEntitlementsOp \<longrightarrow> \<not> is_root b"
    and r: "r \<in> set (sto_resources sto')" "can_be_granted r"
  have "\<forall>b\<in>set (a # s). act_op b = SyncEntitlementsOp \<longrightarrow> \<not> is_root b" using n by (simp add: is_root_def)
  with assms(1,2) r have "entitled sto r \<or> (\<exists>b\<in>set (a # s). act_op b = SyncEntitlementsOp \<and> target_of b = res_id r)"
    unfolding covered_def by simp
  moreover have "entitled sto r \<Longrightarrow> entitled sto' r" using assms(3) unfolding entitled_def by blast
  ultimately show "entitled sto' r \<or> (\<exists>b\<in>set (a\<lparr>act_page_token := t\<rparr> # s). act_op b = SyncEntitlementsOp \<and> target_of b = res_id r)"
    by (auto simp: target_of_def)
qed

text \<open>
  A page of entitlements or grants: the call, what is done with its results, the next page;
  a failure that is a warning drops the action, one to retry keeps it.
\<close>

lemma page_turn:
  assumes run: "act m = bind_io (\<lambda>_. (y, m\<lparr>mac_world := w1\<rparr>)) (\<lambda>(xs, t). bind_io (step xs) (\<lambda>_. go_on t)) m"
    and step: "\<And>xs v. stacked v (a # s) \<Longrightarrow> \<exists>v'. step xs v = (Ok (), v') \<and> stacked v' (a # s) \<and>
      mac_store v' = f xs (mac_store v) \<and> mac_world v' = mac_world v"
    and st: "stacked m (a # s)" and act: "handle_error True act m = (Ok (), m')"
  shows "mac_world m' = w1 \<and>
    ((\<exists>xs t. y = Ok (xs, t) \<and> mac_store m' = f xs (mac_store m) \<and> stacked m' (moved t (a # s))) \<or>
     (\<exists>e. y = Err e \<and> mac_store m' = mac_store m \<and> (stacked m' (a # s) \<or> stacked m' s)))"
proof (cases y)
  case (Ok p)
  obtain xs t where p: "p = (xs, t)" by (cases p)
  have "stacked (m\<lparr>mac_world := w1\<rparr>) (a # s)" using st by (simp add: stacked_def)
  from step [OF this, of xs] obtain v where v: "step xs (m\<lparr>mac_world := w1\<rparr>) = (Ok (), v)" "stacked v (a # s)"
    "mac_store v = f xs (mac_store m)" "mac_world v = w1" by auto
  obtain v' where v': "go_on t v = (Ok (), v')" "stacked v' (moved t (a # s))" "same_rest v v'"
    using go_on_stack [OF v(2), of t] by (elim exE conjE) (rule that)
  have "act m = (Ok (), v')" using run Ok p v(1) v'(1) by (simp add: bind_io_def)
  then have "m' = v'" using act by (simp add: handle_error_def)
  with v v' Ok p show ?thesis by (simp add: same_rest_def)
next
  case (Err e)
  have "act m = (Err e, m\<lparr>mac_world := w1\<rparr>)" using run Err by (simp add: bind_io_def)
  with handle_error_Ok [OF act]
  have "m' = m\<lparr>mac_world := w1\<rparr> \<or> (\<exists>ws. m' = m\<lparr>mac_world := w1, mac_warnings := ws, mac_state := finish_action (mac_state m)\<rparr>)"
    by (auto split: if_splits)
  moreover have "stacked (m\<lparr>mac_world := w1, mac_warnings := ws, mac_state := finish_action (mac_state m)\<rparr>) s" for ws
    using finish_stacked [OF st] by (simp add: stacked_def)
  ultimately show ?thesis using Err st by (auto simp: stacked_def)
qed (use run act in \<open>auto simp: bind_io_def handle_error_def\<close>)

lemma missing_resource:
  assumes "act m = (Err no_rows, m)"
  shows "handle_error warn act m \<noteq> (Ok (), m')"
  using assms no_rows_fatal by (auto simp: handle_error_def)

lemma entitlements_page:
  fixes m :: "'z builders_scheme machine"
  assumes st: "stacked m (a # s)" and "\<not> is_root a" and act: "handle_error True (sync_entitlements srv a) m = (Ok (), m')"
  shows "\<exists>r y. r \<in> set (sto_resources (mac_store m)) \<and> res_id r = target_of a \<and>
    serve_entitlements srv r (act_page_token a) (mac_world m) = (y, mac_world m') \<and>
    ((\<exists>es t. y = Ok (es, t) \<and> stacked m' (moved t (a # s)) \<and>
        mac_store m' = (mac_store m)\<lparr>sto_entitlements := put_entries ent_id (sto_entitlements (mac_store m)) es\<rparr>) \<or>
     (\<exists>e. y = Err e \<and> mac_store m' = mac_store m \<and> (stacked m' (a # s) \<or> stacked m' s)))"
proof (cases "get_resource (mac_store m) (target_of a)")
  case (Inl e)
  then have "sync_entitlements srv a m = (Err no_rows, m)"
    using get_resource_Inl [OF Inl] assms(2) by (simp add: sync_entitlements_def sync_entitlements_for_resource_def stored_resource_def bind_io_def)
  with missing_resource [of "sync_entitlements srv a" m True m'] act show ?thesis by simp
next
  case (Inr r)
  obtain y w1 where call: "serve_entitlements srv r (act_page_token a) (mac_world m) = (y, w1)" by fastforce
  let ?f = "\<lambda>es s. s\<lparr>sto_entitlements := put_entries ent_id (sto_entitlements s) es\<rparr>"
  have "sync_entitlements srv a m = bind_io (\<lambda>_. (y, m\<lparr>mac_world := w1\<rparr>)) (\<lambda>(es, t).
      bind_io (with_store (?f es)) (\<lambda>_. go_on t)) m"
    using assms(2) Inr call by (simp add: sync_entitlements_def sync_entitlements_for_resource_def stored_resource_def connector_call_def bind_io_def)
  from page_turn [where act = "sync_entitlements srv a", OF this with_store_stack [where f = "?f _"] st act]
  show ?thesis using get_resource_Inr [OF Inr] call by (intro exI [of _ r] exI [of _ y]) auto
qed

lemma turn_entitlements:
  fixes m :: "'z builders_scheme machine"
  assumes srv: "connector_server = Inr srv"
    and m: "sync_fits srv m" and "sts_current (mac_state m) = Some a" and op: "act_op a = SyncEntitlementsOp"
    and act: "handle_error True (sync_entitlements srv a) m = (Ok (), m')"
  shows "sync_fits srv m'"
proof -
  obtain s where s: "stacked m (a # s)" "stack_fits (a # s)" "covered (a # s) (mac_store m)"
    "store_fits srv (mac_store m)" "apps_cached (mac_world m) (sto_resources (mac_store m))"
    by (rule sync_fitsE [OF m assms(3)])
  have stack: "stack_fits (cs @ s)" if "\<forall>c\<in>set cs. act_op c = SyncEntitlementsOp" for cs
    using stack_step [OF s(2), of cs] op that by simp
  show ?thesis
  proof (cases "is_root a")
    case True
    from push_all_resources_result [OF s(1,4), of SyncEntitlementsOp] obtain m1 cs where
      m1: "push_all_resources SyncEntitlementsOp m = (Ok (), m1)" "stacked m1 (cs @ s)" "same_rest m m1"
        "\<forall>c\<in>set cs. \<exists>r\<in>set (sto_resources (mac_store m)). c = resource_action SyncEntitlementsOp r"
        "\<forall>r\<in>set (sto_resources (mac_store m)). can_be_granted r \<longrightarrow> resource_action SyncEntitlementsOp r \<in> set cs"
      by (elim exE conjE) (rule that)
    then have m': "m' = m1" using act True by (simp add: sync_entitlements_def sync_entitlements_for_resource_def handle_error_def)
    have "covered (cs @ s) (mac_store m')"
      unfolding covered_def using m1(3,5)
      by (auto simp: m' same_rest_def) (metis resource_action_simps(1,3) UnI1)
    moreover have "stack_fits (cs @ s)" by (rule stack) (use m1(4) in auto)
    ultimately show ?thesis using m1(2,3) s(4,5)
      by (intro sync_fitsI [of m' "cs @ s"]) (simp_all add: m' same_rest_def)
  next
    case root: False
    obtain r y where r: "r \<in> set (sto_resources (mac_store m))" "res_id r = target_of a"
      and call: "serve_entitlements srv r (act_page_token a) (mac_world m) = (y, mac_world m')"
      and y: "(\<exists>es t. y = Ok (es, t) \<and> stacked m' (moved t (a # s)) \<and>
        mac_store m' = (mac_store m)\<lparr>sto_entitlements := put_entries ent_id (sto_entitlements (mac_store m)) es\<rparr>) \<or>
     (\<exists>e. y = Err e \<and> mac_store m' = mac_store m \<and> (stacked m' (a # s) \<or> stacked m' s))"
      using entitlements_page [OF s(1) root act] by (elim exE conjE) (rule that)
    have "caches_grow (conn_organization_ids plain_conn) (mac_world m) (mac_world m')"
      using served_grow(2) [of plain_conn "mac_world m" srv r "act_page_token a"] call by simp
    from apps_stay_cached [OF this s(5)] have apps: "apps_cached (mac_world m') (sto_resources (mac_store m))" .
    have granted: "\<exists>es. y = Ok (es, []) \<and> ent_id ` set es = new_entitlement_id r ` permissions (rid_type (res_id r))"
      if "can_be_granted r"
      using granting_entitlements [OF srv, of r "act_page_token a" "mac_world m"] that call by (auto simp: can_be_granted_def)
    from y show ?thesis
    proof (elim disjE exE conjE)
      fix es t
      assume y: "y = Ok (es, t)" and st: "stacked m' (moved t (a # s))"
        and m': "mac_store m' = (mac_store m)\<lparr>sto_entitlements := put_entries ent_id (sto_entitlements (mac_store m)) es\<rparr>"
      have fits: "store_fits srv (mac_store m')" unfolding m'
        by (intro store_fits_entitlements s(4) ballI) (rule served_entitlements_formed [OF srv call [unfolded y]])
      have keys: "ent_id ` set (sto_entitlements (mac_store m')) = ent_id ` set (sto_entitlements (mac_store m)) \<union> ent_id ` set es"
        by (simp add: m' put_entries_keys)
      have "covered s (mac_store m')" if "t = []"
      proof (rule covered_done [OF s(3) _ _ _ root])
        show "entitled (mac_store m') r'" if "can_be_granted r'" "target_of a = res_id r'" for r'
        proof -
          have same: "res_id r = res_id r'" using r(2) that(2) by simp
          have "can_be_granted r" using can_be_granted_id(1) [OF same] that(1) by simp
          from granted [OF this] y have "ent_id ` set es = new_entitlement_id r ` permissions (rid_type (res_id r))" by simp
          then have "entitled (mac_store m') r" by (simp add: entitled_def keys)
          with can_be_granted_id(2) [OF same] show ?thesis by simp
        qed
      qed (simp_all add: m' put_entries_keys)
      moreover have "covered (a\<lparr>act_page_token := t\<rparr> # s) (mac_store m')"
        by (rule covered_more [OF s(3)]) (simp_all add: m' put_entries_keys)
      ultimately have "covered (moved t (a # s)) (mac_store m')" by (simp add: moved_def)
      moreover have "stack_fits (moved t (a # s))" using stack_moved [OF s(2)] op by simp
      ultimately show ?thesis using st fits apps by (intro sync_fitsI [of m' "moved t (a # s)"]) (simp_all add: m')
    next
      fix e
      assume y: "y = Err e" and m': "mac_store m' = mac_store m" and st: "stacked m' (a # s)"
      then show ?thesis using s apps by (intro sync_fitsI [of m' "a # s"]) simp_all
    next
      fix e
      assume y: "y = Err e" and m': "mac_store m' = mac_store m" and st: "stacked m' s"
      have "covered s (mac_store m)"
        by (rule covered_done [OF s(3) HOL.refl subset_refl _ root])
          (use granted y r(2) can_be_granted_id [of r] in auto)
      moreover have "stack_fits s" using stack [of "[]"] by simp
      ultimately show ?thesis using st s(4) apps by (intro sync_fitsI [of m' s]) (simp_all add: m')
    qed
  qed
qed

lemma grants_page:
  fixes m :: "'z builders_scheme machine"
  assumes st: "stacked m (a # s)" and "\<not> is_root a" and act: "handle_error True (sync_grants env conn srv a) m = (Ok (), m')"
  shows "\<exists>r y. r \<in> set (sto_resources (mac_store m)) \<and> res_id r = target_of a \<and>
    serve_grants env conn srv r (act_page_token a) (mac_world m) = (y, mac_world m') \<and>
    ((\<exists>gs t. y = Ok (gs, t) \<and> stacked m' (moved t (a # s)) \<and>
        mac_store m' = (mac_store m)\<lparr>sto_grants := put_entries grant_id (sto_grants (mac_store m)) gs\<rparr>) \<or>
     (\<exists>e. y = Err e \<and> mac_store m' = mac_store m \<and> (stacked m' (a # s) \<or> stacked m' s)))"
proof (cases "get_resource (mac_store m) (target_of a)")
  case (Inl e)
  then have "sync_grants env conn srv a m = (Err no_rows, m)"
    using get_resource_Inl [OF Inl] assms(2) by (simp add: sync_grants_def sync_grants_for_resource_def stored_resource_def bind_io_def)
  with missing_resource [of "sync_grants env conn srv a" m True m'] act show ?thesis by simp
next
  case (Inr r)
  obtain y w1 where call: "serve_grants env conn srv r (act_page_token a) (mac_world m) = (y, w1)" by fastforce
  let ?f = "\<lambda>gs s. s\<lparr>sto_grants := put_entries grant_id (sto_grants s) gs\<rparr>"
  let ?step = "\<lambda>gs. bind_io (with_state (\<lambda>st. if list_ex is_expandable gs then st\<lparr>sts_needs_expansion := True\<rparr> else st))
      (\<lambda>_. with_store (?f gs))"
  have run: "sync_grants env conn srv a m = bind_io (\<lambda>_. (y, m\<lparr>mac_world := w1\<rparr>)) (\<lambda>(gs, t). bind_io (?step gs) (\<lambda>_. go_on t)) m"
    using assms(2) Inr call
    by (simp add: sync_grants_def sync_grants_for_resource_def stored_resource_def connector_call_def bind_io_def with_state_def with_store_def
        split: outcome.splits)
  have "\<exists>v'. ?step gs v = (Ok (), v') \<and> stacked v' (a # s) \<and> mac_store v' = ?f gs (mac_store v) \<and> mac_world v' = mac_world v"
    if "stacked v (a # s)" for gs and v :: "'z builders_scheme machine"
    using that by (cases "sts_current (mac_state v)")
      (simp_all add: bind_io_def with_state_def with_store_def stacked_def state_ok_def stack_of_def)
  from page_turn [where act = "sync_grants env conn srv a", OF run this st act]
  show ?thesis using get_resource_Inr [OF Inr] call by (intro exI [of _ r] exI [of _ y]) auto
qed

lemma turn_grants:
  fixes m :: "'z builders_scheme machine"
  assumes srv: "connector_server = Inr srv"
    and m: "sync_fits srv m" and "sts_current (mac_state m) = Some a" and op: "act_op a = SyncGrantsOp"
    and act: "handle_error True (sync_grants env conn srv a) m = (Ok (), m')"
  shows "sync_fits srv m'"
proof -
  obtain s where s: "stacked m (a # s)" "stack_fits (a # s)" "covered (a # s) (mac_store m)"
    "store_fits srv (mac_store m)" "apps_cached (mac_world m) (sto_resources (mac_store m))"
    by (rule sync_fitsE [OF m assms(3)])
  have stack: "stack_fits (cs @ s)" "covered (cs @ s) sto"
    if "\<forall>c\<in>set cs. act_op c = SyncGrantsOp \<and> token_ok c" "sto_resources sto = sto_resources (mac_store m)"
      "sto_entitlements sto = sto_entitlements (mac_store m)" for cs sto
    using stack_step [OF s(2), of cs] covered_step [OF s(3), of cs sto] op that by simp_all
  show ?thesis
  proof (cases "is_root a")
    case True
    from push_all_resources_result [OF s(1,4), of SyncGrantsOp] obtain m1 cs where
      m1: "push_all_resources SyncGrantsOp m = (Ok (), m1)" "stacked m1 (cs @ s)" "same_rest m m1"
        "\<forall>c\<in>set cs. \<exists>r\<in>set (sto_resources (mac_store m)). c = resource_action SyncGrantsOp r"
      by (elim exE conjE) (rule that)
    then have m': "m' = m1" using act True by (simp add: sync_grants_def sync_grants_for_resource_def handle_error_def)
    have "\<forall>c\<in>set cs. act_op c = SyncGrantsOp \<and> token_ok c"
      using m1(4) by (auto simp: token_ok_def token_fits_def relation_token_def)
    from stack [OF this] m1(2,3) s(4,5) show ?thesis
      by (intro sync_fitsI [of m' "cs @ s"]) (simp_all add: m' same_rest_def)
  next
    case root: False
    obtain r y where r: "r \<in> set (sto_resources (mac_store m))" "res_id r = target_of a"
      and call: "serve_grants env conn srv r (act_page_token a) (mac_world m) = (y, mac_world m')"
      and y: "(\<exists>gs t. y = Ok (gs, t) \<and> stacked m' (moved t (a # s)) \<and>
        mac_store m' = (mac_store m)\<lparr>sto_grants := put_entries grant_id (sto_grants (mac_store m)) gs\<rparr>) \<or>
     (\<exists>e. y = Err e \<and> mac_store m' = mac_store m \<and> (stacked m' (a # s) \<or> stacked m' s))"
      using grants_page [OF s(1) root act] by (elim exE conjE) (rule that)
    have "caches_grow (conn_organization_ids conn) (mac_world m) (mac_world m')"
      using served_grow(3) [of conn "mac_world m" env srv r "act_page_token a"] call by simp
    from apps_stay_cached [OF this s(5)] have apps: "apps_cached (mac_world m') (sto_resources (mac_store m))" .
    have ty: "rid_type (res_id r) = act_resource_type_id a" using r(2) by (simp add: target_of_def)
    have tok: "token_fits (rid_type (res_id r)) (act_page_token a)"
      using stack_fitsD(4) [OF s(2) list.set_intros(1)] op ty by (simp add: token_ok_def)
    from y show ?thesis
    proof (elim disjE exE conjE)
      fix gs t
      assume y: "y = Ok (gs, t)" and st: "stacked m' (moved t (a # s))"
        and m': "mac_store m' = (mac_store m)\<lparr>sto_grants := put_entries grant_id (sto_grants (mac_store m)) gs\<rparr>"
      note refer = served_grants_refer [OF srv call [unfolded y] tok]
      have "expands_own g \<and> (\<not> of_application g \<longrightarrow> grant_stored srv (mac_store m) g)" if g: "g \<in> set gs" for g
      proof (cases "rid_type (res_id r) = ''enterprise_application''")
        case False
        with refer g have k: "rid_type (res_id r) \<in> {''group'', ''role''}" "refers_to srv r g" "expands_own g" by blast+
        have "entitled (mac_store m) r"
          by (rule grants_entitled [OF s(2,3) _ r(1)]) (use op k(1) in \<open>simp_all add: can_be_granted_def\<close>)
        with k(2) r(1) new_entitlement_id_cong [of "ent_resource (grant_entitlement g)" r]
        have "grant_stored srv (mac_store m) g" by (auto simp: grant_stored_def refers_to_def entitled_def)
        with k(3) show ?thesis by simp
      next
        case True
        with refer g show ?thesis by (simp add: of_application_def)
      qed
      then have "store_fits srv (mac_store m')" unfolding m' by (intro store_fits_grants s(4)) blast
      moreover have "token_ok (a\<lparr>act_page_token := t\<rparr>)" using refer ty by (simp add: token_ok_def)
      then have "stack_fits (moved t (a # s))" "covered (moved t (a # s)) (mac_store m')"
        using stack [of "[]" "mac_store m'"] stack [of "[a\<lparr>act_page_token := t\<rparr>]" "mac_store m'"] op
        by (simp_all add: moved_def m')
      ultimately show ?thesis using st apps by (intro sync_fitsI [of m' "moved t (a # s)"]) (simp_all add: m')
    next
      fix e
      assume "y = Err e" and m': "mac_store m' = mac_store m" and st: "stacked m' (a # s)"
      then show ?thesis using s apps by (intro sync_fitsI [of m' "a # s"]) simp_all
    next
      fix e
      assume "y = Err e" and m': "mac_store m' = mac_store m" and st: "stacked m' s"
      then show ?thesis using stack [of "[]" "mac_store m"] s(4) apps by (intro sync_fitsI [of m' s]) simp_all
    qed
  qed
qed

section \<open>The invariant\<close>

lemma sync_keeps_fits:
  fixes m :: "'z builders_scheme machine"
  assumes "connector_server = Inr srv" and "list_resource_types srv types"
    and "sync_fits srv m" and "sync_loop env conn srv types m = Some (Ok (), m')"
  shows "sync_fits srv m'"
proof -
  obtain a act where a: "sts_current (mac_state m) = Some a"
    and t: "sync_turn env conn srv types (mac_state m) a = Some act" "act m = (Ok (), m')"
    using assms(4) by (auto simp: sync_loop_def bind_eq_Some_conv split: if_splits)
  show ?thesis
  proof (cases "act_op a")
    case InitOp
    with t show ?thesis by (intro turn_init [OF assms(3) a]) (simp_all add: sync_turn_def)
  next
    case SyncResourceTypesOp
    with t show ?thesis by (intro turn_types [OF assms(1,2,3) a]) (simp_all add: sync_turn_def)
  next
    case SyncResourcesOp
    with t show ?thesis by (intro turn_resources [where env = env and conn = conn, OF assms(1,3) a]) (simp_all add: sync_turn_def)
  next
    case SyncEntitlementsOp
    with t show ?thesis by (intro turn_entitlements [OF assms(1,3) a]) (simp_all add: sync_turn_def)
  next
    case SyncGrantsOp
    with t show ?thesis by (intro turn_grants [where env = env and conn = conn, OF assms(1,3) a]) (simp_all add: sync_turn_def)
  next
    case SyncGrantExpansionOp
    with t show ?thesis by (intro turn_finish [OF assms(3) a]) (simp_all add: sync_turn_def split: if_splits)
  qed
qed

lemma start_fits: "sync_fits srv (start_machine w)"
  by (rule sync_fitsI [of _ "[op_action InitOp]"])
    (simp_all add: start_machine_def initial_state_def empty_store_def stacked_def state_ok_def stack_of_def stack_fits_def
      covered_def store_fits_def apps_cached_def)

lemma reachable_fits:
  assumes "connector_server = Inr srv" and "list_resource_types srv types"
  shows "sync_reachable env conn srv types m \<Longrightarrow> sync_fits srv m"
  by (induction rule: sync_reachable.induct) (rule start_fits, rule sync_keeps_fits [OF assms])

end
