(* ===== verification/Sync_Run.thy ===== *)
theory Sync_Run
  imports Sync_Turns List_Laws
begin

text \<open>
  One sync in full, turn by turn, against a Graph that answers everything with one group
  that is a member and an owner of itself: the run that the properties of \<open>Sync_Laws\<close> are
  seen at.
\<close>

section \<open>A sync of a nested group\<close>

text \<open>Graph answers everything with one group that is a member and an owner of itself.\<close>

definition nested_json :: json where
  "nested_json = JObj [(''value'', JArr [member_json ''h'' odata_type_group])]"

definition sync_env :: env where
  "sync_env = answering 200 (json_print nested_json)"

definition sync_site :: "string \<Rightarrow> response" where
  "sync_site = (\<lambda>_. json_response 200 (json_print nested_json))"

definition all_types :: "resource_type list" where
  "all_types = map builder_type resource_syncers"

lemma demo_server: "connector_server = Inr demo_srv"
  by (simp add: connector_server_eq demo_srv_def)

lemma demo_types: "list_resource_types demo_srv all_types"
proof -
  have "b \<in> set resource_syncers" if "demo_srv i = Some b" for i b
    using that by (auto simp: demo_srv_def resource_syncers_def split: if_splits)
  moreover have "demo_srv (rty_id (builder_type b)) = Some b" if "b \<in> set resource_syncers" for b
    using that by (auto simp: demo_srv_def resource_syncers_def builder_type_defs resource_type_defs)
  ultimately have "ran demo_srv = set resource_syncers" by (auto simp: ran_def)
  moreover have "distinct all_types" by code_simp
  ultimately show ?thesis by (simp add: list_resource_types_def all_types_def)
qed

lemma nested_ok: "json_ok nested_json"
  by code_simp

lemma sync_env_stable: "stable_env sync_env sync_site ''t''"
  using answering_stable by (simp add: sync_env_def sync_site_def)

text \<open>A list of Graph is one page with the entry \<open>h\<close>.\<close>

definition nested_page :: "'a \<Rightarrow> 'a graph_list" where
  "nested_page x = zero_graph_list\<lparr>gl_value := [Some x]\<rparr>"

lemma nested_users: "dec_users_list zero_graph_list nested_json = (nested_page (zero_user\<lparr>usr_id := ''h''\<rparr>), None)"
  by code_simp

lemma nested_groups: "dec_groups_list zero_graph_list nested_json = (nested_page (zero_group\<lparr>grp_id := ''h''\<rparr>), None)"
  by code_simp

lemma nested_principals: "dec_service_principals_list zero_graph_list nested_json = (nested_page (zero_service_principal\<lparr>spn_id := ''h''\<rparr>), None)"
  by code_simp

lemma nested_members: "dec_membership_list zero_graph_list nested_json = (nested_page (zero_membership\<lparr>mem_id := ''h'', mem_type := odata_type_group\<rparr>), None)"
  by code_simp

lemmas nested_pages = nested_users nested_groups nested_principals nested_members

lemma nested_expected:
  assumes "dec zero_graph_list nested_json = (nested_page x, None)" and "url_parse u = Inr (graph_address p q)"
  shows "expected_answer sync_env sync_site ''t'' u (Some dec) zero_graph_list = (None, nested_page x)"
  using json_expected [where dec = dec, OF assms(2) nested_ok assms(1)] by (simp add: sync_env_def sync_site_def)

lemma nested_query:
  assumes "dec zero_graph_list nested_json = (nested_page x, None)" and "url_parse u = Inr (graph_address p q)" and "cache_agrees sync_site w"
  shows "\<exists>w'. query sync_env graph_read_scopes ''GET'' u NoBody (Some dec) zero_graph_list w = ((None, nested_page x), w') \<and>
    cache_agrees sync_site w'"
  using query_answered [OF sync_env_stable assms(3), of graph_read_scopes u "Some dec" zero_graph_list]
  unfolding nested_expected [where dec = dec, OF assms(1,2)] .

section \<open>Turns of a run\<close>

definition at_turn :: "action list \<Rightarrow> sync_store \<Rightarrow> builders machine \<Rightarrow> bool" where
  "at_turn s sto m \<longleftrightarrow> sync_reachable sync_env plain_conn demo_srv all_types m \<and> stacked m s \<and> mac_store m = sto \<and>
     mac_warnings m = [] \<and> cache_agrees sync_site (mac_world m)"

lemma at_turn_next:
  assumes "at_turn (a # s) sto m"
    and "sync_turn sync_env plain_conn demo_srv all_types (mac_state m) a = Some act" and "act m = (Ok (), m')"
    and "stacked m' s'" and "mac_store m' = sto'" and "mac_warnings m' = mac_warnings m" and "cache_agrees sync_site (mac_world m')"
  shows "at_turn s' sto' m'"
proof -
  have "sts_current (mac_state m) = Some a" using assms(1) top_current [of "mac_state m" a s] by (simp add: at_turn_def stacked_def)
  then have "sync_loop sync_env plain_conn demo_srv all_types m = Some (Ok (), m')"
    using assms(1-3) by (simp add: sync_loop_def at_turn_def)
  with assms show ?thesis by (auto simp: at_turn_def intro: sync_reachable.turn)
qed

lemma resources_turn:
  assumes m: "at_turn (a # s) sto m" and a: "act_op a = SyncResourcesOp" "act_resource_type_id a \<noteq> []"
    and call: "\<exists>w'. serve_resources sync_env plain_conn demo_srv (act_resource_type_id a) (parent_of a) (act_page_token a)
      (mac_world m) = (Ok (rs, []), w') \<and> cache_agrees sync_site w'"
    and loop: "\<And>v :: builders machine. mac_store v = sto \<Longrightarrow> new_resources_loop [] rs v = (Ok rs, v)"
  shows "\<exists>m'. at_turn s (sto\<lparr>sto_resources := put_entries res_id (sto_resources sto) rs\<rparr>) m'"
proof -
  obtain w' where w': "serve_resources sync_env plain_conn demo_srv (act_resource_type_id a) (parent_of a) (act_page_token a)
      (mac_world m) = (Ok (rs, []), w')" "cache_agrees sync_site w'" using call by blast
  have st: "stacked (m\<lparr>mac_world := w'\<rparr>) (a # s)" "mac_store m = sto" using m by (simp_all add: at_turn_def stacked_def)
  obtain m1 where m1: "go_on [] (m\<lparr>mac_world := w'\<rparr>) = (Ok (), m1)" "stacked m1 s" "same_rest (m\<lparr>mac_world := w'\<rparr>) m1"
    using go_on_stack [OF st(1), of "[]"] by (auto simp: moved_def)
  have s1: "mac_store m1 = sto" using m1(3) st(2) by (simp add: same_rest_def)
  let ?m' = "m1\<lparr>mac_store := sto\<lparr>sto_resources := put_entries res_id (sto_resources sto) rs\<rparr>\<rparr>"
  have "handle_error False (sync_resources sync_env plain_conn demo_srv a) m = (Ok (), ?m')"
    using w'(1) m1(1) a(2) loop [OF s1] s1
    by (simp add: handle_error_def sync_resources_def sync_resources_page_def connector_call_def bind_io_def with_store_def)
  from at_turn_next [where act = "handle_error False (sync_resources sync_env plain_conn demo_srv a)", OF m _ this] m1(2,3) w'(2) a(1) show ?thesis
    by (intro exI) (simp add: sync_turn_def same_rest_def stacked_def)
qed

lemma root_turn:
  assumes m: "at_turn (op_action p # s) sto m" and p: "p \<in> {SyncEntitlementsOp, SyncGrantsOp}"
    and types: "\<forall>r\<in>set (sto_resources sto). rid_type (res_id r) \<in> rty_id ` set (sto_resource_types sto)"
  shows "\<exists>m'. at_turn (pushed p sto (sto_resources sto) @ s) sto m'"
proof -
  have st: "stacked m (op_action p # s)" "mac_store m = sto" using m by (simp_all add: at_turn_def)
  obtain m' where m': "push_all_resources p m = (Ok (), m')" "same_rest m m'" "stacked m' (pushed p sto (sto_resources sto) @ s)"
    using push_all_resources_stack [OF st(1), of p] types unfolding st(2) by (elim meta_impE) auto
  have root: "is_root (op_action p)" by (simp add: is_root_def)
  obtain act where act: "sync_turn sync_env plain_conn demo_srv all_types (mac_state m) (op_action p) = Some act" "act m = (Ok (), m')"
    using p m'(1) root by (auto simp: sync_turn_def sync_entitlements_def sync_entitlements_for_resource_def sync_grants_def sync_grants_for_resource_def handle_error_def)
  from at_turn_next [OF m act m'(3)] m'(2) m show ?thesis by (auto simp: same_rest_def at_turn_def)
qed

lemma entitlements_turn:
  assumes m: "at_turn (a # s) sto m" and a: "act_op a = SyncEntitlementsOp" "\<not> is_root a"
    and r: "get_resource sto (target_of a) = Inr r"
    and call: "\<And>w :: builders. serve_entitlements demo_srv r (act_page_token a) w = (Ok (es, []), w)"
  shows "\<exists>m'. at_turn s (sto\<lparr>sto_entitlements := put_entries ent_id (sto_entitlements sto) es\<rparr>) m'"
proof -
  let ?sto = "sto\<lparr>sto_entitlements := put_entries ent_id (sto_entitlements sto) es\<rparr>"
  have st: "stacked (m\<lparr>mac_store := ?sto\<rparr>) (a # s)" "mac_store m = sto" using m by (simp_all add: at_turn_def stacked_def)
  obtain m' where m': "go_on [] (m\<lparr>mac_store := ?sto\<rparr>) = (Ok (), m')" "stacked m' s" "same_rest (m\<lparr>mac_store := ?sto\<rparr>) m'"
    using go_on_stack [OF st(1), of "[]"] by (auto simp: moved_def)
  have "handle_error True (sync_entitlements demo_srv a) m = (Ok (), m')"
    using m'(1) a(2) r call st(2)
    by (simp add: handle_error_def sync_entitlements_def sync_entitlements_for_resource_def stored_resource_def connector_call_def bind_io_def with_store_def)
  from at_turn_next [where act = "handle_error True (sync_entitlements demo_srv a)", OF m _ this m'(2)] m'(3) m a(1) show ?thesis
    by (intro exI [of _ m']) (simp add: sync_turn_def same_rest_def at_turn_def)
qed

lemma grants_turn:
  assumes m: "at_turn (a # s) sto m" and a: "act_op a = SyncGrantsOp" "\<not> is_root a"
    and r: "get_resource sto (target_of a) = Inr r"
    and call: "\<exists>w'. serve_grants sync_env plain_conn demo_srv r (act_page_token a) (mac_world m) = (Ok (gs, t), w') \<and> cache_agrees sync_site w'"
  shows "\<exists>m'. at_turn (moved t (a # s)) (sto\<lparr>sto_grants := put_entries grant_id (sto_grants sto) gs\<rparr>) m'"
proof -
  obtain w' where w': "serve_grants sync_env plain_conn demo_srv r (act_page_token a) (mac_world m) = (Ok (gs, t), w')"
    "cache_agrees sync_site w'" using call by blast
  let ?sto = "sto\<lparr>sto_grants := put_entries grant_id (sto_grants sto) gs\<rparr>"
  let ?st = "if list_ex is_expandable gs then (mac_state m)\<lparr>sts_needs_expansion := True\<rparr> else mac_state m"
  let ?m1 = "m\<lparr>mac_world := w', mac_state := ?st, mac_store := ?sto\<rparr>"
  have "stacked m (a # s)" "mac_store m = sto" using m by (simp_all add: at_turn_def)
  then have st: "stacked ?m1 (a # s)" "mac_store m = sto"
    by (cases "sts_current (mac_state m)"; simp add: stacked_def state_ok_def stack_of_def)+
  obtain m' where m': "go_on t ?m1 = (Ok (), m')" "stacked m' (moved t (a # s))" "same_rest ?m1 m'"
    using go_on_stack [OF st(1), of t] by (elim exE conjE) (rule that)
  have "handle_error True (sync_grants sync_env plain_conn demo_srv a) m = (Ok (), m')"
    using m'(1) a(2) r w'(1) st(2)
    by (cases "list_ex is_expandable gs")
      (simp_all add: handle_error_def sync_grants_def sync_grants_for_resource_def stored_resource_def connector_call_def bind_io_def with_store_def with_state_def)
  from at_turn_next [where act = "handle_error True (sync_grants sync_env plain_conn demo_srv a)", OF m _ this m'(2)] m'(3) m a(1) w'(2) show ?thesis
    by (intro exI [of _ m']) (simp add: sync_turn_def same_rest_def at_turn_def)
qed

section \<open>The calls of the run\<close>

definition user_h :: resource where
  "user_h = the_ok (user_resource sync_env (zero_user\<lparr>usr_id := ''h''\<rparr>) None [])"

definition group_h :: resource where
  "group_h = the_ok (group_resource (zero_group\<lparr>grp_id := ''h''\<rparr>) None)"

definition identity_h :: resource where
  "identity_h = the_ok (managed_identity_resource (zero_service_principal\<lparr>spn_id := ''h''\<rparr>) None)"

lemma resources_h:
  "user_resource sync_env (zero_user\<lparr>usr_id := ''h''\<rparr>) None [] = Ok user_h"
  "group_resource (zero_group\<lparr>grp_id := ''h''\<rparr>) None = Ok group_h"
  "managed_identity_resource (zero_service_principal\<lparr>spn_id := ''h''\<rparr>) None = Ok identity_h"
proof -
  have "is_Ok (user_resource sync_env (zero_user\<lparr>usr_id := ''h''\<rparr>) None [])" by code_simp
  then show "user_resource sync_env (zero_user\<lparr>usr_id := ''h''\<rparr>) None [] = Ok user_h"
    unfolding user_h_def by (rule is_Ok_the_ok)
  have "is_Ok (group_resource (zero_group\<lparr>grp_id := ''h''\<rparr>) None)" by code_simp
  then show "group_resource (zero_group\<lparr>grp_id := ''h''\<rparr>) None = Ok group_h"
    unfolding group_h_def by (rule is_Ok_the_ok)
  have "is_Ok (managed_identity_resource (zero_service_principal\<lparr>spn_id := ''h''\<rparr>) None)" by code_simp
  then show "managed_identity_resource (zero_service_principal\<lparr>spn_id := ''h''\<rparr>) None = Ok identity_h"
    unfolding identity_h_def by (rule is_Ok_the_ok)
qed

lemma nested_page_simps [simp]: "gl_value (nested_page x) = [Some x]" "gl_next_link (nested_page x) = []"
  by (simp_all add: nested_page_def zero_graph_list_def)

lemma fresh_next [simp]: "valid_utf8 ty \<Longrightarrow> fst (bag_next_token [] (fresh_bag ty)) = []"
  by (simp add: fresh_bag_def empty_bag_def bag_push_def states_of_def bag_next_token_def bag_pop_def bag_marshal_def Let_def)

lemma nested_list:
  assumes "dec zero_graph_list nested_json = (nested_page x, None)" and "url_parse u = Inr (graph_address p q)" and "cache_agrees sync_site w"
  shows "\<exists>w'. query_list sync_env u dec w = (Ok (nested_page x), w') \<and> cache_agrees sync_site w'"
  using nested_query [where dec = dec, OF assms]
  by (elim exE conjE) (intro exI conjI, simp add: query_list_def query_value_def, assumption)

definition lists :: "string \<Rightarrow> resource list \<Rightarrow> bool" where
  "lists ty rs \<longleftrightarrow> (\<forall>w :: builders. cache_agrees sync_site w \<longrightarrow>
     (\<exists>w'. serve_resources sync_env plain_conn demo_srv ty None [] w = (Ok (rs, []), w') \<and> cache_agrees sync_site w'))"

lemma listsI:
  assumes "demo_srv ty = Some b"
    and "\<And>w :: builders. cache_agrees sync_site w \<Longrightarrow>
      \<exists>w'. builder_list sync_env plain_conn b None [] w = (Ok (rs, []), w') \<and> cache_agrees sync_site w'"
  shows "lists ty rs"
  unfolding lists_def
proof (intro allI impI)
  fix w :: builders assume "cache_agrees sync_site w"
  from assms(2) [OF this] obtain w' where
    w': "builder_list sync_env plain_conn b None [] w = (Ok (rs, []), w')" "cache_agrees sync_site w'" by blast
  then show "\<exists>w'. serve_resources sync_env plain_conn demo_srv ty None [] w = (Ok (rs, []), w') \<and> cache_agrees sync_site w'"
    using assms(1) by (intro exI [of _ w']) (simp add: serve_resources_def serve_page_Ok)
qed

lemma run_graph_lists:
  "lists ''user'' [user_h]" "lists ''group'' [group_h]" "lists ''managed_identity'' [identity_h]" "lists ''enterprise_application'' []"
proof -
  have ty: "rty_id user_resource_type = ''user''" "rty_id group_resource_type = ''group''" by code_simp+
  show "lists ''user'' [user_h]"
  proof (rule listsI [of _ UserBuilder])
    fix w :: builders assume "cache_agrees sync_site w"
    from nested_list [where dec = dec_users_list, OF nested_pages(1) list_addresses(1) [of set_user_keys] this] obtain w' where
      "query_list sync_env (build_url ''users'' set_user_keys) dec_users_list w =
        (Ok (nested_page (zero_user\<lparr>usr_id := ''h''\<rparr>)), w')" "cache_agrees sync_site w'" by (elim exE conjE) (rule that)
    then show "\<exists>w'. builder_list sync_env plain_conn UserBuilder None [] w = (Ok ([user_h], []), w') \<and> cache_agrees sync_site w'"
      by (intro exI [of _ w']) (simp add: users_list_def fresh_bag_facts(3) bind_io_def lift_io_def return_io_def ty
          plain_conn_def resources_h convert_all_def)
  qed (simp add: demo_srv_def)
  show "lists ''group'' [group_h]"
  proof (rule listsI [of _ GroupBuilder])
    fix w :: builders assume "cache_agrees sync_site w"
    from nested_list [where dec = dec_groups_list, OF nested_pages(2) list_addresses(2) [of "skip_ad_filter plain_conn set_group_keys"] this] obtain w' where
      "query_list sync_env (build_url ''groups'' (skip_ad_filter plain_conn set_group_keys)) dec_groups_list w =
        (Ok (nested_page (zero_group\<lparr>grp_id := ''h''\<rparr>)), w')" "cache_agrees sync_site w'" by (elim exE conjE) (rule that)
    then show "\<exists>w'. builder_list sync_env plain_conn GroupBuilder None [] w = (Ok ([group_h], []), w') \<and> cache_agrees sync_site w'"
      by (intro exI [of _ w']) (simp add: groups_list_def fresh_bag_facts(3) bind_io_def lift_io_def return_io_def ty resources_h convert_all_def)
  qed (simp add: demo_srv_def)
  show "lists ''managed_identity'' [identity_h]"
  proof (rule listsI [of _ ManagedIdentityBuilder])
    fix w :: builders assume "cache_agrees sync_site w"
    from nested_list [where dec = dec_service_principals_list, OF nested_pages(3) list_addresses(3) [of set_managed_identity_keys] this] obtain w' where
      "query_list sync_env (build_url ''servicePrincipals'' set_managed_identity_keys) dec_service_principals_list w =
        (Ok (nested_page (zero_service_principal\<lparr>spn_id := ''h''\<rparr>)), w')" "cache_agrees sync_site w'" by (elim exE conjE) (rule that)
    then show "\<exists>w'. builder_list sync_env plain_conn ManagedIdentityBuilder None [] w = (Ok ([identity_h], []), w') \<and> cache_agrees sync_site w'"
      by (intro exI [of _ w']) (simp add: managed_identities_list_def fresh_bag_facts(3) bind_io_def lift_io_def return_io_def ty
          resources_h convert_all_def)
  qed (simp add: demo_srv_def)
  show "lists ''enterprise_application'' []"
  proof (rule listsI [of _ EnterpriseApplicationsBuilder])
    fix w :: builders assume "cache_agrees sync_site w"
    from nested_list [where dec = dec_service_principals_list, OF nested_pages(3) enterprise_apps_address this] obtain w' where
      "query_list sync_env enterprise_apps_url dec_service_principals_list w =
        (Ok (nested_page (zero_service_principal\<lparr>spn_id := ''h''\<rparr>)), w')" "cache_agrees sync_site w'" by (elim exE conjE) (rule that)
    then show "\<exists>w'. builder_list sync_env plain_conn EnterpriseApplicationsBuilder None [] w = (Ok ([], []), w') \<and> cache_agrees sync_site w'"
      by (intro exI [of _ w']) (simp add: enterprise_apps_list_def fresh_bag_facts(3) bind_io_def lift_io_def return_io_def ty
          plain_conn_def zero_service_principal_def convert_all_def)
  qed (simp add: demo_srv_def)
qed

lemma run_arm_lists:
  "lists ''subscription'' []" "lists ''tenant'' []" "lists ''resource_group'' []" "lists ''role'' []"
proof -
  let ?none = "\<lparr>page_value = [], page_next = None\<rparr>"
  have empty: "\<exists>w'. arm_collect sync_env l (\<lambda>_ _. Inr ?none) g w = (Ok [], w') \<and> cache_agrees sync_site w'"
    if "cache_agrees sync_site w" for l and g :: "'a \<Rightarrow> resource outcome" and w :: builders
  proof -
    have "arm_collect sync_env l (\<lambda>_ _. Inr ?none) g w = (Ok [], log_events (page_events l None [?none :: 'a arm_page]) w)"
      by (rule arm_collect_complete) (simp_all add: page_more_def sync_env_def answering_def quiet_env_def convert_all_def)
    with that show ?thesis by (simp add: cache_agrees_def log_events_def)
  qed
  have none: "env_subscriptions sync_env = (\<lambda>_ _. Inr ?none)" "env_tenants sync_env = (\<lambda>_ _. Inr ?none)"
    by (simp_all add: sync_env_def answering_def quiet_env_def)
  have collected: "\<exists>w'. bind_io (arm_collect sync_env l (\<lambda>_ _. Inr ?none) g) (\<lambda>rv. return_io (rv, [])) w = (Ok ([], []), w') \<and> cache_agrees sync_site w'"
    if "cache_agrees sync_site w" for l and g :: "'a \<Rightarrow> resource outcome" and w :: builders
    using empty [OF that, of l g] by (elim exE conjE) (intro exI conjI, simp add: bind_io_def return_io_def, assumption)
  show "lists ''subscription'' []"
    by (rule listsI [of _ SubscriptionBuilder]) (simp_all add: demo_srv_def subscriptions_list_def none collected)
  show "lists ''tenant'' []"
    by (rule listsI [of _ TenantBuilder]) (simp_all add: demo_srv_def tenants_list_def none collected)
  show "lists ''resource_group'' []"
    by (rule listsI [of _ ResourceGroupBuilder]) (simp_all add: demo_srv_def resource_groups_list_def return_io_def)
  show "lists ''role'' []"
    by (rule listsI [of _ RoleBuilder]) (simp_all add: demo_srv_def roles_list_def return_io_def)
qed

subsection \<open>The grants of the group\<close>

definition member_h :: membership where
  "member_h = zero_membership\<lparr>mem_id := ''h'', mem_type := odata_type_group\<rparr>"

definition grant_h :: "string \<Rightarrow> grant" where
  "grant_h relation = the (group_grant group_h relation member_h)"

lemma group_h_id: "res_id group_h = \<lparr>rid_type = ''group'', rid_resource = ''h''\<rparr>"
  by code_simp

lemma grant_h: "group_grant group_h relation member_h = Some (grant_h relation)"
  by (simp add: grant_h_def group_grant_def member_principal_def member_h_def Let_def)

lemma relation_addresses:
  "url_parse (members_url plain_conn group_h) = Inr (graph_address ''beta/groups/h/members'' (skip_ad_filter plain_conn set_member_query))"
  "url_parse (owners_url group_h) = Inr (graph_address ''beta/groups/h/owners'' (values_set ''$select'' (join_with '','' [''id'']) []))"
  using graph_url_plain [of beta_version "[''groups'', ''h'', ''members'']" "skip_ad_filter plain_conn set_member_query"]
    graph_url_plain [of beta_version "[''groups'', ''h'', ''owners'']" "values_set ''$select'' (join_with '','' [''id'']) []"]
  by (simp_all add: members_url_def owners_url_def build_beta_url_def plain_segment_def beta_version_def group_h_id)

lemma relation_page:
  assumes "cache_agrees sync_site w" and "bag_live b" and "bag_stack b = group_page relation u # rest"
    and "url_parse u = Inr (graph_address p q)"
  shows "\<exists>b' w'. groups_grants sync_env plain_conn group_h (bag_marshal b) w =
      (Ok ([grant_h relation], if rest = [] then [] else bag_marshal b'), w') \<and> cache_agrees sync_site w' \<and>
    (rest \<noteq> [] \<longrightarrow> bag_live b' \<and> bag_stack b' = rest)"
proof -
  let ?p = "nested_page member_h"
  have nn: "no_nulls ?p" by (simp add: no_nulls_def)
  have tr: "trusted_next_link ?p = []" by (simp add: trusted_next_link_def)
  have pg: "page_grants group_h relation ?p = [grant_h relation]"
    by (simp add: page_grants_code grant_h List.map_filter_simps)
  have ans: "expected_answer sync_env sync_site ''t'' u (Some dec_membership_list) zero_graph_list = (None, ?p)"
    unfolding member_h_def by (rule nested_expected [where dec = dec_membership_list, OF nested_pages(4) assms(4)])
  obtain b' w' where st: "groups_step (sync_env, plain_conn, group_h) b w = (Ok ([grant_h relation], next_state b'), w')"
      "cache_agrees sync_site w'" "bag_stack b' = rest" "rest \<noteq> [] \<longrightarrow> bag_live b' \<and> next_state b' = Some b'" "rest = [] \<longrightarrow> next_state b' = None"
    using groups_step_page [OF sync_env_stable assms(1,2,3) ans nn, of plain_conn group_h] unfolding tr pg by auto
  have "groups_grants sync_env plain_conn group_h (bag_marshal b) w = (Ok ([grant_h relation], token_of bag_marshal (next_state b')), w')"
    using group_pages.call_token [OF bag_token.dec_enc [OF assms(2)] assms(2), of "(sync_env, plain_conn, group_h)" w] st(1)
    by (simp add: groups_call_def bind_io_def return_io_def)
  with st(2-5) show ?thesis
    by (intro exI [of _ b'] exI [of _ w']) (cases "rest = []"; simp add: token_of_def)
qed

lemma served_group_grants:
  "serve_grants sync_env plain_conn demo_srv group_h token w = (Ok (gs, t), w') \<longleftrightarrow>
    groups_grants sync_env plain_conn group_h token w = (Ok (gs, t), w') \<and> \<not> (token \<noteq> [] \<and> token = t)"
  by (simp add: serve_grants_def serve_page_Ok group_h_id demo_srv_def)

lemma members_page:
  assumes "cache_agrees sync_site (w :: builders)"
  shows "\<exists>b' w'. serve_grants sync_env plain_conn demo_srv group_h [] w = (Ok ([grant_h type_members], bag_marshal b'), w') \<and>
    cache_agrees sync_site w' \<and> bag_live b' \<and> bag_stack b' = [group_page type_owners (owners_url group_h)]"
  using relation_page [OF assms groups_fresh(1,2) relation_addresses(1)]
  by (elim exE conjE) (intro exI conjI, simp add: served_group_grants groups_call_fresh, assumption, simp_all)

lemma owners_page:
  assumes "cache_agrees sync_site (w :: builders)" and "bag_live b" and "bag_stack b = [group_page type_owners (owners_url group_h)]"
  shows "\<exists>w'. serve_grants sync_env plain_conn demo_srv group_h (bag_marshal b) w = (Ok ([grant_h type_owners], []), w') \<and>
    cache_agrees sync_site w'"
  using relation_page [OF assms relation_addresses(2)]
  by (elim exE conjE) (intro exI conjI, simp add: served_group_grants bag_token.enc_nonempty [OF assms(2)], assumption)

section \<open>The run\<close>

definition run_store :: "resource list \<Rightarrow> entitlement list \<Rightarrow> grant list \<Rightarrow> sync_store" where
  "run_store rs es gs = \<lparr>sto_resource_types = all_types, sto_resources = rs, sto_entitlements = es, sto_grants = gs\<rparr>"

definition list_action :: "string \<Rightarrow> action" where
  "list_action ty = (op_action SyncResourcesOp)\<lparr>act_resource_type_id := ty\<rparr>"

definition plan_rest :: "action list" where
  "plan_rest = map op_action [SyncEntitlementsOp, SyncGrantsOp, SyncGrantExpansionOp]"

lemma list_turn:
  assumes m: "at_turn (list_action ty # s) (run_store rs [] []) m" and "ty \<noteq> []" and l: "lists ty new"
    and new: "new = [] \<or> new = [r] \<and> get_resource (run_store rs [] []) (res_id r) = Inl no_rows \<and>
      validate_resource_traits (get_resource_type (run_store rs [] [])) r = None \<and> get_sub_resources r = []"
  shows "\<exists>m'. at_turn s (run_store (put_entries res_id rs new) [] []) m'"
proof -
  have a: "act_op (list_action ty) = SyncResourcesOp" "act_resource_type_id (list_action ty) \<noteq> []"
    "parent_of (list_action ty) = None" "act_page_token (list_action ty) = []" "act_resource_type_id (list_action ty) = ty"
    using assms(2) by (simp_all add: list_action_def op_action_def parent_of_def)
  have "new_resources_loop [] new v = (Ok new, v)" if "mac_store v = run_store rs [] []" for v :: "builders machine"
    using new that by (auto simp: return_io_def bind_io_def push_actions_def with_state_def)
  moreover have "\<exists>w'. serve_resources sync_env plain_conn demo_srv ty None [] (mac_world m) = (Ok (new, []), w') \<and> cache_agrees sync_site w'"
    using l m unfolding lists_def at_turn_def by blast
  ultimately show ?thesis using resources_turn [OF m a(1,2), of new] a(3-5) by (simp add: run_store_def)
qed

lemma first_turns:
  "\<exists>m. at_turn (map list_action [''role'', ''enterprise_application'', ''managed_identity'', ''resource_group'', ''tenant'',
    ''subscription'', ''group'', ''user''] @ plan_rest) (run_store [] [] []) m"
proof -
  let ?turn = "\<lambda>m. case sync_loop sync_env plain_conn demo_srv all_types m of Some (Ok u, m') \<Rightarrow> Some m' | _ \<Rightarrow> None"
  let ?s = "map list_action [''role'', ''enterprise_application'', ''managed_identity'', ''resource_group'', ''tenant'',
    ''subscription'', ''group'', ''user''] @ plan_rest"
  have "case Option.bind (?turn (start_machine start_world)) (\<lambda>m. Option.bind (?turn m) ?turn) of
      Some m \<Rightarrow> state_ok (mac_state m) \<and> stack_of (mac_state m) = ?s \<and> mac_store m = run_store [] [] [] \<and>
        mac_warnings m = [] \<and> http_cache (mac_world m) = []
    | None \<Rightarrow> False"
    by code_simp
  then obtain m1 m2 m3 where m: "?turn (start_machine start_world) = Some m1" "?turn m1 = Some m2" "?turn m2 = Some m3"
    "state_ok (mac_state m3)" "stack_of (mac_state m3) = ?s" "mac_store m3 = run_store [] [] []"
    "mac_warnings m3 = []" "http_cache (mac_world m3) = []"
    by (auto simp: bind_eq_Some_conv split: option.splits)
  have turn: "sync_reachable sync_env plain_conn demo_srv all_types v'"
    if "sync_reachable sync_env plain_conn demo_srv all_types v" "?turn v = Some v'" for v v' :: "builders machine"
    using that by (auto split: option.splits prod.splits outcome.splits intro: sync_reachable.turn)
  have "sync_reachable sync_env plain_conn demo_srv all_types m3"
    by (rule turn [OF turn [OF turn [OF sync_reachable.start m(1)] m(2)] m(3)])
  then show ?thesis
    using m(4-8) by (intro exI [of _ m3]) (simp add: at_turn_def stacked_def cache_agrees_def)
qed

lemma ids_h:
  "res_id user_h = \<lparr>rid_type = ''user'', rid_resource = ''h''\<rparr>"
  "res_id identity_h = \<lparr>rid_type = ''managed_identity'', rid_resource = ''h''\<rparr>"
  by code_simp+

lemma stored_types:
  "get_resource_type (run_store rs es gs) ''user'' = Inr user_resource_type"
  "get_resource_type (run_store rs es gs) ''group'' = Inr group_resource_type"
  "get_resource_type (run_store rs es gs) ''managed_identity'' = Inr managed_identity_resource_type"
  by (simp_all add: get_resource_type_def run_store_def all_types_def resource_syncers_def builder_type_defs resource_type_defs)

lemma traits_h:
  "annos_contains KUser (res_annotations user_h)" "annos_contains KGroup (res_annotations group_h)"
  "annos_contains KUser (res_annotations identity_h)"
  "get_sub_resources user_h = []" "get_sub_resources group_h = []" "get_sub_resources identity_h = []"
  by code_simp+

lemma new_resources:
  "get_resource (run_store [] [] []) (res_id identity_h) = Inl no_rows"
  "get_resource (run_store [identity_h] [] []) (res_id group_h) = Inl no_rows"
  "get_resource (run_store [identity_h, group_h] [] []) (res_id user_h) = Inl no_rows"
  "validate_resource_traits (get_resource_type (run_store rs es gs)) identity_h = None"
  "validate_resource_traits (get_resource_type (run_store rs es gs)) group_h = None"
  "validate_resource_traits (get_resource_type (run_store rs es gs)) user_h = None"
proof -
  show "get_resource (run_store [] [] []) (res_id identity_h) = Inl no_rows"
    "get_resource (run_store [identity_h] [] []) (res_id group_h) = Inl no_rows"
    "get_resource (run_store [identity_h, group_h] [] []) (res_id user_h) = Inl no_rows"
    by (simp_all add: get_resource_def run_store_def ids_h group_h_id)
  show "validate_resource_traits (get_resource_type (run_store rs es gs)) identity_h = None"
    "validate_resource_traits (get_resource_type (run_store rs es gs)) group_h = None"
    "validate_resource_traits (get_resource_type (run_store rs es gs)) user_h = None"
    using traits_h(1-3) by (simp_all add: validate_resource_traits_def ids_h group_h_id stored_types resource_type_defs trait_message_def)
qed

definition run_resources :: "resource list" where
  "run_resources = [identity_h, group_h, user_h]"

lemma run_put:
  "put_entries res_id [] [identity_h] = [identity_h]" "put_entries res_id [identity_h] [group_h] = [identity_h, group_h]"
  "put_entries res_id [identity_h, group_h] [user_h] = run_resources"
  by (simp_all add: put_entries_def put_entry_def ids_h group_h_id run_resources_def)

lemma resources_synced: "\<exists>m. at_turn plan_rest (run_store run_resources [] []) m"
proof -
  have none: "put_entries res_id rs [] = rs" for rs by (simp add: put_entries_def)
  obtain m where "at_turn (map list_action [''role'', ''enterprise_application'', ''managed_identity'', ''resource_group'', ''tenant'',
    ''subscription'', ''group'', ''user''] @ plan_rest) (run_store [] [] []) m" using first_turns by blast
  from list_turn [OF this [simplified] _ run_arm_lists(4)] obtain m where
    "at_turn (map list_action [''enterprise_application'', ''managed_identity'', ''resource_group'', ''tenant'',
    ''subscription'', ''group'', ''user''] @ plan_rest) (run_store [] [] []) m" by (auto simp: none)
  from list_turn [OF this [simplified] _ run_graph_lists(4)] obtain m where
    "at_turn (map list_action [''managed_identity'', ''resource_group'', ''tenant'', ''subscription'', ''group'', ''user''] @ plan_rest)
      (run_store [] [] []) m" by (auto simp: none)
  from list_turn [OF this [simplified] _ run_graph_lists(3), of identity_h] obtain m where
    "at_turn (map list_action [''resource_group'', ''tenant'', ''subscription'', ''group'', ''user''] @ plan_rest)
      (run_store [identity_h] [] []) m" by (auto simp: run_put new_resources traits_h)
  from list_turn [OF this [simplified] _ run_arm_lists(3)] obtain m where
    "at_turn (map list_action [''tenant'', ''subscription'', ''group'', ''user''] @ plan_rest) (run_store [identity_h] [] []) m"
    by (auto simp: none)
  from list_turn [OF this [simplified] _ run_arm_lists(2)] obtain m where
    "at_turn (map list_action [''subscription'', ''group'', ''user''] @ plan_rest) (run_store [identity_h] [] []) m"
    by (auto simp: none)
  from list_turn [OF this [simplified] _ run_arm_lists(1)] obtain m where
    "at_turn (map list_action [''group'', ''user''] @ plan_rest) (run_store [identity_h] [] []) m" by (auto simp: none)
  from list_turn [OF this [simplified] _ run_graph_lists(2), of group_h] obtain m where
    "at_turn (map list_action [''user''] @ plan_rest) (run_store [identity_h, group_h] [] []) m" by (auto simp: run_put new_resources traits_h)
  from list_turn [OF this [simplified] _ run_graph_lists(1), of user_h] show ?thesis by (auto simp: run_put new_resources traits_h)
qed

definition run_entitlements :: "entitlement list" where
  "run_entitlements = fst (the_ok (fst (groups_entitlements group_h [] start_world)))"

definition run_grants :: "grant list" where
  "run_grants = [grant_h type_members, grant_h type_owners]"

lemma run_pushed:
  "pushed p (run_store run_resources es gs) run_resources = [resource_action p user_h, resource_action p group_h]"
proof -
  have "annos_contains KSkip [SkipEntitlementsAndGrants]" by code_simp
  moreover have "\<not> annos_contains KSkip []" by code_simp
  ultimately show ?thesis
    by (simp add: pushed_def skips_def stored_types run_resources_def ids_h group_h_id should_skip_entitlements_and_grants_def
        resource_type_defs)
qed

lemma run_typed: "\<forall>r\<in>set run_resources. rid_type (res_id r) \<in> rty_id ` set all_types"
  by (simp add: run_resources_def ids_h group_h_id all_types_def resource_syncers_def builder_type_defs resource_type_defs)

lemma run_stored:
  "get_resource (run_store run_resources es gs) (res_id group_h) = Inr group_h"
  "get_resource (run_store run_resources es gs) (res_id user_h) = Inr user_h"
  by (simp_all add: get_resource_def run_store_def run_resources_def ids_h group_h_id)

lemma run_calls:
  fixes w :: builders
  shows "serve_entitlements demo_srv group_h [] w = (Ok (run_entitlements, []), w)"
    and "serve_entitlements demo_srv user_h [] w = (Ok ([], []), w)"
    and "serve_grants sync_env plain_conn demo_srv user_h [] w = (Ok ([], []), w)"
  by (simp_all add: serve_entitlements_def serve_grants_def serve_page_def group_h_id ids_h demo_srv_def run_entitlements_def
      groups_entitlements_def users_entitlements_def users_grants_def return_io_def)

lemma run_puts:
  "put_entries ent_id [] run_entitlements = run_entitlements" "put_entries ent_id xs [] = (xs :: entitlement list)"
  "put_entries grant_id [] [grant_h type_members] = [grant_h type_members]"
  "put_entries grant_id [grant_h type_members] [grant_h type_owners] = run_grants" "put_entries grant_id gs [] = (gs :: grant list)"
proof -
  have "grant_id (grant_h type_members) \<noteq> grant_id (grant_h type_owners)" by code_simp
  then show "put_entries grant_id [grant_h type_members] [grant_h type_owners] = run_grants"
    by (simp add: put_entries_def put_entry_def run_grants_def)
  have d: "distinct (map ent_id run_entitlements)" and "length run_entitlements = 2" by code_simp+
  then obtain x y where xy: "run_entitlements = [x, y]" by (auto simp: numeral_2_eq_2 length_Suc_conv)
  have "ent_id x \<noteq> ent_id y" using d unfolding xy by auto
  then show "put_entries ent_id [] run_entitlements = run_entitlements" unfolding xy by (simp add: put_entries_def put_entry_def)
qed (simp_all add: put_entries_def put_entry_def)

lemma not_root: "\<not> is_root (resource_action p group_h)" "\<not> is_root (resource_action p user_h)"
  "\<not> is_root ((resource_action p group_h)\<lparr>act_page_token := t\<rparr>)"
  by (simp_all add: is_root_def resource_action_def group_h_id ids_h)

lemma run_targets [simp]: "target_of ((resource_action p r)\<lparr>act_page_token := t\<rparr>) = res_id r"
  by (simp add: target_of_def resource_action_def)

lemma entitlements_synced:
  "\<exists>m. at_turn (map op_action [SyncGrantsOp, SyncGrantExpansionOp]) (run_store run_resources run_entitlements []) m"
proof -
  let ?rest = "map op_action [SyncGrantsOp, SyncGrantExpansionOp]"
  obtain m where "at_turn (op_action SyncEntitlementsOp # ?rest) (run_store run_resources [] []) m"
    using resources_synced by (auto simp: plan_rest_def)
  from root_turn [OF this] obtain m where
    m: "at_turn (resource_action SyncEntitlementsOp user_h # resource_action SyncEntitlementsOp group_h # ?rest) (run_store run_resources [] []) m"
    using run_typed run_pushed [of SyncEntitlementsOp "[]" "[]"] by (auto simp: run_store_def)
  from entitlements_turn [OF m _ not_root(2), of user_h "[]"] obtain m where
    m: "at_turn (resource_action SyncEntitlementsOp group_h # ?rest) (run_store run_resources [] []) m"
    using run_stored(2) [of "[]" "[]"] run_calls(2) by (auto simp: run_puts(2) run_store_def)
  from entitlements_turn [OF m _ not_root(1), of group_h run_entitlements] show ?thesis
    using run_stored(1) [of "[]" "[]"] run_calls(1) run_puts(1) by (auto simp: run_store_def)
qed

lemma grants_synced:
  "\<exists>m. at_turn [op_action SyncGrantExpansionOp] (run_store run_resources run_entitlements run_grants) m"
proof -
  let ?x = "op_action SyncGrantExpansionOp" and ?a = "resource_action SyncGrantsOp group_h" and ?u = "resource_action SyncGrantsOp user_h"
  obtain m where "at_turn (op_action SyncGrantsOp # [?x]) (run_store run_resources run_entitlements []) m"
    using entitlements_synced by auto
  from root_turn [OF this] obtain m where m: "at_turn (?u # [?a, ?x]) (run_store run_resources run_entitlements []) m"
    using run_typed run_pushed [of SyncGrantsOp run_entitlements "[]"] by (auto simp: run_store_def)
  then have "cache_agrees sync_site (mac_world m)" by (simp add: at_turn_def)
  with grants_turn [OF m _ not_root(2), of user_h "[]" "[]"] obtain m where
    m: "at_turn (?a # [?x]) (run_store run_resources run_entitlements []) m"
    using run_stored(2) [of run_entitlements "[]"] run_calls(3) run_puts(5) by (auto simp: run_store_def moved_def)
  have "cache_agrees sync_site (mac_world m)" using m by (simp add: at_turn_def)
  from members_page [OF this] obtain b w' where b: "serve_grants sync_env plain_conn demo_srv group_h [] (mac_world m) =
      (Ok ([grant_h type_members], bag_marshal b), w')" "cache_agrees sync_site w'"
    "bag_live b" "bag_stack b = [group_page type_owners (owners_url group_h)]" by (elim exE conjE) (rule that)
  from grants_turn [OF m _ not_root(1), of group_h "[grant_h type_members]" "bag_marshal b"] obtain m where
    m: "at_turn (?a\<lparr>act_page_token := bag_marshal b\<rparr> # [?x]) (run_store run_resources run_entitlements [grant_h type_members]) m"
    using run_stored(1) [of run_entitlements "[]"] b run_puts(3) bag_token.enc_nonempty [OF b(3)]
    by (auto simp: run_store_def moved_def)
  then have "cache_agrees sync_site (mac_world m)" by (simp add: at_turn_def)
  from owners_page [OF this b(3,4)] grants_turn [OF m _ not_root(3), of group_h "[grant_h type_owners]" "[]"] show ?thesis
    using run_stored(1) [of run_entitlements "[grant_h type_members]"] run_puts(4)
    by (auto simp: run_store_def moved_def)
qed

end
