(* ===== verification/Sync_Laws.thy ===== *)
theory Sync_Laws
  imports Sync_Run
begin

text \<open>
  What a whole sync promises: a store that hangs together at every turn, and an expansion of
  grants that starts and loses no group.
\<close>

section \<open>The store hangs together\<close>

lemma get_resource_stored: "i \<in> res_id ` set (sto_resources sto) \<Longrightarrow> \<exists>r. get_resource sto i = Inr r"
  by (auto simp: get_resource_def find_None_iff split: option.splits)

text \<open>The id of an entitlement tells its resource.\<close>

lemma entitlement_id_resource:
  assumes "new_entitlement_id r x = new_entitlement_id r' x'"
    and "x \<in> permissions (rid_type (res_id r))" and "x' \<in> permissions (rid_type (res_id r'))"
  shows "res_id r = res_id r'"
proof -
  have "rid_type (res_id r) \<in> {''group'', ''subscription'', ''role''}" "rid_type (res_id r') \<in> {''group'', ''subscription'', ''role''}"
    using assms(2,3) by (auto simp: permissions_def split: if_splits)
  with assms(1) have ty: "rid_type (res_id r) = rid_type (res_id r')" by (auto simp: new_entitlement_id_def)
  with assms(1) have eq: "rev x @ '':'' @ rev (rid_resource (res_id r)) = rev x' @ '':'' @ rev (rid_resource (res_id r'))"
    by (simp add: new_entitlement_id_def flip: rev_append) (metis append.assoc append_Cons append_Nil rev_append rev_singleton_conv rev_rev_ident)
  moreover have "x \<in> {''owners'', ''members'', ''assigned''}" "x' \<in> {''owners'', ''members'', ''assigned''}"
    using assms(2,3) by (auto simp: permissions_def type_constants split: if_splits)
  ultimately have "rid_resource (res_id r) = rid_resource (res_id r')" by auto
  with ty show ?thesis by simp
qed

lemma entitlement_of_resource:
  assumes "entitlement_formed e" and "ent_id e = new_entitlement_id r x" and "x \<in> permissions (rid_type (res_id r))"
  shows "res_id (ent_resource e) = res_id r"
proof -
  have "\<not> (\<exists>y. ent_id e = ''enterprise_application:'' @ y)"
    using assms(2,3) by (auto simp: permissions_def new_entitlement_id_def split: if_splits)
  then obtain y where "y \<in> permissions (rid_type (res_id (ent_resource e)))" "ent_id e = new_entitlement_id (ent_resource e) y"
    using assms(1) unfolding entitlement_formed_def by blast
  with entitlement_id_resource [of "ent_resource e" y r x] assms(2,3) show ?thesis by simp
qed

text \<open>
  C5: the store of a sync is consistent at every moment, whatever the services answer and
  however the pages fall. Every stored resource is of a type the connector serves, and a
  stored application is in the builder's cache, so that its entitlements and grants can be
  read. A stored grant (of anything but an application) is of a resource that is stored,
  of an entitlement that is stored and is that resource's own, and its principal is of a
  type that the connector serves.
\<close>

theorem sync_store_consistent:
  fixes m :: "'z builders_scheme machine"
  assumes "connector_server = Inr srv" and "list_resource_types srv types"
    and "sync_reachable env conn srv types m" and "sto = mac_store m"
  shows "(\<forall>r\<in>set (sto_resources sto). rid_type (res_id r) \<in> dom srv \<and>
      (rid_type (res_id r) = ''enterprise_application'' \<longrightarrow> app_cache (mac_world m) (rid_resource (res_id r)) \<noteq> None)) \<and>
    (\<forall>g\<in>set (sto_grants sto). of_application g \<or>
      (\<exists>r e. get_resource sto (res_id (ent_resource (grant_entitlement g))) = Inr r \<and>
         get_entitlement sto (ent_id (grant_entitlement g)) = Inr e \<and> res_id (ent_resource e) = res_id r \<and>
         rid_type (res_id (grant_principal g)) \<in> dom srv))"
proof (intro conjI ballI)
  have fits: "sync_fits srv m" by (rule reachable_fits [OF assms(1-3)])
  then have store: "store_fits srv sto" and apps: "apps_cached (mac_world m) (sto_resources sto)"
    by (simp_all add: sync_fits_def assms(4))
  fix r assume r: "r \<in> set (sto_resources sto)"
  from store_fitsD(2) [OF store this] obtain t where t: "t \<in> set (sto_resource_types sto)" "rty_id t = rid_type (res_id r)"
    by blast
  with store_fitsD(1) [OF store t(1)] show "rid_type (res_id r) \<in> dom srv" by auto
  show "rid_type (res_id r) = ''enterprise_application'' \<longrightarrow> app_cache (mac_world m) (rid_resource (res_id r)) \<noteq> None"
    using apps r unfolding apps_cached_def by blast
next
  have store: "store_fits srv sto" using reachable_fits [OF assms(1-3)] by (simp add: sync_fits_def assms(4))
  fix g assume g: "g \<in> set (sto_grants sto)"
  let ?e = "grant_entitlement g"
  show "of_application g \<or> (\<exists>r e. get_resource sto (res_id (ent_resource ?e)) = Inr r \<and>
      get_entitlement sto (ent_id ?e) = Inr e \<and> res_id (ent_resource e) = res_id r \<and>
      rid_type (res_id (grant_principal g)) \<in> dom srv)"
  proof (cases "of_application g")
    case False
    from store_fitsD(5) [OF store g False] have st: "grant_stored srv sto g" .
    obtain r where r: "get_resource sto (res_id (ent_resource ?e)) = Inr r" "res_id r = res_id (ent_resource ?e)"
      using st get_resource_stored [of "res_id (ent_resource ?e)" sto] get_resource_Inr by (auto simp: grant_stored_def)
    obtain e where e: "get_entitlement sto (ent_id ?e) = Inr e" "e \<in> set (sto_entitlements sto)" "ent_id e = ent_id ?e"
      using st get_entitlement_stored [of "ent_id ?e" sto] get_entitlement_Inr by (auto simp: grant_stored_def)
    obtain x where x: "x \<in> permissions (rid_type (res_id (ent_resource ?e)))" "ent_id ?e = new_entitlement_id (ent_resource ?e) x"
      using st by (auto simp: grant_stored_def)
    from entitlement_of_resource [OF store_fitsD(3) [OF store e(2)] _ x(1)] e(3) x(2) have "res_id (ent_resource e) = res_id (ent_resource ?e)" by simp
    with r e(1) st show ?thesis by (auto simp: grant_stored_def)
  qed simp
qed

lemma grant_h_facts:
  "\<not> of_application (grant_h type_members)" "is_expandable (grant_h type_members)"
  "res_id (ent_resource (grant_entitlement (grant_h type_members))) = res_id group_h"
  "res_id (grant_principal (grant_h type_members)) = res_id group_h"
  "ent_id (grant_entitlement (grant_h type_members)) = ''group:h:members''"
  by code_simp+

text \<open>The run of \<open>Sync_Run\<close>: the grant of the nested group finds its group and its entitlement.\<close>

lemma sync_store_consistent_witness:
  "\<exists>m :: builders machine. sync_reachable sync_env plain_conn demo_srv all_types m \<and> grant_h type_members \<in> set (sto_grants (mac_store m)) \<and>
    (\<exists>r e. get_resource (mac_store m) (res_id group_h) = Inr r \<and>
      get_entitlement (mac_store m) ''group:h:members'' = Inr e \<and> res_id (ent_resource e) = res_id r)"
proof -
  obtain m where m: "at_turn [op_action SyncGrantExpansionOp] (run_store run_resources run_entitlements run_grants) m"
    using grants_synced by blast
  then have reach: "sync_reachable sync_env plain_conn demo_srv all_types m" and g: "grant_h type_members \<in> set (sto_grants (mac_store m))"
    by (simp_all add: at_turn_def run_store_def run_grants_def)
  have "\<exists>r e. get_resource (mac_store m) (res_id group_h) = Inr r \<and>
      get_entitlement (mac_store m) ''group:h:members'' = Inr e \<and> res_id (ent_resource e) = res_id r"
    using bspec [OF conjunct2 [OF sync_store_consistent [OF demo_server demo_types reach refl]] g] unfolding grant_h_facts(3,5)
    using grant_h_facts(1) by blast
  with reach g show ?thesis by blast
qed

section \<open>The expansion of grants\<close>

lemma expandable_edges_load:
  assumes "\<And>i e. i \<in> set is \<Longrightarrow> get_entitlement sto i = Inr e \<Longrightarrow> res_id (ent_resource e) = res_id (grant_principal g)"
  shows "\<exists>edges. expandable_edges sto g is = Inr edges \<and>
    (\<forall>i\<in>set is. \<forall>e. get_entitlement sto i = Inr e \<longrightarrow> (i, ent_id (grant_entitlement g)) \<in> set edges)"
  using assms
proof (induction "is")
  case (Cons i "is")
  then obtain edges where edges: "expandable_edges sto g is = Inr edges"
    "\<forall>i\<in>set is. \<forall>e. get_entitlement sto i = Inr e \<longrightarrow> (i, ent_id (grant_entitlement g)) \<in> set edges" by auto
  show ?case
  proof (cases "get_entitlement sto i")
    case (Inl e)
    with edges show ?thesis by auto
  next
    case (Inr e)
    with get_entitlement_Inr [OF Inr] Cons.prems [of i e] edges show ?thesis by auto
  qed
qed simp

lemma expands_own_ids:
  assumes "expands_own g"
  shows "is_expandable g \<Longrightarrow> rid_type (res_id (grant_principal g)) = ''group'' \<and>
      expandable_ids g = [members_entitlement (rid_resource (res_id (grant_principal g)))]"
    and "\<not> is_expandable g \<Longrightarrow> expandable_ids g = []"
  using assms unfolding expands_own_def
  by (auto simp: is_expandable_def expandable_ids_def annos_contains_def annos_pick_def)

lemma load_expansion_loads:
  assumes "\<forall>g\<in>set gs. \<exists>edges. expandable_edges sto g (expandable_ids g) = Inr edges \<and> P g \<subseteq> set edges"
  shows "\<exists>edges. load_expansion sto gs = Inr edges \<and> (\<forall>g\<in>set gs. P g \<subseteq> set edges)"
  using assms
proof (induction gs)
  case (Cons g gs)
  then obtain es fs where "expandable_edges sto g (expandable_ids g) = Inr es" "P g \<subseteq> set es"
    "load_expansion sto gs = Inr fs" "\<forall>g\<in>set gs. P g \<subseteq> set fs" by (metis list.set_intros)
  then show ?case by auto
qed simp

text \<open>
  The source of an expandable grant: the members entitlement of its principal, a group. It is
  stored once the group is, and it is the group's own.
\<close>

abbreviation source_of :: "grant \<Rightarrow> string" where
  "source_of g \<equiv> members_entitlement (rid_resource (res_id (grant_principal g)))"

lemma source_own:
  assumes store: "store_fits srv sto" and g: "g \<in> set (sto_grants sto)" "is_expandable g"
    and e: "get_entitlement sto (source_of g) = Inr e"
  shows "res_id (ent_resource e) = res_id (grant_principal g)"
proof -
  let ?r = "bare_resource (res_id (grant_principal g))"
  have ty: "rid_type (res_id ?r) = ''group''"
    using expands_own_ids(1) [OF store_fitsD(4) [OF store g(1)] g(2)] by (simp add: bare_resource_def)
  then have x: "type_members \<in> permissions (rid_type (res_id ?r))" by (simp add: permissions_def)
  have "entitlement_formed e" using get_entitlement_Inr [OF e] store_fitsD(3) [OF store] by blast
  moreover have "ent_id e = new_entitlement_id ?r type_members"
    using get_entitlement_Inr [OF e] ty by (simp add: members_entitlement_def new_entitlement_id_def bare_resource_def type_constants)
  ultimately show ?thesis using entitlement_of_resource [OF _ _ x, of e] by (simp add: bare_resource_def)
qed

lemma source_stored:
  assumes s: "stack_fits (a # s)" "covered (a # s) sto" "act_op a = SyncGrantExpansionOp" and store: "store_fits srv sto"
    and g: "g \<in> set (sto_grants sto)" "is_expandable g" and p: "get_resource sto (res_id (grant_principal g)) = Inr p"
  shows "\<exists>e. get_entitlement sto (source_of g) = Inr e"
proof -
  note p = get_resource_Inr [OF p]
  have ty: "rid_type (res_id p) = ''group''" using expands_own_ids(1) [OF store_fitsD(4) [OF store g(1)] g(2)] p by simp
  then have "entitled sto p"
    using grants_entitled [OF s(1,2) _ conjunct1 [OF p]] s(3) by (simp add: can_be_granted_def)
  moreover have "new_entitlement_id p type_members = source_of g"
    using p ty by (simp add: members_entitlement_def new_entitlement_id_def type_constants)
  ultimately have "source_of g \<in> ent_id ` set (sto_entitlements sto)"
    using ty unfolding entitled_def permissions_def by auto
  then show ?thesis by (rule get_entitlement_stored)
qed

text \<open>The edge of a grant, if it has one.\<close>

definition edge_of :: "sync_store \<Rightarrow> grant \<Rightarrow> (string \<times> string) set" where
  "edge_of sto g = {(source_of g, ent_id (grant_entitlement g)) | p. is_expandable g \<and> get_resource sto (res_id (grant_principal g)) = Inr p}"

lemma grant_edges:
  assumes s: "stack_fits (a # s)" "covered (a # s) sto" "act_op a = SyncGrantExpansionOp" and store: "store_fits srv sto"
    and g: "g \<in> set (sto_grants sto)"
  shows "\<exists>edges. expandable_edges sto g (expandable_ids g) = Inr edges \<and> edge_of sto g \<subseteq> set edges"
proof (cases "is_expandable g")
  case True
  have "\<exists>edges. expandable_edges sto g [source_of g] = Inr edges \<and>
      (\<forall>i\<in>set [source_of g]. \<forall>e. get_entitlement sto i = Inr e \<longrightarrow> (i, ent_id (grant_entitlement g)) \<in> set edges)"
    by (rule expandable_edges_load) (use source_own [OF store g True] in simp)
  with expands_own_ids(1) [OF store_fitsD(4) [OF store g] True] source_stored [OF s store g True] show ?thesis
    unfolding edge_of_def by auto
next
  case False
  with expands_own_ids(2) [OF store_fitsD(4) [OF store g]] show ?thesis by (simp add: edge_of_def)
qed

text \<open>
  C6: the expansion of grants always starts. When a sync comes to it, the loading of the
  grants never ends in the error that a source entitlement is not one of the grant's
  principal; and no membership of a group in a group is lost: for every grant to be expanded
  whose principal, a group, was synced, the graph has the edge from the members of that
  group to the entitlement of the grant.
\<close>

theorem grant_expansion_loads:
  fixes m :: "'z builders_scheme machine"
  assumes "connector_server = Inr srv" and "list_resource_types srv types"
    and "sync_reachable env conn srv types m" and "sto = mac_store m"
    and "sts_current (mac_state m) = Some a" and "act_op a = SyncGrantExpansionOp"
  shows "\<exists>edges. load_expansion sto (sto_grants sto) = Inr edges \<and>
    (\<forall>g\<in>set (sto_grants sto). \<forall>p. is_expandable g \<longrightarrow> get_resource sto (res_id (grant_principal g)) = Inr p \<longrightarrow>
       rid_type (res_id p) = ''group'' \<and>
       (''group:'' @ rid_resource (res_id p) @ '':members'', ent_id (grant_entitlement g)) \<in> set edges)"
proof -
  obtain s where s: "stack_fits (a # s)" "covered (a # s) sto" and store: "store_fits srv sto"
    by (rule sync_fitsE [OF reachable_fits [OF assms(1-3)] assms(5)]) (simp add: assms(4))
  from load_expansion_loads [of "sto_grants sto" sto "edge_of sto"] grant_edges [OF s assms(6) store] obtain edges where
    edges: "load_expansion sto (sto_grants sto) = Inr edges" "\<forall>g\<in>set (sto_grants sto). edge_of sto g \<subseteq> set edges"
    by blast
  show ?thesis
  proof (intro exI [of _ edges] conjI ballI allI impI)
    fix g p
    assume g: "g \<in> set (sto_grants sto)" "is_expandable g" and p: "get_resource sto (res_id (grant_principal g)) = Inr p"
    have "(source_of g, ent_id (grant_entitlement g)) \<in> set edges" using edges(2) g p unfolding edge_of_def by blast
    with get_resource_Inr [OF p] expands_own_ids(1) [OF store_fitsD(4) [OF store g(1)] g(2)]
    show "rid_type (res_id p) = ''group''" "(''group:'' @ rid_resource (res_id p) @ '':members'', ent_id (grant_entitlement g)) \<in> set edges"
      by (simp_all add: members_entitlement_def)
  qed (fact edges(1))
qed

text \<open>The nested group of the run has its edge, from its own members to its own members.\<close>

lemma grant_expansion_loads_witness:
  "\<exists>(m :: builders machine) edges. sync_reachable sync_env plain_conn demo_srv all_types m \<and>
    load_expansion (mac_store m) (sto_grants (mac_store m)) = Inr edges \<and> (''group:h:members'', ''group:h:members'') \<in> set edges"
proof -
  obtain m where m: "at_turn [op_action SyncGrantExpansionOp] (run_store run_resources run_entitlements run_grants) m"
    using grants_synced by blast
  then have reach: "sync_reachable sync_env plain_conn demo_srv all_types m" and sto: "mac_store m = run_store run_resources run_entitlements run_grants"
    and cur: "sts_current (mac_state m) = Some (op_action SyncGrantExpansionOp)"
    using top_current [of "mac_state m" "op_action SyncGrantExpansionOp" "[]"] by (simp_all add: at_turn_def stacked_def)
  have g: "grant_h type_members \<in> set (sto_grants (mac_store m))" by (simp add: sto run_store_def run_grants_def)
  have p: "get_resource (mac_store m) (res_id (grant_principal (grant_h type_members))) = Inr group_h"
    unfolding grant_h_facts(4) sto by (rule run_stored(1))
  obtain edges where edges: "load_expansion (mac_store m) (sto_grants (mac_store m)) = Inr edges"
    "\<forall>g\<in>set (sto_grants (mac_store m)). \<forall>p. is_expandable g \<longrightarrow> get_resource (mac_store m) (res_id (grant_principal g)) = Inr p \<longrightarrow>
       rid_type (res_id p) = ''group'' \<and>
       (''group:'' @ rid_resource (res_id p) @ '':members'', ent_id (grant_entitlement g)) \<in> set edges"
    using grant_expansion_loads [OF demo_server demo_types reach refl cur] by (auto simp: op_action_def)
  have "(''group:'' @ rid_resource (res_id group_h) @ '':members'', ''group:h:members'') \<in> set edges"
    using edges(2) g grant_h_facts(2) p unfolding grant_h_facts(5) [symmetric] by blast
  then have "(''group:h:members'', ''group:h:members'') \<in> set edges" by (simp add: group_h_id)
  with reach edges(1) show ?thesis by blast
qed

end
