(* ===== verification/Process.thy ===== *)
theory Process
  imports Sync_Calls
begin

text \<open>
  The life of a connector's process: the calls its server answers, one after the other,
  against services that may change at any time, and the cleanup at the end of every sync.
\<close>

section \<open>Calls\<close>

text \<open>\<open>Cleanup\<close> of the server clears the caches of the HTTP clients, and no other.\<close>

definition serve_cleanup :: "('z world_scheme, unit) io" where
  "serve_cleanup w = (Ok (), w\<lparr>http_cache := []\<rparr>)"

inductive served :: "connector \<Rightarrow> server \<Rightarrow> 'z builders_scheme \<Rightarrow> 'z builders_scheme \<Rightarrow> bool" for conn srv where
  resources: "serve_resources env conn srv ty parent token w = (x, w') \<Longrightarrow> served conn srv w w'"
| entitlements: "serve_entitlements srv r token w = (y, w') \<Longrightarrow> served conn srv w w'"
| grants: "serve_grants env conn srv r token w = (z, w') \<Longrightarrow> served conn srv w w'"
| grant: "serve_grant env srv p e w = (u, w') \<Longrightarrow> served conn srv w w'"
| revoke: "serve_revoke env srv g w = (u, w') \<Longrightarrow> served conn srv w w'"
| cleanup: "serve_cleanup w = (u, w') \<Longrightarrow> served conn srv w w'"

section \<open>Provisioning leaves the caches of the builders alone\<close>

definition same_caches :: "'z builders_scheme \<Rightarrow> 'z builders_scheme \<Rightarrow> bool" where
  "same_caches w w' \<longleftrightarrow> role_cache w' = role_cache w \<and> app_cache w' = app_cache w"

lemma same_caches_refl [simp]: "same_caches w w"
  by (simp add: same_caches_def)

interpretation untouched: arm_reader same_caches
  by unfold_locales (auto simp: same_caches_def)

lemma query_unit_untouched: "query_unit env m u b w = (x, w') \<Longrightarrow> same_caches w w'"
  by (auto simp: same_caches_def query_unit_def query_def do_request_def base_do_def obtain_response_def send_def Let_def
      split: prod.splits sum.splits option.splits if_splits)

lemma graph_provisioning_untouched:
  "obeys same_caches (groups_grant env p e)" "obeys same_caches (groups_revoke env g)"
  "obeys same_caches (enterprise_apps_grant env p e)" "obeys same_caches (enterprise_apps_revoke env g)"
  by (rule obeysI; auto simp: groups_grant_def groups_revoke_def enterprise_apps_grant_def enterprise_apps_revoke_def Let_def
      dest!: query_unit_untouched split: option.splits prod.splits sum.splits if_splits)+

lemma assignments_untouched:
  "obeys same_caches (create_role_assignment env s scope role pid)" "obeys same_caches (delete_role_assignment env s scope role pid)"
proof -
  have "obeys same_caches (delete_assignment env s scope n)" for n
    by (simp add: obeys_def delete_assignment_def same_caches_def Let_def)
  then show "obeys same_caches (delete_role_assignment env s scope role pid)"
    unfolding delete_role_assignment_def
    by (intro untouched.bind untouched.assignment_id untouched.client untouched.if_then untouched.pure)
  show "obeys same_caches (create_role_assignment env s scope role pid)"
    unfolding create_role_assignment_def
    by (rule untouched.bind [OF untouched.client], rule obeysI)
      (auto simp: create_assignment_def same_caches_def Let_def split: prod.splits sum.splits option.splits)
qed

lemma provisioning_untouched:
  "Option.bind b (builder_provisioner env) = Some (give, take_back) \<Longrightarrow>
    obeys same_caches (give p e) \<and> obeys same_caches (take_back g)"
  by (cases b; cases "the b") (auto simp: graph_provisioning_untouched roles_grant_def roles_revoke_def role_assignments_grant_def
      role_assignments_revoke_def Let_def assignments_untouched)

lemma served_untouched:
  "serve_grant env srv p e w = (u, w') \<Longrightarrow> same_caches w w'" "serve_revoke env srv g w = (u, w') \<Longrightarrow> same_caches w w'"
proof -
  have give: "Option.bind b (builder_provisioner env) = Some (give, take_back) \<Longrightarrow> obeys same_caches (give p e)"
    and take: "Option.bind b (builder_provisioner env) = Some (give, take_back) \<Longrightarrow> obeys same_caches (take_back g)"
    for b and give take_back
    using provisioning_untouched by blast+
  show "serve_grant env srv p e w = (u, w') \<Longrightarrow> same_caches w w'"
    by (auto simp: serve_grant_def dest!: give [THEN obeysD] split: option.splits prod.splits outcome.splits)
  show "serve_revoke env srv g w = (u, w') \<Longrightarrow> same_caches w w'"
    by (auto simp: serve_revoke_def dest!: take [THEN obeysD] split: option.splits prod.splits outcome.splits)
qed

section \<open>What a process remembers\<close>

lemma served_keeps:
  assumes "served conn srv w w'"
  shows "caches_grow (conn_organization_ids conn) w w'"
  using assms
proof cases
  case (resources env ty parent token x)
  then show ?thesis using served_grow(1) [of conn w env srv ty parent token] by simp
next
  case (entitlements r token y)
  then show ?thesis using served_grow(2) [of conn w srv r token] by simp
next
  case (grants env r token z)
  then show ?thesis using served_grow(3) [of conn w env srv r token] by simp
next
  case (grant env p e u)
  from served_untouched(1) [OF this] show ?thesis by (simp add: same_caches_def caches_grow_def)
next
  case (revoke env g u)
  from served_untouched(2) [OF this] show ?thesis by (simp add: same_caches_def caches_grow_def)
qed (auto simp: serve_cleanup_def caches_grow_def)

lemma process_keeps:
  "(served conn srv)\<^sup>*\<^sup>* w w' \<Longrightarrow> caches_grow (conn_organization_ids conn) w w'"
  by (induction rule: rtranclp_induct) (auto intro: caches_grow_trans served_keeps)

lemma graph_grants:
  fixes w :: "'z builders_scheme"
  shows "list_all graph_event (new_events w (snd (bind_io (grants_of_assignments env r rd rv as) (\<lambda>rv. return_io (rv, t)) w)))"
  by (intro obeys_new_events graph_only.bind graph_only.assignments_grants graph_only.pure)

text \<open>
  C24: a process reads the role assignments of a subscription at most once in its life. Once
  they are cached, the entry stays as it is through every further call of the server,
  grants and revocations of roles and the cleanup after a sync included, and however the
  service changes; the grants of a role are computed from that entry, and the Resource
  Manager is not asked again. What is assigned or withdrawn later is not seen before the
  process ends.
\<close>

theorem role_cache_never_refreshed:
  assumes "(served conn srv)\<^sup>*\<^sup>* w w'" and "role_cache w s = Some as" and "role_key r = (s, n)"
  shows "role_cache w' s = Some as \<and>
    roles_grants env r token w' =
      bind_io (grants_of_assignments env r (role_definition_id s n) [] as) (\<lambda>rv. return_io (rv, [])) w' \<and>
    list_all graph_event (new_events w' (snd (roles_grants env r token w')))"
proof -
  have hit: "role_cache w' s = Some as" using process_keeps [OF assms(1)] assms(2) by (simp add: caches_grow_def)
  note grants = roles_grants_hit [OF assms(3) cache_role_assignments_hit [OF hit] hit]
  show ?thesis unfolding grants by (intro conjI hit graph_grants HOL.refl)
qed

text \<open>A user's role is revoked and the sync after it cleaned up, and still the grant is computed.\<close>

lemma revoked_in_process:
  "\<exists>w'. (served plain_conn demo_srv)\<^sup>*\<^sup>* filled_world w' \<and> ArmDelete ''s1'' ''/subscriptions/s1'' ''c'' \<in> set (history w')"
proof -
  let ?g = "role_grant_at ''user'' ''r1:s1''"
  have g: "rid_type (res_id (grant_principal ?g)) = ''user''" "''p1'' = rid_resource (res_id (grant_principal ?g))"
    "role_target (rid_resource (res_id (ent_resource (grant_entitlement ?g)))) = Some (''s1'', ''/subscriptions/s1'', ''r1'')"
    by (simp_all add: role_grant_at_def some_principal_def bare_entitlement_def bare_resource_def role_target_def subscription_scope_def)
  obtain es where "roles_revoke assigned_env ?g filled_world =
      (Ok (), log_events (es @ [ArmDelete ''s1'' ''/subscriptions/s1'' ''c'']) filled_world)"
    using roles.deletes [OF g(1) assigned_env_facts(1) g(3) assigned_env_facts(2-4) g(2), of filled_world]
    unfolding assigned_env_facts(5) option.case deletion_assigned by (auto simp: assignment_of_def)
  then have "serve_revoke assigned_env demo_srv (role_grant_at ''user'' ''r1:s1'') filled_world =
      (Ok (), log_events (es @ [ArmDelete ''s1'' ''/subscriptions/s1'' ''c'']) filled_world)"
    by (simp add: serve_revoke_def demo_srv_def role_grant_at_def bare_entitlement_def bare_resource_def)
  then have one: "served plain_conn demo_srv filled_world (log_events (es @ [ArmDelete ''s1'' ''/subscriptions/s1'' ''c'']) filled_world)"
    by (rule served.revoke)
  have "served plain_conn demo_srv w (w\<lparr>http_cache := []\<rparr>)" for w :: builders
    by (rule served.cleanup) (simp add: serve_cleanup_def)
  from rtranclp.rtrancl_into_rtrancl [OF r_into_rtranclp [of "served plain_conn demo_srv", OF one] this] show ?thesis
    by (intro exI conjI) (assumption, simp)
qed

theorem role_cache_never_refreshed_witness:
  "\<exists>w'. ArmDelete ''s1'' ''/subscriptions/s1'' ''c'' \<in> set (history w') \<and>
    roles_grants (people_env assignment_pages) demo_role_resource [] (w' :: builders) =
      bind_io (grants_of_assignments (people_env assignment_pages) demo_role_resource (role_definition_id ''s1'' ''r1'') []
        (concat (map page_value assignment_pages))) (\<lambda>rv. return_io (rv, [])) w' \<and>
    assignment_of ''c'' ''p1'' (role_definition_id ''s1'' ''r1'') \<in> set (concat (map page_value assignment_pages))"
proof -
  obtain w' where w': "(served plain_conn demo_srv)\<^sup>*\<^sup>* filled_world w'" "ArmDelete ''s1'' ''/subscriptions/s1'' ''c'' \<in> set (history w')"
    using revoked_in_process by blast
  have hit: "role_cache filled_world ''s1'' = Some (concat (map page_value assignment_pages))" by (simp add: filled_world_def)
  have "assignment_of ''c'' ''p1'' (role_definition_id ''s1'' ''r1'') \<in> set (concat (map page_value assignment_pages))"
    by (simp add: assignment_pages_def)
  with w'(2) role_cache_never_refreshed [OF w'(1) hit demo_keys(1)] show ?thesis by blast
qed

end
