(* ===== verification/Spec2Isabelle.thy ===== *)
theory Spec2Isabelle
  imports Group_Laws Resource_Laws List_Laws Grant_Laws Role_Locks Cache_Laws Startup_Laws Sync_Laws Process
begin

text \<open>
  A model of the connector \<open>baton-azure-infrastructure\<close> and what is proved of it.

  \<^bold>\<open>The program.\<close> The connector exposes the identities of an Azure tenant to the Baton SDK.
  The SDK's syncer asks it for resources, entitlements and grants, page by page, and its
  provisioner asks it to grant and revoke entitlements. \<open>cmd/baton-azure-infrastructure\<close>
  reads the configuration and starts a \<open>Connector\<close>; \<open>pkg/connector\<close> has one builder for each
  resource type. Users, groups, managed identities and enterprise applications come from
  Microsoft Graph, over a caching HTTP client; subscriptions, tenants, resource groups, roles
  and role assignments come from the Azure Resource Manager (ARM), over generated clients
  with pagers. Between two calls of the SDK a builder keeps nothing but the opaque page token
  it returned and two caches: of applications and of role assignments.

  \<^bold>\<open>Values, errors, effects.\<close> Strings are byte strings, pointers are options, slices lists,
  structs records. A Go call has an \<open>outcome\<close>: a value, an error, a panic (nil dereferences
  and indexing out of range are written out), or \<open>Diverged\<close>, when a loop has not ended within
  its bound. An operation with effects is a function from the world to an outcome and the
  next world. The world (\<open>World\<close>, \<open>Connector_Model\<close>) is the history of what was done outside
  (token requests, HTTP requests, ARM pages read, assignments created and deleted), the
  responses given to the HTTP cache, and the builders' caches. What is outside is the
  environment \<open>env\<close>, a record of functions of the history: the service may answer in any
  way, differently every time, and fail at any time. Theorems that need a service to be
  stable or to have certain pages say so in their assumptions.

  \<^bold>\<open>Theories, from the bottom.\<close>
    \<^item> \<open>Prelude\<close>: errors (\<open>client_graph.go\<close>'s sentinels and \<open>HTTPError\<close>, wrapped, joined and
      status errors), outcomes, Go's \<open>strings\<close>. \<open>Go_Json\<close> and \<open>Go_Url\<close>: what is used of
      \<open>encoding/json\<close>, \<open>path\<close> and \<open>net/url\<close>, with round trips of printing and parsing.
    \<^item> \<open>Sdk_Types\<close>: the SDK's resources, traits, annotations, entitlements and grants.
      \<open>Pagination\<close>: its \<open>Bag\<close> and \<open>parsePageToken\<close>. \<open>Slices\<close>: \<open>internal/slices\<close>.
    \<^item> \<open>World\<close>: ARM values, environment, the loop over a pager. \<open>Http_Client\<close>:
      \<open>client_graph.go\<close> on the SDK's \<open>uhttp\<close>, from the URL to the decoded response.
    \<^item> \<open>Connector_Model\<close>: \<open>model.go\<close>, \<open>resource_types.go\<close> and the constants.
    \<^item> One theory for each builder with its share of \<open>helper.go\<close>: \<open>Entra_Users\<close>
      (\<open>users.go\<close>), \<open>Entra_Groups\<close> (\<open>group.go\<close>), \<open>Service_Principals\<close>
      (\<open>managed_identities.go\<close>, \<open>service_principals_helper.go\<close>), \<open>Enterprise_Apps\<close>
      (\<open>enterprise_applications.go\<close>), \<open>Arm_Resources\<close> (\<open>subscription.go\<close>, \<open>tenant.go\<close>,
      \<open>resource_group.go\<close>), \<open>Roles\<close> (\<open>role.go\<close>), \<open>Role_Assignments\<close>
      (\<open>resource_group_role_assignment.go\<close>); \<open>Principals\<close> has what the last two share.
    \<^item> \<open>Config\<close> (\<open>config.go\<close> and the SDK's field validation), \<open>Connector_Core\<close>
      (\<open>connector.go\<close>, \<open>getConnector\<close> of \<open>main.go\<close>, the SDK's server), \<open>Syncer\<close> (the checks
      of the SDK's syncer on resources), \<open>Sync_Machine\<close> (\<open>sync/syncer.go\<close>, \<open>sync/state.go\<close>:
      the stack of actions, the store and the loop of a whole sync).
  Each operation of a builder has the name of its method, \<open>groups_grants\<close> for
  \<open>groupBuilder.Grants\<close>; long methods are split where the code has its branches.

  \<^bold>\<open>What is proved, and where.\<close>
    \<^item> \<open>Graph_Urls\<close>: URLs built from plain segments parse back to host, path and query.
    \<^item> \<open>Http_Laws\<close>: which errors a call can end in, what it sends, what a success means, and
      what a stable service makes of a call (locale \<open>missing_never_reported\<close>, interpreted for
      the two ways groups call Graph).
    \<^item> \<open>Cache_Laws\<close>: requests to Graph that share a cache key ask the same, unless separators
      occur in their parts, so the HTTP cache is invisible against a service that does not
      change.
    \<^item> \<open>Paging\<close>: the locales \<open>token_codec\<close> and \<open>paged_method\<close>, the contract between the syncer
      and a method that pages; the bag refines a stack and its token round-trips.
    \<^item> \<open>Group_Laws\<close>: listing the grants of a group gives the pages the service links, as far
      as \<open>Grants\<close> follows them; small pages end a relation, the tolerance for missing groups is dead, what \<open>Grant\<close> and \<open>Revoke\<close> send.
    \<^item> \<open>Resource_Laws\<close>: listed resources have the builder's type and traits, and the tree of
      a subscription is complete.
    \<^item> \<open>Effects\<close>: locales of step relations for readers, interpreted for what happens
      outside (reads only, one service only) and for what the caches keep; provisioning
      changes at most one thing.
    \<^item> \<open>Role_Provisioning\<close> (locale \<open>role_provisioner\<close>, interpreted for both role builders) and
      \<open>Role_Grants\<close>: ids, what is created and deleted, which grants a role has, the lookup
      of principals, and what an error on a later page leaves in the cache.
    \<^item> \<open>Role_Cache\<close>: the interleavings of overlapping calls of \<open>cacheRoleAssignments\<close> as a step
      relation: what always holds of the cache, that calls that do not overlap do what the
      sequential model does, and that overlapping ones can lose a page. \<open>Role_Locks\<close>: the same
      with the steps of the mutex; it refines \<open>Role_Cache\<close>, and no call stays blocked.
    \<^item> \<open>Grant_Laws\<close>: the grants of a sync refer to entitlements of their resource and to
      principals of served types, whatever the services answer, and when those of
      applications do.
    \<^item> \<open>App_Laws\<close>: what a page of applications puts into the cache, the entitlements, grants
      and provisioning of applications. \<open>User_Laws\<close>: users with their mailboxes.
    \<^item> \<open>List_Laws\<close>: the locale \<open>graph_lister\<close>, the shape that the four lists of Graph share,
      interpreted for each; following the tokens to the end gives all pages.
    \<^item> \<open>Sync_Calls\<close>, \<open>Sync_Turns\<close>, \<open>Sync_Laws\<close>: the invariant of a whole sync, kept by every turn
      of the loop, and what follows of the store and of the expansion of grants; \<open>Sync_Run\<close>
      is one sync in full, turn by turn, of a group nested in itself.
    \<^item> \<open>Process\<close>: the calls of the server one after the other and the cleanup after a sync;
      what the caches of the builders keep for as long as the process lives.
    \<^item> \<open>Startup_Laws\<close>: which configurations give a connector, and with what.

  \<^bold>\<open>Bounds.\<close> A pager of ARM need not end; its loop runs at most \<open>env_max_pages env\<close> times and
  is \<open>Diverged\<close> after that. The theorems that a list is complete assume only that the
  service has no more pages than that, and the environment may set any number; the theorems
  about safety hold for every bound. \<open>sync_pages n\<close>, the syncer's loop over tokens, takes a
  bound on its calls, and its theorems say which is enough: one more than the pages, or one
  call for applications. The loops of the connector itself are structurally recursive, and
  the parsers of JSON and URLs are bounded by the length of their input. A sync is a relation
  between machines, one turn of the loop each, of any length; its invariants hold at every
  turn, and that it ends is not claimed, since a service may always answer with one more page.

  \<^bold>\<open>Decisions.\<close> Logging is left out, except where the values logged are dereferenced (after
  a role assignment was created). The cache key, a SHA-256 of the request's description, is
  that description, so two descriptions never collide; packing a message into an \<open>Any\<close> and
  dumping a response lose nothing. \<open>strings.ToLower\<close> and \<open>TrimSpace\<close> act on ASCII. XML
  decoding, \<open>mail.ParseAddress\<close>, credentials, UUIDs and what the cache evicts are parameters of
  the environment. Resources and grants that the SDK hands in have their ids; elements of ARM
  pages are not nil, while their fields may be. The mutexes of the caches make single
  accesses atomic; only \<open>Role_Cache\<close> and \<open>Role_Locks\<close> interleave calls, elsewhere a call runs
  alone. \<open>stable_env\<close>, under which completeness is stated, lets the answer depend on the cache
  key only; \<open>Cache_Laws\<close> has when requests that share a key ask the same. The error of
  clearing the caches after a sync is dropped. The
  syncer's store never fails and gives each of its lists as one page, a transport error is
  the error of the call, and a sync begins with an empty store.

  \<^bold>\<open>Not modelled.\<close> Command-line parsing, gRPC, the file of the syncer's store, checkpoints,
  rate limiting and waits are I/O or scheduling in vendored libraries, and so is what the
  SDK does with the graph of grants to expand once it is loaded; the
  SDK's metrics, tickets, events, account management and credential rotation are not used
  by the connector; the transport and credentials of the Azure SDK are third-party code; the
  tests need a live tenant.
\<close>

end
